(* ===== verification/Prelude.thy ===== *)
theory Prelude
  imports Main "HOL-Library.Word"
begin

unbundle bit_operations_syntax

text \<open>
  Shared vocabulary of the development: the C++ scalar and string types, the
  read-with-default-insertion of \<^verbatim>\<open>std::map::operator[]\<close>, the for-loop over a vector that
  accumulates a result and an effect trace, sequencing of state transformers that emit
  effects, and the generic lemmas the components use about them.
\<close>

named_theorems svc_simps \<open>unfolding rules of the service's small operations\<close>
named_theorems frame_simps \<open>fields an operation leaves alone\<close>
named_theorems codec_simps \<open>rewriting rules of the parcel codecs\<close>

section \<open>Scalar types\<close>

text \<open>
  \<^verbatim>\<open>int32_t\<close>, \<^verbatim>\<open>int64_t\<close>, \<^verbatim>\<open>pid_t\<close> and the values of C++ enumerations are \<open>int\<close>: the modelled
  code never does arithmetic on them that could leave the range, and where it converts a
  wider value the conversion is written out (\<open>to_int32\<close>). \<^verbatim>\<open>uint32_t\<close> values, on which the
  code works bitwise, are 32-bit words.
\<close>

type_synonym int32 = int
type_synonym int64 = int
type_synonym uint32 = "32 word"
type_synonym string16 = "16 word list"

definition to_int32 :: "int \<Rightarrow> int32" where
  "to_int32 n = signed_take_bit 31 n"

definition to_uint32 :: "int32 \<Rightarrow> uint32" where
  "to_uint32 n = word_of_int n"

definition is_int32 :: "int \<Rightarrow> bool" where
  "is_int32 n \<longleftrightarrow> - (2 ^ 31) \<le> n \<and> n < 2 ^ 31"

section \<open>Maps with operator[]\<close>

text \<open>
  \<^verbatim>\<open>m[k]\<close> of a \<^verbatim>\<open>std::map\<close> used as a value: a missing key is first inserted with the
  value-initialised element \<open>d\<close>.
\<close>

definition map_index :: "('k \<rightharpoonup> 'v) \<Rightarrow> 'k \<Rightarrow> 'v \<Rightarrow> 'v \<times> ('k \<rightharpoonup> 'v)" where
  "map_index m k d = (case m k of None \<Rightarrow> (d, m(k \<mapsto> d)) | Some v \<Rightarrow> (v, m))"

abbreviation map_default :: "('k \<rightharpoonup> 'v) \<Rightarrow> 'k \<Rightarrow> 'v \<Rightarrow> 'v" where
  "map_default m k d \<equiv> (case m k of None \<Rightarrow> d | Some v \<Rightarrow> v)"

text \<open>What reads with \<^verbatim>\<open>operator[]\<close> can do to a map: present elements stay, new ones are \<open>d\<close>.\<close>

definition filled :: "'v \<Rightarrow> ('k \<rightharpoonup> 'v) \<Rightarrow> ('k \<rightharpoonup> 'v) \<Rightarrow> bool" where
  "filled d m m' \<longleftrightarrow> m \<subseteq>\<^sub>m m' \<and> (\<forall>k. m' k \<in> {m k, Some d})"

section \<open>Loops and sequencing\<close>

text \<open>
  \<^verbatim>\<open>for (size_t i = 0; i < v.size(); i++)\<close> over a vector, with the loop variables (the result
  code and the calls made so far) as the accumulator.
\<close>

fun for_each :: "('r \<Rightarrow> 'a \<Rightarrow> 'a) \<Rightarrow> 'r list \<Rightarrow> 'a \<Rightarrow> 'a" where
  "for_each body [] acc = acc"
| "for_each body (r # rs) acc = for_each body rs (body r acc)"

text \<open>Two statements in a row, each changing the state and emitting effects.\<close>

definition seq :: "('s \<Rightarrow> 's \<times> 'e list) \<Rightarrow> ('s \<Rightarrow> 's \<times> 'e list) \<Rightarrow> 's \<Rightarrow> 's \<times> 'e list" where
  "seq f g s = (let (s1, e1) = f s; (s2, e2) = g s1 in (s2, e1 @ e2))"

definition skip :: "'s \<Rightarrow> 's \<times> 'e list" where
  "skip s = (s, [])"

section \<open>Generic lemmas\<close>

lemma to_int32_id: "is_int32 n \<Longrightarrow> to_int32 n = n"
  unfolding to_int32_def is_int32_def by (rule signed_take_bit_int_eq_self) simp_all

lemma fst_map_index [simp]: "fst (map_index m k d) = map_default m k d"
  by (simp add: map_index_def split: option.split)

lemma snd_map_index_same: "snd (map_index m k d) k = Some (map_default m k d)"
  by (simp add: map_index_def split: option.split)

lemma map_default_map_index [simp]:
  "map_default (snd (map_index m k d)) k d = map_default m k d"
  by (simp add: snd_map_index_same)

lemma filled_refl [simp]: "filled d m m"
  by (simp add: filled_def)

lemma filled_map_index [simp]: "filled d m (snd (map_index m k d))"
  by (auto simp: filled_def map_index_def map_le_def split: option.split)

lemma filled_trans: "filled d m m' \<Longrightarrow> filled d m' m'' \<Longrightarrow> filled d m m''"
  unfolding filled_def by (metis insertCI insertE map_le_trans singletonD)

lemma filled_dom: "filled d m m' \<Longrightarrow> dom m \<subseteq> dom m'"
  by (simp add: filled_def map_le_implies_dom_le)

lemma filled_Some: "filled d m m' \<Longrightarrow> m k = Some v \<Longrightarrow> m' k = Some v"
  by (metis domI filled_def map_le_def)

lemma filled_None: "filled d m m' \<Longrightarrow> m k = None \<Longrightarrow> m' k \<in> {None, Some d}"
  by (metis filled_def)

lemma snd_map_index_other: "k' \<noteq> k \<Longrightarrow> snd (map_index m k d) k' = m k'"
  by (simp add: map_index_def split: option.split)

lemma snd_map_index_present: "m k' = Some v \<Longrightarrow> snd (map_index m k d) k' = Some v"
  by (auto simp: map_index_def split: option.split)

lemma dom_snd_map_index [simp]: "dom (snd (map_index m k d)) = insert k (dom m)"
  by (auto simp: map_index_def split: option.split)

lemma for_each_fold: "for_each body rs = fold body rs"
proof
  show "for_each body rs acc = fold body rs acc" for acc
    by (induction rs arbitrary: acc) simp_all
qed

lemma for_each_append: "for_each body (xs @ ys) acc = for_each body ys (for_each body xs acc)"
  by (simp add: for_each_fold)

lemma for_each_invariant:
  assumes "P acc" and "\<And>r a. r \<in> set rs \<Longrightarrow> P a \<Longrightarrow> P (body r a)"
  shows "P (for_each body rs acc)"
  using assms by (induction rs arbitrary: acc) auto

lemma fst_seq: "fst (seq f g s) = fst (g (fst (f s)))"
  by (simp add: seq_def split: prod.split)

lemma snd_seq: "snd (seq f g s) = snd (f s) @ snd (g (fst (f s)))"
  by (simp add: seq_def split: prod.split)

lemma skip_simps [simp]: "fst (skip s) = s" "snd (skip s) = []"
  by (simp_all add: skip_def)

lemma distinct_map_filter_unique:
  assumes "distinct (map f xs)" and "x \<in> set xs"
  shows "filter (\<lambda>y. f y = f x) xs = [x]"
  using assms
proof (induction xs)
  case Nil
  then show ?case by simp
next
  case (Cons y ys)
  show ?case
  proof (cases "x = y")
    case True
    with Cons.prems have "f z \<noteq> f x" if "z \<in> set ys" for z
      using that by (metis distinct.simps(2) image_eqI list.set_map list.simps(9))
    then have "filter (\<lambda>z. f z = f x) ys = []" by (simp add: filter_empty_conv)
    with True show ?thesis by simp
  next
    case False
    with Cons.prems have "f y \<noteq> f x" by auto
    with False Cons show ?thesis by simp
  qed
qed

section \<open>The fan-out interface\<close>

text \<open>
  Every update of the service ends in the same kind of loop: for each registration record a
  guard decides whether the record's observer is called, and a call sets the result to
  success. The locale states what a loop body promises (the effect \<open>pick r\<close> a record gives rise
  to, if any, and the result \<open>ok\<close> it sets) and proves what the whole loop then does.
\<close>

locale fanout =
  fixes body :: "'r \<Rightarrow> 'c \<times> 'e list \<Rightarrow> 'c \<times> 'e list"
    and pick :: "'r \<Rightarrow> 'e option"
    and ok :: 'c
  assumes body_law:
    "body r (res, es) = (case pick r of None \<Rightarrow> (res, es) | Some e \<Rightarrow> (ok, es @ [e]))"
begin

lemma loop_eq:
  "for_each body rs (res, es) =
     ((if List.map_filter pick rs = [] then res else ok), es @ List.map_filter pick rs)"
proof (induction rs arbitrary: res es)
  case Nil
  show ?case by simp
next
  case (Cons r rs)
  then show ?case by (simp add: body_law List.map_filter_simps split: option.split)
qed

lemma loop_success_iff:
  assumes "ok \<noteq> res"
  shows "fst (for_each body rs (res, es)) = ok \<longleftrightarrow> (\<exists>r \<in> set rs. pick r \<noteq> None)"
  using assms by (auto simp: loop_eq map_filter_def filter_empty_conv)

lemma loop_only_picked:
  assumes "e \<in> set (snd (for_each body rs (res, [])))"
  shows "\<exists>r \<in> set rs. pick r = Some e"
  using assms by (auto simp: loop_eq map_filter_def)

end

section \<open>The slot cache interface\<close>

text \<open>
  A cache keyed by the slot: what a query returns after one write. The locale derives what it
  returns after any sequence of writes, in the order in which they were made.
\<close>

locale slot_cache =
  fixes get :: "'s \<Rightarrow> 'k \<Rightarrow> 'v"
    and put :: "'k \<Rightarrow> 'x \<Rightarrow> 's \<Rightarrow> 's"
    and view :: "'x \<Rightarrow> 'v"
  assumes get_put: "get (put k x s) j = (if j = k then view x else get s j)"
begin

lemma get_put_fold:
  "get (fold (\<lambda>(k, x). put k x) ws s) j =
     (case map_of (rev ws) j of None \<Rightarrow> get s j | Some x \<Rightarrow> view x)"
proof (induction ws rule: rev_induct)
  case Nil
  show ?case by simp
next
  case (snoc w ws)
  then show ?case by (cases w) (simp add: get_put)
qed

end

end
