(* ===== verification/External.thy ===== *)
theory External
  imports Prelude
begin

text \<open>
  What the repository uses of code it does not contain: the constants and enumerations of the
  core service's headers, the access-token and permission checks, the string conversions, the
  marshalling of the payload objects, the extension library. All of it is a parameter of the
  model: the record \<open>build\<close> holds what is fixed when the code is built, the record
  \<open>world\<close> what the surrounding system answers during one call. What the code relies on is
  stated as the predicates \<open>masks_ok\<close> and \<open>codes_ok\<close>, which are hypotheses of the theorems
  that need them.
\<close>

section \<open>Enumerations of the core service's interface\<close>

text \<open>The names of \<^verbatim>\<open>TelephonyObserverBroker::OBSERVER_MASK_*\<close>.\<close>

datatype observer_mask =
    M_NETWORK_STATE | M_CALL_STATE | M_CELL_INFO | M_SIGNAL_STRENGTHS | M_SIM_STATE
  | M_DATA_CONNECTION_STATE | M_DATA_FLOW | M_CFU_INDICATOR | M_VOICE_MAIL_MSG_INDICATOR
  | M_ICC_ACCOUNT | M_CALL_STATE_EX | M_CCALL_STATE | M_SIM_ACTIVE_STATE | M_VOIP_CALL_STATE

text \<open>The names of the permissions the code checks (\<^verbatim>\<open>Permission::*\<close>).\<close>

datatype permission =
    SET_TELEPHONY_STATE | GET_TELEPHONY_STATE | READ_CALL_LOG | GET_NETWORK_INFO
  | CELL_LOCATION | MANAGE_CALL_FOR_DEVICES

text \<open>The names of the result codes the code returns or compares with.\<close>

datatype err_name =
    TELEPHONY_SUCCESS | TELEPHONY_ERROR
  | TELEPHONY_ERR_FAIL | TELEPHONY_ERR_LOCAL_PTR_NULL | TELEPHONY_ERR_ARGUMENT_MISMATCH
  | TELEPHONY_ERR_ARGUMENT_INVALID | TELEPHONY_ERR_ARGUMENT_NULL | TELEPHONY_ERR_SLOTID_INVALID
  | TELEPHONY_ERR_DESCRIPTOR_MISMATCH | TELEPHONY_ERR_IPC_CONNECT_STUB_FAIL
  | TELEPHONY_ERR_CALLBACK_ALREADY_REGISTERED | TELEPHONY_ERR_ILLEGAL_USE_OF_SYSTEM_API
  | TELEPHONY_ERR_PERMISSION_ERR
  | TELEPHONY_STATE_REGISTRY_DATA_NOT_EXIST | TELEPHONY_STATE_REGISTRY_SLODID_ERROR
  | TELEPHONY_STATE_REGISTRY_PERMISSION_DENIED | TELEPHONY_STATE_UNREGISTRY_DATA_NOT_EXIST
  | ERROR_SLOT_ID_INVALID
  | TELEPHONY_ERR_WRITE_DESCRIPTOR_TOKEN_FAIL | TELEPHONY_ERR_WRITE_DATA_FAIL | TELEPHONY_ERR_READ_DATA_FAIL
  | TELEPHONY_ERR_WRITE_REPLY_FAIL | TELEPHONY_ERR_REGISTER_CALLBACK_FAIL | TELEPHONY_ERR_UNINIT
  | TELEPHONY_ERR_UNREGISTER_CALLBACK_FAIL | TELEPHONY_ERR_VCARD_FILE_INVALID | TELEPHONY_ERR_MEMCPY_FAIL
  | TELEPHONY_ERR_MEMSET_FAIL | TELEPHONY_ERR_STRCPY_FAIL | TELEPHONY_ERR_SUBSCRIBE_BROADCAST_FAIL
  | TELEPHONY_ERR_PUBLISH_BROADCAST_FAIL | TELEPHONY_ERR_STRTOINT_FAIL | TELEPHONY_ERR_ADD_DEATH_RECIPIENT_FAIL
  | TELEPHONY_ERR_RIL_CMD_FAIL | TELEPHONY_ERR_DATABASE_WRITE_FAIL | TELEPHONY_ERR_DATABASE_READ_FAIL
  | TELEPHONY_ERR_UNKNOWN_NETWORK_TYPE | TELEPHONY_ERR_NO_SIM_CARD | TELEPHONY_ERR_AIRPLANE_MODE_ON
  | TELEPHONY_ERR_NETWORK_NOT_IN_SERVICE

instantiation observer_mask :: enum
begin

definition enum_observer_mask :: "observer_mask list" where
  "enum_observer_mask =
     [M_NETWORK_STATE, M_CALL_STATE, M_CELL_INFO, M_SIGNAL_STRENGTHS, M_SIM_STATE,
      M_DATA_CONNECTION_STATE, M_DATA_FLOW, M_CFU_INDICATOR, M_VOICE_MAIL_MSG_INDICATOR,
      M_ICC_ACCOUNT, M_CALL_STATE_EX, M_CCALL_STATE, M_SIM_ACTIVE_STATE, M_VOIP_CALL_STATE]"

definition enum_all_observer_mask :: "(observer_mask \<Rightarrow> bool) \<Rightarrow> bool" where
  "enum_all_observer_mask P = list_all P enum_class.enum"

definition enum_ex_observer_mask :: "(observer_mask \<Rightarrow> bool) \<Rightarrow> bool" where
  "enum_ex_observer_mask P = list_ex P enum_class.enum"

instance
proof
  have all: "m \<in> set (enum_class.enum :: observer_mask list)" for m :: observer_mask
    by (cases m) (simp_all add: enum_observer_mask_def)
  then show "(UNIV :: observer_mask set) = set enum_class.enum" by blast
  show "distinct (enum_class.enum :: observer_mask list)"
    by (simp add: enum_observer_mask_def)
  show "enum_class.enum_all P = Ball UNIV P" for P :: "observer_mask \<Rightarrow> bool"
    using all by (auto simp: enum_all_observer_mask_def list_all_iff)
  show "enum_class.enum_ex P = Bex UNIV P" for P :: "observer_mask \<Rightarrow> bool"
    using all by (auto simp: enum_ex_observer_mask_def list_ex_iff)
qed

end

section \<open>Constants fixed by the build\<close>

record build =
  OBSERVER_MASK :: "observer_mask \<Rightarrow> uint32"
  ERR :: "err_name \<Rightarrow> int32"
  SIM_SLOT_COUNT :: int32
  SIM_SLOT_COUNT_MD :: int32
  DUAL_SLOT_COUNT :: int32
  MAX_SLOT_COUNT :: int32
  VSIM_MODEM_COUNT :: int32
  SIM_SLOT_2 :: int32
  DEFAULT_SIM_SLOT_ID :: int32
  BUILD_TELEPHONY_VSIM :: bool
  BUILD_TELEPHONY_EXT :: bool
  PERMISSION_DENIED :: int32
  TOKEN_NATIVE :: int32
  TOKEN_SHELL :: int32

text \<open>
  The masks are bit masks: each has a bit and no two share one (the subscription of one kind of
  state never looks like the subscription of another).
\<close>

definition masks_ok :: "build \<Rightarrow> bool" where
  "masks_ok K \<longleftrightarrow> (\<forall>a b. (OBSERVER_MASK K a AND OBSERVER_MASK K b \<noteq> 0) = (a = b))"

text \<open>Success is told apart from every failure code: callers test \<^verbatim>\<open>!= TELEPHONY_SUCCESS\<close>.\<close>

definition codes_ok :: "build \<Rightarrow> bool" where
  "codes_ok K \<longleftrightarrow> (\<forall>n. ERR K n = ERR K TELEPHONY_SUCCESS \<longrightarrow> n = TELEPHONY_SUCCESS)"

section \<open>Registration records\<close>

text \<open>
  \<^verbatim>\<open>class TelephonyStateRegistryRecord\<close>. A pointer to an observer is the number of the remote
  object it refers to, \<open>None\<close> for \<^verbatim>\<open>nullptr\<close>.
\<close>

type_synonym observer = nat

record TelephonyStateRegistryRecord =
  bundleName_of :: string
  tokenId_of :: int32
  uid_of :: int32
  pid_of :: int32
  mask_of :: uint32
  slotId_of :: int32
  appIdentifier_of :: string
  telephonyObserver_of :: "observer option"

section \<open>The extension library\<close>

text \<open>
  \<^verbatim>\<open>class TelephonyExtWrapper\<close>: function pointers into a shared library loaded at run time,
  \<open>None\<close> while they are null. A hook that changes its reference argument returns the new value.
\<close>

record ('sig, 'cell, 'net) TelephonyExtWrapper =
  onNetworkStateUpdated_of ::
    "(int32 \<Rightarrow> TelephonyStateRegistryRecord \<Rightarrow> 'net \<Rightarrow> 'net \<Rightarrow> 'net) option"
  onSignalInfoUpdated_of ::
    "(int32 \<Rightarrow> TelephonyStateRegistryRecord \<Rightarrow> 'sig option list \<Rightarrow> 'sig option list) option"
  onCellInfoUpdated_of ::
    "(int32 \<Rightarrow> TelephonyStateRegistryRecord \<Rightarrow> 'cell option list \<Rightarrow> 'cell option list) option"
  onCellularDataConnectStateUpdated_of ::
    "(int32 \<Rightarrow> TelephonyStateRegistryRecord \<Rightarrow> int32 \<Rightarrow> int32) option"
  sendNetworkStateChanged_of :: bool
  sendSignalInfoChanged_of :: bool
  telephonyExtWrapperHandle_of :: bool

section \<open>What the system answers during one call\<close>

record ('sig, 'cell, 'net) world =
  CheckPermission :: "permission \<Rightarrow> bool"
  CallerIsSystemApp :: bool
  CallerTokenType :: int32
  IsSystemAppByFullTokenID :: bool
  VerifyAccessToken :: "int32 \<Rightarrow> permission \<Rightarrow> int32"
  Str8ToStr16 :: "string \<Rightarrow> string16"
  Str16ToStr8 :: "string16 \<Rightarrow> string"
  SignalToString :: "'sig \<Rightarrow> string"
  NetworkToString :: "'net \<Rightarrow> string"
  NetworkRemarshal :: "'net \<Rightarrow> 'net"
  MakeSptrOk :: bool
  EXT :: "('sig, 'cell, 'net) TelephonyExtWrapper"

section \<open>Concrete parameters for the witnesses\<close>

text \<open>
  One assignment of the parameters that satisfies what the theorems assume, used only to show
  that the hypotheses can hold.
\<close>

fun demo_mask :: "observer_mask \<Rightarrow> uint32" where
  "demo_mask M_NETWORK_STATE = 1"
| "demo_mask M_CALL_STATE = 4"
| "demo_mask M_CELL_INFO = 8"
| "demo_mask M_SIGNAL_STRENGTHS = 16"
| "demo_mask M_SIM_STATE = 32"
| "demo_mask M_DATA_CONNECTION_STATE = 64"
| "demo_mask M_DATA_FLOW = 128"
| "demo_mask M_CFU_INDICATOR = 256"
| "demo_mask M_VOICE_MAIL_MSG_INDICATOR = 512"
| "demo_mask M_ICC_ACCOUNT = 1024"
| "demo_mask M_CALL_STATE_EX = 2"
| "demo_mask M_CCALL_STATE = 2048"
| "demo_mask M_SIM_ACTIVE_STATE = 4096"
| "demo_mask M_VOIP_CALL_STATE = 8192"

fun demo_err :: "err_name \<Rightarrow> int32" where
  "demo_err TELEPHONY_SUCCESS = 0"
| "demo_err TELEPHONY_ERROR = -1"
| "demo_err TELEPHONY_ERR_FAIL = 1"
| "demo_err TELEPHONY_ERR_LOCAL_PTR_NULL = 2"
| "demo_err TELEPHONY_ERR_ARGUMENT_MISMATCH = 3"
| "demo_err TELEPHONY_ERR_ARGUMENT_INVALID = 4"
| "demo_err TELEPHONY_ERR_ARGUMENT_NULL = 5"
| "demo_err TELEPHONY_ERR_SLOTID_INVALID = 6"
| "demo_err TELEPHONY_ERR_DESCRIPTOR_MISMATCH = 7"
| "demo_err TELEPHONY_ERR_IPC_CONNECT_STUB_FAIL = 8"
| "demo_err TELEPHONY_ERR_CALLBACK_ALREADY_REGISTERED = 9"
| "demo_err TELEPHONY_ERR_ILLEGAL_USE_OF_SYSTEM_API = 10"
| "demo_err TELEPHONY_ERR_PERMISSION_ERR = 11"
| "demo_err TELEPHONY_STATE_REGISTRY_DATA_NOT_EXIST = 12"
| "demo_err TELEPHONY_STATE_REGISTRY_SLODID_ERROR = 13"
| "demo_err TELEPHONY_STATE_REGISTRY_PERMISSION_DENIED = 14"
| "demo_err TELEPHONY_STATE_UNREGISTRY_DATA_NOT_EXIST = 15"
| "demo_err ERROR_SLOT_ID_INVALID = 16"
| "demo_err TELEPHONY_ERR_WRITE_DESCRIPTOR_TOKEN_FAIL = 17"
| "demo_err TELEPHONY_ERR_WRITE_DATA_FAIL = 18"
| "demo_err TELEPHONY_ERR_READ_DATA_FAIL = 19"
| "demo_err TELEPHONY_ERR_WRITE_REPLY_FAIL = 20"
| "demo_err TELEPHONY_ERR_REGISTER_CALLBACK_FAIL = 21"
| "demo_err TELEPHONY_ERR_UNINIT = 22"
| "demo_err TELEPHONY_ERR_UNREGISTER_CALLBACK_FAIL = 23"
| "demo_err TELEPHONY_ERR_VCARD_FILE_INVALID = 24"
| "demo_err TELEPHONY_ERR_MEMCPY_FAIL = 25"
| "demo_err TELEPHONY_ERR_MEMSET_FAIL = 26"
| "demo_err TELEPHONY_ERR_STRCPY_FAIL = 27"
| "demo_err TELEPHONY_ERR_SUBSCRIBE_BROADCAST_FAIL = 28"
| "demo_err TELEPHONY_ERR_PUBLISH_BROADCAST_FAIL = 29"
| "demo_err TELEPHONY_ERR_STRTOINT_FAIL = 30"
| "demo_err TELEPHONY_ERR_ADD_DEATH_RECIPIENT_FAIL = 31"
| "demo_err TELEPHONY_ERR_RIL_CMD_FAIL = 32"
| "demo_err TELEPHONY_ERR_DATABASE_WRITE_FAIL = 33"
| "demo_err TELEPHONY_ERR_DATABASE_READ_FAIL = 34"
| "demo_err TELEPHONY_ERR_UNKNOWN_NETWORK_TYPE = 35"
| "demo_err TELEPHONY_ERR_NO_SIM_CARD = 36"
| "demo_err TELEPHONY_ERR_AIRPLANE_MODE_ON = 37"
| "demo_err TELEPHONY_ERR_NETWORK_NOT_IN_SERVICE = 38"

definition demo_K :: build where
  "demo_K = \<lparr>OBSERVER_MASK = demo_mask, ERR = demo_err, SIM_SLOT_COUNT = 2,
     SIM_SLOT_COUNT_MD = 2, DUAL_SLOT_COUNT = 2, MAX_SLOT_COUNT = 3, VSIM_MODEM_COUNT = 0,
     SIM_SLOT_2 = 2, DEFAULT_SIM_SLOT_ID = 0, BUILD_TELEPHONY_VSIM = False,
     BUILD_TELEPHONY_EXT = False, PERMISSION_DENIED = -1, TOKEN_NATIVE = 1, TOKEN_SHELL = 2\<rparr>"

definition no_ext :: "('sig, 'cell, 'net) TelephonyExtWrapper" where
  "no_ext = \<lparr>onNetworkStateUpdated_of = None, onSignalInfoUpdated_of = None,
     onCellInfoUpdated_of = None, onCellularDataConnectStateUpdated_of = None,
     sendNetworkStateChanged_of = False, sendSignalInfoChanged_of = False,
     telephonyExtWrapperHandle_of = False\<rparr>"

definition demo_E :: "('sig, 'cell, 'net) world" where
  "demo_E = \<lparr>CheckPermission = (\<lambda>_. True), CallerIsSystemApp = True, CallerTokenType = 0,
     IsSystemAppByFullTokenID = False,
     VerifyAccessToken = (\<lambda>t p. if t = 7 then 0 else -1),
     Str8ToStr16 = map (\<lambda>c. of_nat (of_char c)), Str16ToStr8 = map (\<lambda>w. char_of (unat w)),
     SignalToString = (\<lambda>_. ''s''), NetworkToString = (\<lambda>_. ''n''), NetworkRemarshal = id,
     MakeSptrOk = True, EXT = no_ext\<rparr>"

section \<open>Lemmas\<close>

lemma masks_okD: "masks_ok K \<Longrightarrow> (OBSERVER_MASK K a AND OBSERVER_MASK K b = 0) = (a \<noteq> b)"
  by (metis masks_ok_def)

lemma masks_ok_inj: "masks_ok K \<Longrightarrow> (OBSERVER_MASK K a = OBSERVER_MASK K b) = (a = b)"
  by (metis masks_ok_def)

lemma codes_okD: "codes_ok K \<Longrightarrow> (ERR K n = ERR K TELEPHONY_SUCCESS) = (n = TELEPHONY_SUCCESS)"
  by (metis codes_ok_def)

lemma codes_okD': "codes_ok K \<Longrightarrow> (ERR K TELEPHONY_SUCCESS = ERR K n) = (n = TELEPHONY_SUCCESS)"
  by (metis codes_ok_def)

lemma masks_ok_demo: "masks_ok demo_K"
proof -
  have "\<forall>a \<in> set enum_class.enum. \<forall>b \<in> set enum_class.enum.
          (demo_mask a AND demo_mask b \<noteq> 0) = (a = b)"
    by (simp add: enum_observer_mask_def)
  then show ?thesis by (simp add: masks_ok_def demo_K_def flip: UNIV_enum)
qed

lemma codes_ok_demo: "codes_ok demo_K"
proof -
  have "demo_err n = 0 \<Longrightarrow> n = TELEPHONY_SUCCESS" for n
    by (cases n) simp_all
  then show ?thesis by (simp add: codes_ok_def demo_K_def)
qed

lemmas demo_simps = demo_K_def demo_E_def no_ext_def

end
