(* ===== verification/Service_State.thy ===== *)
theory Service_State
  imports External
begin

text \<open>
  The state registry service: the methods of a registration record, the service's fields, its
  constructor, start and stop, the queries, the calls it makes on observers and the common
  events it publishes (\<^verbatim>\<open>services/src/telephony_state_registry_record.cpp\<close>,
  \<^verbatim>\<open>services/src/telephony_state_registry_service.cpp\<close>,
  \<^verbatim>\<open>services/telephony_ext_wrapper/src/telephony_ext_wrapper.cpp\<close>).
\<close>

section \<open>Registration records\<close>

definition IsCanReadCallHistory ::
    "build \<Rightarrow> ('sig, 'cell, 'net) world \<Rightarrow> TelephonyStateRegistryRecord \<Rightarrow> bool" where
  "IsCanReadCallHistory K E r =
     (if VerifyAccessToken E (tokenId_of r) READ_CALL_LOG = PERMISSION_DENIED K then False else True)"

definition IsExistStateListener :: "TelephonyStateRegistryRecord \<Rightarrow> uint32 \<Rightarrow> bool" where
  "IsExistStateListener r m \<longleftrightarrow> telephonyObserver_of r \<noteq> None \<and> mask_of r AND m \<noteq> 0"

definition CanManageCallForDevices ::
    "build \<Rightarrow> ('sig, 'cell, 'net) world \<Rightarrow> TelephonyStateRegistryRecord \<Rightarrow> bool" where
  "CanManageCallForDevices K E r =
     (if VerifyAccessToken E (tokenId_of r) MANAGE_CALL_FOR_DEVICES = PERMISSION_DENIED K
      then False else True)"

section \<open>Call status, VoIP state, calls on observers\<close>

text \<open>\<^verbatim>\<open>enum class CallStatus\<close> of \<^verbatim>\<open>telephony_state_manager.h\<close> and its values.\<close>

datatype CallStatus =
    CALL_STATUS_UNKNOWN | CALL_STATUS_ACTIVE | CALL_STATUS_HOLDING | CALL_STATUS_DIALING
  | CALL_STATUS_ALERTING | CALL_STATUS_INCOMING | CALL_STATUS_WAITING | CALL_STATUS_DISCONNECTED
  | CALL_STATUS_DISCONNECTING | CALL_STATUS_IDLE | CALL_STATUS_ANSWERED

fun CallStatus_value :: "CallStatus \<Rightarrow> int32" where
  "CallStatus_value CALL_STATUS_UNKNOWN = -1"
| "CallStatus_value CALL_STATUS_ACTIVE = 0"
| "CallStatus_value CALL_STATUS_HOLDING = 1"
| "CallStatus_value CALL_STATUS_DIALING = 2"
| "CallStatus_value CALL_STATUS_ALERTING = 3"
| "CallStatus_value CALL_STATUS_INCOMING = 4"
| "CallStatus_value CALL_STATUS_WAITING = 5"
| "CallStatus_value CALL_STATUS_DISCONNECTED = 6"
| "CallStatus_value CALL_STATUS_DISCONNECTING = 7"
| "CallStatus_value CALL_STATUS_IDLE = 8"
| "CallStatus_value CALL_STATUS_ANSWERED = 9"

record VoIPCallStateInfo =
  voip_appName :: string
  voip_contactName :: string
  voip_callType :: int32
  voip_callState :: int32
  voip_isVoiceAnswerSupported :: bool

text \<open>The methods of an observer, with their arguments.\<close>

datatype ('sig, 'cell, 'net) observer_call =
    OnCallStateUpdated int32 int32 string16
  | OnSignalInfoUpdated int32 "'sig option list"
  | OnNetworkStateUpdated int32 "'net option"
  | OnCellInfoUpdated int32 "'cell option list"
  | OnSimStateUpdated int32 int32 int32 int32
  | OnCellularDataConnectStateUpdated int32 int32 int32
  | OnCellularDataFlowUpdated int32 int32
  | OnCfuIndicatorUpdated int32 bool
  | OnVoiceMailMsgIndicatorUpdated int32 bool
  | OnIccAccountUpdated
  | OnCallStateUpdatedEx int32 int32
  | OnCCallStateUpdated int32 int32 string16
  | OnSimActiveStateUpdated int32 bool
  | OnVoIPStateUpdated VoIPCallStateInfo

section \<open>Common events and effects\<close>

datatype event_action =
    COMMON_EVENT_CALL_STATE_CHANGED | COMMON_EVENT_CELLULAR_DATA_STATE_CHANGED
  | COMMON_EVENT_SIM_STATE_CHANGED | COMMON_EVENT_SIGNAL_INFO_CHANGED
  | COMMON_EVENT_NETWORK_STATE_CHANGED

datatype want_value = WInt int32 | WStr string | WStrs "string list"

record Want =
  want_action :: event_action
  want_params :: "(string \<times> want_value) list"

record CommonEvent =
  ev_want :: Want
  ev_code :: "int32 option"
  ev_data :: "string option"
  ev_ordered :: bool
  ev_permissions :: "permission list"

text \<open>
  What the service does to the outside: a call on an observer, the publication of a common
  event, a call of one of the extension library's broadcast hooks.
\<close>

datatype ('sig, 'cell, 'net) effect =
    Notify observer "('sig, 'cell, 'net) observer_call"
  | Publish CommonEvent
  | ExtSendSignalInfoChanged int32 "'sig option list"
  | ExtSendNetworkStateChanged int32 "'net option"

section \<open>The service object\<close>

datatype ServiceRunningState = STATE_STOPPED | STATE_RUNNING

record ('sig, 'cell, 'net) service =
  state_of :: ServiceRunningState
  slotSize_of :: int32
  bindStartTime_of :: int64
  bindEndTime_of :: int64
  bindSpendTime_of :: int64
  cfuResult_of :: "int32 \<rightharpoonup> bool"
  voiceMailMsgResult_of :: "int32 \<rightharpoonup> bool"
  callState_of :: "int32 \<rightharpoonup> int32"
  callIncomingNumber_of :: "int32 \<rightharpoonup> string16"
  signalInfos_of :: "int32 \<rightharpoonup> 'sig option list"
  cellInfos_of :: "int32 \<rightharpoonup> 'cell option list"
  searchNetworkState_of :: "int32 \<rightharpoonup> 'net option"
  stateRecords_of :: "TelephonyStateRegistryRecord list"
  simState_of :: "int32 \<rightharpoonup> int32"
  cardType_of :: "int32 \<rightharpoonup> int32"
  simReason_of :: "int32 \<rightharpoonup> int32"
  cellularDataConnectionState_of :: "int32 \<rightharpoonup> int32"
  cellularDataConnectionNetworkType_of :: "int32 \<rightharpoonup> int32"
  cellularDataFlow_of :: "int32 \<rightharpoonup> int32"
  simActiveResult_of :: "int32 \<rightharpoonup> bool"

text \<open>The field initialisers of the class.\<close>

definition blank_service :: "('sig, 'cell, 'net) service" where
  "blank_service = \<lparr>state_of = STATE_STOPPED, slotSize_of = 0, bindStartTime_of = 0, bindEndTime_of = 0,
     bindSpendTime_of = 0, cfuResult_of = Map.empty, voiceMailMsgResult_of = Map.empty,
     callState_of = Map.empty, callIncomingNumber_of = Map.empty, signalInfos_of = Map.empty,
     cellInfos_of = Map.empty, searchNetworkState_of = Map.empty, stateRecords_of = [],
     simState_of = Map.empty, cardType_of = Map.empty, simReason_of = Map.empty,
     cellularDataConnectionState_of = Map.empty, cellularDataConnectionNetworkType_of = Map.empty,
     cellularDataFlow_of = Map.empty, simActiveResult_of = Map.empty\<rparr>"

definition initial_slot_size :: "build \<Rightarrow> int32" where
  "initial_slot_size K =
     (let n = SIM_SLOT_COUNT_MD K;
          n = (if BUILD_TELEPHONY_VSIM K \<and> n = DUAL_SLOT_COUNT K \<and>
                  (VSIM_MODEM_COUNT K = MAX_SLOT_COUNT K \<or> VSIM_MODEM_COUNT K = DUAL_SLOT_COUNT K)
               then MAX_SLOT_COUNT K else n)
      in if SIM_SLOT_COUNT K > DUAL_SLOT_COUNT K then SIM_SLOT_COUNT K + 1 else n)"

text \<open>\<^verbatim>\<open>for (int32_t i = 0; i < slotSize_; i++) callState_[i] = CALL_STATUS_UNKNOWN\<close>\<close>

function init_call_states :: "int32 \<Rightarrow> int32 \<Rightarrow> (int32 \<rightharpoonup> int32) \<Rightarrow> (int32 \<rightharpoonup> int32)" where
  "init_call_states i n m =
     (if i < n then init_call_states (i + 1) n (m(i \<mapsto> CallStatus_value CALL_STATUS_UNKNOWN))
      else m)"
  by pat_completeness auto
termination
  by (relation "measure (\<lambda>(i, n, m). nat (n - i))") auto

declare init_call_states.simps [simp del]

definition construct_service :: "build \<Rightarrow> ('sig, 'cell, 'net) service" where
  "construct_service K =
     (let n = initial_slot_size K;
          m = init_call_states 0 n Map.empty;
          m = (if n = 0 then m(0 \<mapsto> CallStatus_value CALL_STATUS_UNKNOWN) else m);
          m = m(-1 \<mapsto> CallStatus_value CALL_STATUS_UNKNOWN)
      in blank_service\<lparr>slotSize_of := n, callState_of := m\<rparr>)"

definition destruct_service :: "('sig, 'cell, 'net) service \<Rightarrow> ('sig, 'cell, 'net) service" where
  "destruct_service s = s\<lparr>stateRecords_of := [], callState_of := Map.empty,
     callIncomingNumber_of := Map.empty, signalInfos_of := Map.empty,
     searchNetworkState_of := Map.empty\<rparr>"

section \<open>Queries\<close>

text \<open>
  The seven queries iterate over a map until the key is the slot and return the value found, or
  \<^verbatim>\<open>TELEPHONY_ERROR\<close> when the iteration ends.
\<close>

definition scan_slot :: "build \<Rightarrow> (int32 \<rightharpoonup> int32) \<Rightarrow> int32 \<Rightarrow> int32" where
  "scan_slot K m slotId = (case m slotId of Some v \<Rightarrow> v | None \<Rightarrow> ERR K TELEPHONY_ERROR)"

definition GetServiceRunningState :: "('sig, 'cell, 'net) service \<Rightarrow> int32" where
  "GetServiceRunningState s = (case state_of s of STATE_STOPPED \<Rightarrow> 0 | STATE_RUNNING \<Rightarrow> 1)"

definition GetSimState :: "build \<Rightarrow> ('sig, 'cell, 'net) service \<Rightarrow> int32 \<Rightarrow> int32" where
  "GetSimState K s slotId = scan_slot K (simState_of s) slotId"

definition GetCallState :: "build \<Rightarrow> ('sig, 'cell, 'net) service \<Rightarrow> int32 \<Rightarrow> int32" where
  "GetCallState K s slotId = scan_slot K (callState_of s) slotId"

definition GetCardType :: "build \<Rightarrow> ('sig, 'cell, 'net) service \<Rightarrow> int32 \<Rightarrow> int32" where
  "GetCardType K s slotId = scan_slot K (cardType_of s) slotId"

definition GetCellularDataConnectionState ::
    "build \<Rightarrow> ('sig, 'cell, 'net) service \<Rightarrow> int32 \<Rightarrow> int32" where
  "GetCellularDataConnectionState K s slotId = scan_slot K (cellularDataConnectionState_of s) slotId"

definition GetCellularDataFlow :: "build \<Rightarrow> ('sig, 'cell, 'net) service \<Rightarrow> int32 \<Rightarrow> int32" where
  "GetCellularDataFlow K s slotId = scan_slot K (cellularDataFlow_of s) slotId"

definition GetCellularDataConnectionNetworkType ::
    "build \<Rightarrow> ('sig, 'cell, 'net) service \<Rightarrow> int32 \<Rightarrow> int32" where
  "GetCellularDataConnectionNetworkType K s slotId =
     scan_slot K (cellularDataConnectionNetworkType_of s) slotId"

definition GetLockReason :: "build \<Rightarrow> ('sig, 'cell, 'net) service \<Rightarrow> int32 \<Rightarrow> int32" where
  "GetLockReason K s slotId = scan_slot K (simReason_of s) slotId"

definition VerifySlotId :: "('sig, 'cell, 'net) service \<Rightarrow> int32 \<Rightarrow> bool" where
  "VerifySlotId s slotId \<longleftrightarrow> slotId \<ge> 0 \<and> slotId < slotSize_of s"

section \<open>Publishing common events\<close>

definition PublishCommonEvent ::
    "Want \<Rightarrow> int32 \<Rightarrow> string \<Rightarrow> ('sig, 'cell, 'net) effect list" where
  "PublishCommonEvent w eventCode eventData =
     [Publish \<lparr>ev_want = w, ev_code = Some eventCode, ev_data = Some eventData, ev_ordered = False,
        ev_permissions =
          (if want_action w = COMMON_EVENT_NETWORK_STATE_CHANGED then [GET_NETWORK_INFO] else [])\<rparr>]"

definition SendCallStateChanged :: "int32 \<Rightarrow> int32 \<Rightarrow> ('sig, 'cell, 'net) effect list" where
  "SendCallStateChanged slotId st =
     [Publish \<lparr>ev_want = \<lparr>want_action = COMMON_EVENT_CALL_STATE_CHANGED,
                 want_params = [(''slotId'', WInt slotId), (''state'', WInt st)]\<rparr>,
        ev_code = None, ev_data = None, ev_ordered = False,
        ev_permissions = [GET_TELEPHONY_STATE]\<rparr>]"

definition SendCallStateChangedAsUserMultiplePermission ::
    "('sig, 'cell, 'net) world \<Rightarrow> int32 \<Rightarrow> int32 \<Rightarrow> string16 \<Rightarrow> ('sig, 'cell, 'net) effect list" where
  "SendCallStateChangedAsUserMultiplePermission E slotId st number =
     [Publish \<lparr>ev_want = \<lparr>want_action = COMMON_EVENT_CALL_STATE_CHANGED,
                 want_params = [(''slotId'', WInt slotId), (''state'', WInt st),
                           (''number'', WStr (Str16ToStr8 E number))]\<rparr>,
        ev_code = None, ev_data = None, ev_ordered = False,
        ev_permissions = [GET_TELEPHONY_STATE, READ_CALL_LOG]\<rparr>]"

definition SendCellularDataConnectStateChanged ::
    "int32 \<Rightarrow> int32 \<Rightarrow> int32 \<Rightarrow> ('sig, 'cell, 'net) effect list" where
  "SendCellularDataConnectStateChanged slotId dataState networkType =
     PublishCommonEvent \<lparr>want_action = COMMON_EVENT_CELLULAR_DATA_STATE_CHANGED,
       want_params = [(''slotId'', WInt slotId), (''dataState'', WInt dataState),
                 (''networkType'', WInt networkType)]\<rparr> 1 ''connectStateChanged''"

definition SendSimStateChanged ::
    "int32 \<Rightarrow> int32 \<Rightarrow> int32 \<Rightarrow> int32 \<Rightarrow> ('sig, 'cell, 'net) effect list" where
  "SendSimStateChanged slotId type st reason =
     PublishCommonEvent \<lparr>want_action = COMMON_EVENT_SIM_STATE_CHANGED,
       want_params = [(''slotId'', WInt slotId), (''cardType'', WInt type), (''reason'', WInt reason),
                 (''state'', WInt st)]\<rparr> 1 ''simStateChanged''"

fun signal_strings :: "('sig \<Rightarrow> string) \<Rightarrow> 'sig option list \<Rightarrow> string list" where
  "signal_strings f [] = []"
| "signal_strings f (None # v) = signal_strings f v"
| "signal_strings f (Some x # v) = f x # signal_strings f v"

definition SendSignalInfoChanged ::
    "('sig, 'cell, 'net) world \<Rightarrow> int32 \<Rightarrow> 'sig option list \<Rightarrow> ('sig, 'cell, 'net) effect list" where
  "SendSignalInfoChanged E slotId vec =
     (if sendSignalInfoChanged_of (EXT E) then [ExtSendSignalInfoChanged slotId vec] else []) @
     PublishCommonEvent \<lparr>want_action = COMMON_EVENT_SIGNAL_INFO_CHANGED,
       want_params = [(''slotId'', WInt slotId),
                 (''signalInfos'', WStrs (signal_strings (SignalToString E) vec))]\<rparr>
       1 ''signalInfoChanged''"

definition SendNetworkStateChanged ::
    "('sig, 'cell, 'net) world \<Rightarrow> int32 \<Rightarrow> 'net option \<Rightarrow> ('sig, 'cell, 'net) effect list" where
  "SendNetworkStateChanged E slotId networkState =
     (if sendNetworkStateChanged_of (EXT E)
      then [ExtSendNetworkStateChanged slotId networkState] else []) @
     PublishCommonEvent \<lparr>want_action = COMMON_EVENT_NETWORK_STATE_CHANGED,
       want_params = (''slotId'', WInt slotId) #
         (case networkState of None \<Rightarrow> []
          | Some ns \<Rightarrow> [(''networkState'', WStr (NetworkToString E ns))])\<rparr>
       1 ''networkStateChanged''"

section \<open>Start and stop\<close>

text \<open>
  \<^verbatim>\<open>InitTelephonyExtWrapper\<close>: \<open>lib\<close> is what \<^verbatim>\<open>dlopen\<close> and then the six \<^verbatim>\<open>dlsym\<close> give, \<open>None\<close> when
  the library cannot be opened.
\<close>

definition InitTelephonyExtWrapper ::
    "('sig, 'cell, 'net) TelephonyExtWrapper option \<Rightarrow> ('sig, 'cell, 'net) TelephonyExtWrapper \<Rightarrow>
     ('sig, 'cell, 'net) TelephonyExtWrapper" where
  "InitTelephonyExtWrapper lib x =
     (case lib of
        None \<Rightarrow> x\<lparr>telephonyExtWrapperHandle_of := False\<rparr>
      | Some l \<Rightarrow>
          x\<lparr>telephonyExtWrapperHandle_of := True,
            onNetworkStateUpdated_of := onNetworkStateUpdated_of l,
            onSignalInfoUpdated_of := onSignalInfoUpdated_of l,
            onCellInfoUpdated_of := onCellInfoUpdated_of l,
            onCellularDataConnectStateUpdated_of := onCellularDataConnectStateUpdated_of l,
            sendNetworkStateChanged_of := sendNetworkStateChanged_of l,
            sendSignalInfoChanged_of := sendSignalInfoChanged_of l\<rparr>)"

text \<open>The destructor closes the library; the handle closed is the second component.\<close>

definition destruct_TelephonyExtWrapper ::
    "('sig, 'cell, 'net) TelephonyExtWrapper \<Rightarrow> ('sig, 'cell, 'net) TelephonyExtWrapper \<times> bool" where
  "destruct_TelephonyExtWrapper x =
     (if telephonyExtWrapperHandle_of x then (x\<lparr>telephonyExtWrapperHandle_of := False\<rparr>, True) else (x, False))"

text \<open>
  \<^verbatim>\<open>OnStart\<close> with the two clock readings, the library and the wrapper. The last component of
  the result is the slot count captured by the detached thread, \<open>None\<close> when none is started.
\<close>

definition OnStart ::
    "build \<Rightarrow> int64 \<Rightarrow> int64 \<Rightarrow> ('sig, 'cell, 'net) TelephonyExtWrapper option \<Rightarrow>
     ('sig, 'cell, 'net) TelephonyExtWrapper \<Rightarrow> ('sig, 'cell, 'net) service \<Rightarrow>
     ('sig, 'cell, 'net) service \<times> ('sig, 'cell, 'net) TelephonyExtWrapper \<times> int32 option" where
  "OnStart K t0 t1 lib x s =
     (let s = s\<lparr>bindStartTime_of := t0\<rparr>
      in if state_of s = STATE_RUNNING then (s, x, None)
         else let s = s\<lparr>state_of := STATE_RUNNING\<rparr>;
                  x = (if BUILD_TELEPHONY_EXT K then InitTelephonyExtWrapper lib x else x);
                  s = s\<lparr>bindEndTime_of := t1\<rparr>
              in (s, x, Some (slotSize_of s)))"

text \<open>
  The task of the detached thread: \<open>alive\<close> says whether \<^verbatim>\<open>weak.lock()\<close> still gives the service,
  \<open>sam\<close> and \<open>ces\<close> whether the ability manager and the common event service were found.
\<close>

definition IsCommonEventServiceAbilityExist :: "bool \<Rightarrow> bool \<Rightarrow> bool" where
  "IsCommonEventServiceAbilityExist sam ces =
     (if \<not> sam then False else if \<not> ces then False else True)"

function send_disconnected :: "int32 \<Rightarrow> int32 \<Rightarrow> ('sig, 'cell, 'net) effect list" where
  "send_disconnected i n =
     (if i < n
      then SendCallStateChanged i (CallStatus_value CALL_STATUS_DISCONNECTED) @
           send_disconnected (i + 1) n
      else [])"
  by pat_completeness auto
termination
  by (relation "measure (\<lambda>(i, n). nat (n - i))") auto

declare send_disconnected.simps [simp del]

definition state_registry_task ::
    "bool \<Rightarrow> bool \<Rightarrow> bool \<Rightarrow> int32 \<Rightarrow> ('sig, 'cell, 'net) effect list" where
  "state_registry_task alive sam ces localSlotSize =
     (if \<not> alive then []
      else if IsCommonEventServiceAbilityExist sam ces then send_disconnected 0 localSlotSize
      else [])"

definition OnStop :: "('sig, 'cell, 'net) service \<Rightarrow> ('sig, 'cell, 'net) service" where
  "OnStop s = s\<lparr>state_of := STATE_STOPPED\<rparr>"

section \<open>Lemmas\<close>

lemma IsExistStateListener_observer: "IsExistStateListener r m \<Longrightarrow> telephonyObserver_of r \<noteq> None"
  by (simp add: IsExistStateListener_def)

lemma init_call_states_eq:
  "init_call_states i n m k =
     (if i \<le> k \<and> k < n then Some (CallStatus_value CALL_STATUS_UNKNOWN) else m k)"
proof (induction i n m rule: init_call_states.induct)
  case (1 i n m)
  show ?case
  proof (cases "i < n")
    case True
    then have "init_call_states i n m =
        init_call_states (i + 1) n (m(i \<mapsto> CallStatus_value CALL_STATUS_UNKNOWN))"
      by (subst init_call_states.simps) simp
    with 1(1) [OF True] True show ?thesis by (auto simp: fun_upd_def)
  next
    case False
    then show ?thesis by (subst init_call_states.simps) auto
  qed
qed

lemma callState_construct:
  "callState_of (construct_service K) k =
     (if k = -1 \<or> (0 \<le> k \<and> k < initial_slot_size K) \<or> (k = 0 \<and> initial_slot_size K = 0)
      then Some (CallStatus_value CALL_STATUS_UNKNOWN) else None)"
  by (auto simp: construct_service_def Let_def init_call_states_eq)

lemma construct_simps [simp]:
  "stateRecords_of (construct_service K) = []"
  "slotSize_of (construct_service K) = initial_slot_size K"
  "state_of (construct_service K) = STATE_STOPPED"
  "callIncomingNumber_of (construct_service K) = Map.empty"
  "simState_of (construct_service K) = Map.empty"
  by (simp_all add: construct_service_def blank_service_def Let_def)

lemma send_disconnected_eq:
  "send_disconnected i n =
     concat (map (\<lambda>k. SendCallStateChanged k (CallStatus_value CALL_STATUS_DISCONNECTED)) [i..n - 1])"
proof (induction i n rule: send_disconnected.induct)
  case (1 i n)
  show ?case
  proof (cases "i < n")
    case True
    with 1 show ?thesis
      by (subst send_disconnected.simps) (simp add: upto_rec1)
  next
    case False
    then show ?thesis by (subst send_disconnected.simps) simp
  qed
qed

lemma OnStart_running:
  assumes "state_of s = STATE_RUNNING"
  shows "OnStart K t0 t1 lib x s = (s\<lparr>bindStartTime_of := t0\<rparr>, x, None)"
  using assms by (simp add: OnStart_def)

lemma signal_strings_eq: "signal_strings f vec = List.map_filter (map_option f) vec"
  by (induction f vec rule: signal_strings.induct) (simp_all add: List.map_filter_simps)

end
