(* ===== verification/Parcel.thy ===== *)
theory Parcel
  imports Service_State
begin

text \<open>
  What the two IPC endpoints of the repository use of the IPC library and of the payload classes:
  \<^verbatim>\<open>MessageParcel\<close>, \<^verbatim>\<open>Marshalling\<close>, \<^verbatim>\<open>ReadFromParcel\<close>, \<^verbatim>\<open>Unmarshalling\<close>, the request codes and the type
  tags. All of it lies outside the repository and is the parameter \<open>P\<close> of the codecs; what they
  rely on is the predicate \<open>parcel_ok\<close>: a parcel returns what was written, in the order in which
  it was written, and a payload object is marshalled as its type tag followed by its body.
\<close>

section \<open>Operations\<close>

datatype sig_type = SIG_GSM | SIG_CDMA | SIG_LTE | SIG_NR | SIG_WCDMA

datatype cell_type = CELL_GSM | CELL_LTE | CELL_NR

record ('p, 'sig, 'cell, 'net) parcel_ops =
  EmptyParcel :: 'p
  WriteInterfaceToken :: "string16 \<Rightarrow> 'p \<Rightarrow> bool \<times> 'p"
  WriteInt32 :: "int32 \<Rightarrow> 'p \<Rightarrow> bool \<times> 'p"
  WriteBool :: "bool \<Rightarrow> 'p \<Rightarrow> bool \<times> 'p"
  WriteString :: "string \<Rightarrow> 'p \<Rightarrow> bool \<times> 'p"
  WriteString16 :: "string16 \<Rightarrow> 'p \<Rightarrow> bool \<times> 'p"
  MarshalSignal :: "'sig \<Rightarrow> 'p \<Rightarrow> bool \<times> 'p"
  MarshalCell :: "'cell \<Rightarrow> 'p \<Rightarrow> bool \<times> 'p"
  MarshalNetwork :: "'net \<Rightarrow> 'p \<Rightarrow> bool \<times> 'p"
  ReadInterfaceToken :: "'p \<Rightarrow> string16 \<times> 'p"
  ReadInt32 :: "'p \<Rightarrow> int32 \<times> 'p"
  ReadBool :: "'p \<Rightarrow> bool \<times> 'p"
  ReadString :: "'p \<Rightarrow> string \<times> 'p"
  ReadString16 :: "'p \<Rightarrow> string16 \<times> 'p"
  ReadSignal :: "sig_type \<Rightarrow> 'p \<Rightarrow> 'sig \<times> 'p"
  ReadCell :: "cell_type \<Rightarrow> 'p \<Rightarrow> 'cell \<times> 'p"
  UnmarshalNetwork :: "'p \<Rightarrow> 'net option \<times> 'p"
  ReadRemoteObject :: "'p \<Rightarrow> nat option \<times> 'p"
  IfaceCast :: "nat \<Rightarrow> observer option"
  SIGNAL_TYPE :: "sig_type \<Rightarrow> int32"
  CELL_TYPE :: "cell_type \<Rightarrow> int32"
  MAX_SIGNAL_NUM :: int32
  MAX_CELL_NUM :: int32
  SignalTypeOf :: "'sig \<Rightarrow> int32"
  CellTypeOf :: "'cell \<Rightarrow> int32"
  OBSERVER_DESCRIPTOR :: string16
  REGISTRY_DESCRIPTOR :: string16
  BROKER_CODE :: "observer_mask \<Rightarrow> uint32"
  NO_ERROR :: int32

section \<open>What the codecs rely on\<close>

text \<open>The values in a parcel, as its user sees them.\<close>

datatype ('sig, 'cell, 'net) item =
    is_token: IToken (the_token: string16)
  | is_int: IInt (the_int: int32)
  | is_bool: IBool (the_bool: bool)
  | is_str: IStr (the_str: string)
  | is_str16: IStr16 (the_str16: string16)
  | is_signal: ISignal (the_signal: 'sig)
  | is_cell: ICell (the_cell: 'cell)
  | is_network: INetwork (the_network: 'net)
  | is_remote: IRemote (the_remote: nat)

definition writes_ok ::
    "('p, 'sig, 'cell, 'net) parcel_ops \<Rightarrow> ('p \<Rightarrow> ('sig, 'cell, 'net) item list) \<Rightarrow> bool" where
  "writes_ok P A \<longleftrightarrow> A (EmptyParcel P) = [] \<and>
     (\<forall>p t. fst (WriteInterfaceToken P t p) \<and> A (snd (WriteInterfaceToken P t p)) = A p @ [IToken t]) \<and>
     (\<forall>p v. fst (WriteInt32 P v p) \<and> (is_int32 v \<longrightarrow> A (snd (WriteInt32 P v p)) = A p @ [IInt v])) \<and>
     (\<forall>p v. fst (WriteBool P v p) \<and> A (snd (WriteBool P v p)) = A p @ [IBool v]) \<and>
     (\<forall>p v. fst (WriteString P v p) \<and> A (snd (WriteString P v p)) = A p @ [IStr v]) \<and>
     (\<forall>p v. fst (WriteString16 P v p) \<and> A (snd (WriteString16 P v p)) = A p @ [IStr16 v]) \<and>
     (\<forall>p v. A (snd (MarshalSignal P v p)) = A p @ [IInt (SignalTypeOf P v), ISignal v]) \<and>
     (\<forall>p v. A (snd (MarshalCell P v p)) = A p @ [IInt (CellTypeOf P v), ICell v]) \<and>
     (\<forall>p v. A (snd (MarshalNetwork P v p)) = A p @ [INetwork v])"

definition reads_ok ::
    "('p, 'sig, 'cell, 'net) parcel_ops \<Rightarrow> ('p \<Rightarrow> ('sig, 'cell, 'net) item list) \<Rightarrow> bool" where
  "reads_ok P A \<longleftrightarrow>
     (\<forall>p t es. A p = IToken t # es \<longrightarrow> fst (ReadInterfaceToken P p) = t \<and> A (snd (ReadInterfaceToken P p)) = es) \<and>
     (\<forall>p v es. A p = IInt v # es \<longrightarrow> fst (ReadInt32 P p) = v \<and> A (snd (ReadInt32 P p)) = es) \<and>
     (\<forall>p v es. A p = IBool v # es \<longrightarrow> fst (ReadBool P p) = v \<and> A (snd (ReadBool P p)) = es) \<and>
     (\<forall>p v es. A p = IStr v # es \<longrightarrow> fst (ReadString P p) = v \<and> A (snd (ReadString P p)) = es) \<and>
     (\<forall>p v es. A p = IStr16 v # es \<longrightarrow> fst (ReadString16 P p) = v \<and> A (snd (ReadString16 P p)) = es) \<and>
     (\<forall>p v es t. A p = ISignal v # es \<and> SignalTypeOf P v = SIGNAL_TYPE P t \<longrightarrow>
        fst (ReadSignal P t p) = v \<and> A (snd (ReadSignal P t p)) = es) \<and>
     (\<forall>p v es t. A p = ICell v # es \<and> CellTypeOf P v = CELL_TYPE P t \<longrightarrow>
        fst (ReadCell P t p) = v \<and> A (snd (ReadCell P t p)) = es) \<and>
     (\<forall>p v es. A p = INetwork v # es \<longrightarrow>
        fst (UnmarshalNetwork P p) = Some v \<and> A (snd (UnmarshalNetwork P p)) = es) \<and>
     (\<forall>p v es. A p = IRemote v # es \<longrightarrow>
        fst (ReadRemoteObject P p) = Some v \<and> A (snd (ReadRemoteObject P p)) = es)"

text \<open>The enumerators are distinct, and the two list bounds agree with those of the observer.\<close>

definition tags_ok :: "('p, 'sig, 'cell, 'net) parcel_ops \<Rightarrow> bool" where
  "tags_ok P \<longleftrightarrow> inj (SIGNAL_TYPE P) \<and> inj (CELL_TYPE P) \<and> inj (BROKER_CODE P) \<and>
     0 \<le> MAX_SIGNAL_NUM P \<and> MAX_SIGNAL_NUM P \<le> 100 \<and> 0 \<le> MAX_CELL_NUM P \<and> MAX_CELL_NUM P \<le> 100"

definition parcel_ok ::
    "('p, 'sig, 'cell, 'net) parcel_ops \<Rightarrow> ('p \<Rightarrow> ('sig, 'cell, 'net) item list) \<Rightarrow> bool" where
  "parcel_ok P A \<longleftrightarrow> writes_ok P A \<and> reads_ok P A \<and> tags_ok P"

section \<open>A concrete parcel for the witnesses\<close>

text \<open>A parcel as the list of the values in it; a payload object is its type tag.\<close>

type_synonym list_parcel = "(int32, int32, nat) item list"

fun demo_sig :: "sig_type \<Rightarrow> int32" where
  "demo_sig SIG_GSM = 1" | "demo_sig SIG_CDMA = 2" | "demo_sig SIG_LTE = 3"
| "demo_sig SIG_NR = 6" | "demo_sig SIG_WCDMA = 5"

fun demo_cell :: "cell_type \<Rightarrow> int32" where
  "demo_cell CELL_GSM = 1" | "demo_cell CELL_LTE = 3" | "demo_cell CELL_NR = 6"

definition pop :: "(('sig, 'cell, 'net) item \<Rightarrow> 'a option) \<Rightarrow> 'a \<Rightarrow> ('sig, 'cell, 'net) item list \<Rightarrow>
    'a \<times> ('sig, 'cell, 'net) item list" where
  "pop f d p = (case p of [] \<Rightarrow> (d, []) | i # p' \<Rightarrow> (case f i of None \<Rightarrow> (d, p) | Some v \<Rightarrow> (v, p')))"

definition list_parcel_ops :: "(list_parcel, int32, int32, nat) parcel_ops" where
  "list_parcel_ops = \<lparr>EmptyParcel = [],
     WriteInterfaceToken = (\<lambda>t p. (True, p @ [IToken t])),
     WriteInt32 = (\<lambda>v p. (True, p @ [IInt v])),
     WriteBool = (\<lambda>v p. (True, p @ [IBool v])),
     WriteString = (\<lambda>v p. (True, p @ [IStr v])),
     WriteString16 = (\<lambda>v p. (True, p @ [IStr16 v])),
     MarshalSignal = (\<lambda>v p. (True, p @ [IInt v, ISignal v])),
     MarshalCell = (\<lambda>v p. (True, p @ [IInt v, ICell v])),
     MarshalNetwork = (\<lambda>v p. (True, p @ [INetwork v])),
     ReadInterfaceToken = pop (\<lambda>i. case i of IToken t \<Rightarrow> Some t | _ \<Rightarrow> None) [],
     ReadInt32 = pop (\<lambda>i. case i of IInt v \<Rightarrow> Some v | _ \<Rightarrow> None) 0,
     ReadBool = pop (\<lambda>i. case i of IBool v \<Rightarrow> Some v | _ \<Rightarrow> None) False,
     ReadString = pop (\<lambda>i. case i of IStr v \<Rightarrow> Some v | _ \<Rightarrow> None) [],
     ReadString16 = pop (\<lambda>i. case i of IStr16 v \<Rightarrow> Some v | _ \<Rightarrow> None) [],
     ReadSignal = (\<lambda>t. pop (\<lambda>i. case i of ISignal v \<Rightarrow> Some v | _ \<Rightarrow> None) 0),
     ReadCell = (\<lambda>t. pop (\<lambda>i. case i of ICell v \<Rightarrow> Some v | _ \<Rightarrow> None) 0),
     UnmarshalNetwork = pop (\<lambda>i. case i of INetwork v \<Rightarrow> Some (Some v) | _ \<Rightarrow> None) None,
     ReadRemoteObject = pop (\<lambda>i. case i of IRemote v \<Rightarrow> Some (Some v) | _ \<Rightarrow> None) None, IfaceCast = Some,
     SIGNAL_TYPE = demo_sig, CELL_TYPE = demo_cell, MAX_SIGNAL_NUM = 10, MAX_CELL_NUM = 10,
     SignalTypeOf = id, CellTypeOf = id, OBSERVER_DESCRIPTOR = [1], REGISTRY_DESCRIPTOR = [2],
     BROKER_CODE = demo_mask, NO_ERROR = 0\<rparr>"

section \<open>Lemmas\<close>

lemma demo_sig_inj: "inj demo_sig"
proof (rule injI)
  show "x = y" if "demo_sig x = demo_sig y" for x y
    using that by (cases x; cases y) simp_all
qed

lemma demo_cell_inj: "inj demo_cell"
proof (rule injI)
  show "x = y" if "demo_cell x = demo_cell y" for x y
    using that by (cases x; cases y) simp_all
qed

lemma demo_mask_inj: "inj demo_mask"
  using masks_ok_inj [OF masks_ok_demo] by (simp add: inj_def demo_K_def)

lemma parcel_ok_demo: "parcel_ok list_parcel_ops id"
  by (auto simp: parcel_ok_def writes_ok_def reads_ok_def tags_ok_def list_parcel_ops_def pop_def
      demo_sig_inj demo_cell_inj demo_mask_inj)

text \<open>The laws as rewrite rules on the contents of the parcel.\<close>

lemma write_rules:
  assumes "parcel_ok P A"
  shows "A (EmptyParcel P) = []"
    and "fst (WriteInterfaceToken P t p)" "A (snd (WriteInterfaceToken P t p)) = A p @ [IToken t]"
    and "fst (WriteInt32 P v p)" "is_int32 v \<Longrightarrow> A (snd (WriteInt32 P v p)) = A p @ [IInt v]"
    and "A (snd (WriteBool P b p)) = A p @ [IBool b]"
    and "A (snd (WriteString P st p)) = A p @ [IStr st]"
    and "A (snd (WriteString16 P st16 p)) = A p @ [IStr16 st16]"
    and "A (snd (MarshalSignal P sg p)) = A p @ [IInt (SignalTypeOf P sg), ISignal sg]"
    and "A (snd (MarshalCell P c p)) = A p @ [IInt (CellTypeOf P c), ICell c]"
    and "A (snd (MarshalNetwork P ns p)) = A p @ [INetwork ns]"
  using assms by (simp_all add: parcel_ok_def writes_ok_def)

lemma read_rules:
  assumes "parcel_ok P A" and "A p \<noteq> []"
  shows "is_token (hd (A p)) \<Longrightarrow> fst (ReadInterfaceToken P p) = the_token (hd (A p))"
    and "is_token (hd (A p)) \<Longrightarrow> A (snd (ReadInterfaceToken P p)) = tl (A p)"
    and "is_int (hd (A p)) \<Longrightarrow> fst (ReadInt32 P p) = the_int (hd (A p))"
    and "is_int (hd (A p)) \<Longrightarrow> A (snd (ReadInt32 P p)) = tl (A p)"
    and "is_bool (hd (A p)) \<Longrightarrow> fst (ReadBool P p) = the_bool (hd (A p))"
    and "is_bool (hd (A p)) \<Longrightarrow> A (snd (ReadBool P p)) = tl (A p)"
    and "is_str (hd (A p)) \<Longrightarrow> fst (ReadString P p) = the_str (hd (A p))"
    and "is_str (hd (A p)) \<Longrightarrow> A (snd (ReadString P p)) = tl (A p)"
    and "is_str16 (hd (A p)) \<Longrightarrow> fst (ReadString16 P p) = the_str16 (hd (A p))"
    and "is_str16 (hd (A p)) \<Longrightarrow> A (snd (ReadString16 P p)) = tl (A p)"
    and "is_network (hd (A p)) \<Longrightarrow> fst (UnmarshalNetwork P p) = Some (the_network (hd (A p)))"
    and "is_network (hd (A p)) \<Longrightarrow> A (snd (UnmarshalNetwork P p)) = tl (A p)"
    and "is_remote (hd (A p)) \<Longrightarrow> fst (ReadRemoteObject P p) = Some (the_remote (hd (A p)))"
    and "is_remote (hd (A p)) \<Longrightarrow> A (snd (ReadRemoteObject P p)) = tl (A p)"
    and "is_signal (hd (A p)) \<Longrightarrow> SignalTypeOf P (the_signal (hd (A p))) = SIGNAL_TYPE P t \<Longrightarrow>
      fst (ReadSignal P t p) = the_signal (hd (A p))"
    and "is_signal (hd (A p)) \<Longrightarrow> SignalTypeOf P (the_signal (hd (A p))) = SIGNAL_TYPE P t \<Longrightarrow>
      A (snd (ReadSignal P t p)) = tl (A p)"
    and "is_cell (hd (A p)) \<Longrightarrow> CellTypeOf P (the_cell (hd (A p))) = CELL_TYPE P u \<Longrightarrow>
      fst (ReadCell P u p) = the_cell (hd (A p))"
    and "is_cell (hd (A p)) \<Longrightarrow> CellTypeOf P (the_cell (hd (A p))) = CELL_TYPE P u \<Longrightarrow>
      A (snd (ReadCell P u p)) = tl (A p)"
  using assms
  by (cases "A p"; cases "hd (A p)"; force simp: parcel_ok_def reads_ok_def)+

lemma tag_rules:
  assumes "parcel_ok P A"
  shows "(SIGNAL_TYPE P a = SIGNAL_TYPE P b) = (a = b)" "(CELL_TYPE P c = CELL_TYPE P d) = (c = d)"
    "(BROKER_CODE P m = BROKER_CODE P n) = (m = n)"
    "MAX_SIGNAL_NUM P \<le> 100" "MAX_CELL_NUM P \<le> 100"
  using assms by (auto simp: parcel_ok_def tags_ok_def inj_eq)

end
