(* ===== verification/Service_Update.thy ===== *)
theory Service_Update
  imports Service_State
begin

text \<open>
  The update operations of the service (\<^verbatim>\<open>UpdateXxx\<close> of
  \<^verbatim>\<open>services/src/telephony_state_registry_service.cpp\<close>). Each has two critical sections: the cache
  is written under the exclusive lock (\<open>UpdateXxx_write\<close>), then the records are walked under the
  shared lock (\<open>UpdateXxx_notify\<close>, with the loop body \<open>UpdateXxx_body\<close>). The whole operation
  checks the slot and the permission and runs the two sections in a row; the theory
  \<open>Service_System\<close> also lets other operations run between them.
\<close>

section \<open>Definitions\<close>

text \<open>The value \<^verbatim>\<open>SIM_SLOT_ID_FOR_DEFAULT_CONN_EVENT\<close>.\<close>

abbreviation DEFAULT_CONN_SLOT :: int32 where
  "DEFAULT_CONN_SLOT \<equiv> 999"

text \<open>A call through the observer pointer of a record.\<close>

definition call_observer ::
    "TelephonyStateRegistryRecord \<Rightarrow> ('sig, 'cell, 'net) observer_call \<Rightarrow>
     ('sig, 'cell, 'net) effect list" where
  "call_observer r c = (case telephonyObserver_of r of None \<Rightarrow> [] | Some ob \<Rightarrow> [Notify ob c])"

type_synonym ('sig, 'cell, 'net) loop = "int32 \<times> ('sig, 'cell, 'net) effect list"
type_synonym ('sig, 'cell, 'net) outcome =
  "int32 \<times> ('sig, 'cell, 'net) service \<times> ('sig, 'cell, 'net) effect list"

subsection \<open>Cellular data connection state\<close>

definition UpdateCellularDataConnectState_write ::
    "int32 \<Rightarrow> int32 \<Rightarrow> int32 \<Rightarrow> ('sig, 'cell, 'net) service \<Rightarrow> ('sig, 'cell, 'net) service" where
  "UpdateCellularDataConnectState_write slotId dataState networkType s =
     s\<lparr>cellularDataConnectionState_of := (cellularDataConnectionState_of s)(slotId \<mapsto> dataState),
       cellularDataConnectionNetworkType_of :=
         (cellularDataConnectionNetworkType_of s)(slotId \<mapsto> networkType)\<rparr>"

fun UpdateCellularDataConnectState_body ::
    "build \<Rightarrow> ('sig, 'cell, 'net) world \<Rightarrow> int32 \<Rightarrow> int32 \<Rightarrow> int32 \<Rightarrow>
     TelephonyStateRegistryRecord \<Rightarrow> ('sig, 'cell, 'net) loop \<Rightarrow> ('sig, 'cell, 'net) loop" where
  "UpdateCellularDataConnectState_body K E slotId dataState networkType r (result, es) =
     (if IsExistStateListener r (OBSERVER_MASK K M_DATA_CONNECTION_STATE) \<and>
         (slotId_of r = slotId \<or> slotId_of r = DEFAULT_CONN_SLOT) \<and> telephonyObserver_of r \<noteq> None
      then (ERR K TELEPHONY_SUCCESS,
            es @ (case onCellularDataConnectStateUpdated_of (EXT E) of
                    Some hook \<Rightarrow>
                      let networkTypeExt = hook slotId r networkType
                      in call_observer r
                           (OnCellularDataConnectStateUpdated slotId dataState networkTypeExt)
                  | None \<Rightarrow>
                      call_observer r
                        (OnCellularDataConnectStateUpdated slotId dataState networkType)))
      else (result, es))"

definition UpdateCellularDataConnectState_notify ::
    "build \<Rightarrow> ('sig, 'cell, 'net) world \<Rightarrow> int32 \<Rightarrow> int32 \<Rightarrow> int32 \<Rightarrow>
     ('sig, 'cell, 'net) service \<Rightarrow> ('sig, 'cell, 'net) loop" where
  "UpdateCellularDataConnectState_notify K E slotId dataState networkType s =
     (let (result, es) =
            for_each (UpdateCellularDataConnectState_body K E slotId dataState networkType)
              (stateRecords_of s) (ERR K TELEPHONY_STATE_REGISTRY_DATA_NOT_EXIST, [])
      in (result, es @ SendCellularDataConnectStateChanged slotId dataState networkType))"

definition UpdateCellularDataConnectState ::
    "build \<Rightarrow> ('sig, 'cell, 'net) world \<Rightarrow> int32 \<Rightarrow> int32 \<Rightarrow> int32 \<Rightarrow>
     ('sig, 'cell, 'net) service \<Rightarrow> ('sig, 'cell, 'net) outcome" where
  "UpdateCellularDataConnectState K E slotId dataState networkType s =
     (if \<not> VerifySlotId s slotId then (ERR K TELEPHONY_STATE_REGISTRY_SLODID_ERROR, s, [])
      else if \<not> CheckPermission E SET_TELEPHONY_STATE
      then (ERR K TELEPHONY_STATE_REGISTRY_PERMISSION_DENIED, s, [])
      else let s = UpdateCellularDataConnectState_write slotId dataState networkType s;
               (result, es) =
                 UpdateCellularDataConnectState_notify K E slotId dataState networkType s
           in (result, s, es))"

subsection \<open>Cellular data flow\<close>

definition UpdateCellularDataFlow_write ::
    "int32 \<Rightarrow> int32 \<Rightarrow> ('sig, 'cell, 'net) service \<Rightarrow> ('sig, 'cell, 'net) service" where
  "UpdateCellularDataFlow_write slotId flowData s =
     s\<lparr>cellularDataFlow_of := (cellularDataFlow_of s)(slotId \<mapsto> flowData)\<rparr>"

fun UpdateCellularDataFlow_body ::
    "build \<Rightarrow> int32 \<Rightarrow> int32 \<Rightarrow> TelephonyStateRegistryRecord \<Rightarrow> ('sig, 'cell, 'net) loop \<Rightarrow>
     ('sig, 'cell, 'net) loop" where
  "UpdateCellularDataFlow_body K slotId flowData r (result, es) =
     (if IsExistStateListener r (OBSERVER_MASK K M_DATA_FLOW) \<and>
         (slotId_of r = slotId \<or> slotId_of r = DEFAULT_CONN_SLOT) \<and> telephonyObserver_of r \<noteq> None
      then (ERR K TELEPHONY_SUCCESS,
            es @ call_observer r (OnCellularDataFlowUpdated slotId flowData))
      else (result, es))"

definition UpdateCellularDataFlow_notify ::
    "build \<Rightarrow> int32 \<Rightarrow> int32 \<Rightarrow> ('sig, 'cell, 'net) service \<Rightarrow> ('sig, 'cell, 'net) loop" where
  "UpdateCellularDataFlow_notify K slotId flowData s =
     for_each (UpdateCellularDataFlow_body K slotId flowData) (stateRecords_of s)
       (ERR K TELEPHONY_STATE_REGISTRY_DATA_NOT_EXIST, [])"

definition UpdateCellularDataFlow ::
    "build \<Rightarrow> ('sig, 'cell, 'net) world \<Rightarrow> int32 \<Rightarrow> int32 \<Rightarrow> ('sig, 'cell, 'net) service \<Rightarrow>
     ('sig, 'cell, 'net) outcome" where
  "UpdateCellularDataFlow K E slotId flowData s =
     (if \<not> VerifySlotId s slotId then (ERR K TELEPHONY_STATE_REGISTRY_SLODID_ERROR, s, [])
      else if \<not> CheckPermission E SET_TELEPHONY_STATE
      then (ERR K TELEPHONY_STATE_REGISTRY_PERMISSION_DENIED, s, [])
      else let s = UpdateCellularDataFlow_write slotId flowData s;
               (result, es) = UpdateCellularDataFlow_notify K slotId flowData s
           in (result, s, es))"

subsection \<open>Call state\<close>

definition GetCallIncomingNumberForSlotId ::
    "build \<Rightarrow> ('sig, 'cell, 'net) world \<Rightarrow> TelephonyStateRegistryRecord \<Rightarrow> int32 \<Rightarrow>
     ('sig, 'cell, 'net) service \<Rightarrow> string16 \<times> ('sig, 'cell, 'net) service" where
  "GetCallIncomingNumberForSlotId K E r slotId s =
     (if IsCanReadCallHistory K E r
      then let (number, m) = map_index (callIncomingNumber_of s) slotId []
           in (number, s\<lparr>callIncomingNumber_of := m\<rparr>)
      else (Str8ToStr16 E '''', s))"

definition UpdateCallState_write ::
    "int32 \<Rightarrow> string16 \<Rightarrow> ('sig, 'cell, 'net) service \<Rightarrow> ('sig, 'cell, 'net) service" where
  "UpdateCallState_write callState number s =
     s\<lparr>callState_of := (callState_of s)(-1 \<mapsto> callState),
       callIncomingNumber_of := (callIncomingNumber_of s)(-1 \<mapsto> number)\<rparr>"

fun UpdateCallState_body ::
    "build \<Rightarrow> ('sig, 'cell, 'net) world \<Rightarrow> int32 \<Rightarrow> string16 \<Rightarrow> TelephonyStateRegistryRecord \<Rightarrow>
     ('sig, 'cell, 'net) loop \<Rightarrow> ('sig, 'cell, 'net) loop" where
  "UpdateCallState_body K E callState number r (result, es) =
     (if IsExistStateListener r (OBSERVER_MASK K M_CALL_STATE) \<and> slotId_of r = -1 \<and>
         telephonyObserver_of r \<noteq> None
      then let phoneNumber = (if IsCanReadCallHistory K E r then number else Str8ToStr16 E '''')
           in (ERR K TELEPHONY_SUCCESS,
               es @ call_observer r (OnCallStateUpdated (slotId_of r) callState phoneNumber))
      else if IsExistStateListener r (OBSERVER_MASK K M_CALL_STATE_EX) \<and> slotId_of r = -1 \<and>
              telephonyObserver_of r \<noteq> None
      then (ERR K TELEPHONY_SUCCESS,
            es @ call_observer r (OnCallStateUpdatedEx (slotId_of r) callState))
      else if IsExistStateListener r (OBSERVER_MASK K M_CCALL_STATE) \<and> slotId_of r = -1 \<and>
              telephonyObserver_of r \<noteq> None
      then (if CanManageCallForDevices K E r
            then (ERR K TELEPHONY_SUCCESS,
                  es @ call_observer r (OnCCallStateUpdated (slotId_of r) callState number))
            else (result, es))
      else (result, es))"

definition UpdateCallState_notify ::
    "build \<Rightarrow> ('sig, 'cell, 'net) world \<Rightarrow> int32 \<Rightarrow> string16 \<Rightarrow> ('sig, 'cell, 'net) service \<Rightarrow>
     ('sig, 'cell, 'net) loop" where
  "UpdateCallState_notify K E callState number s =
     (let (result, es) =
            for_each (UpdateCallState_body K E callState number) (stateRecords_of s)
              (ERR K TELEPHONY_STATE_REGISTRY_DATA_NOT_EXIST, [])
      in (result, es @ SendCallStateChanged (-1) callState @
            SendCallStateChangedAsUserMultiplePermission E (-1) callState number))"

definition UpdateCallState ::
    "build \<Rightarrow> ('sig, 'cell, 'net) world \<Rightarrow> int32 \<Rightarrow> string16 \<Rightarrow> ('sig, 'cell, 'net) service \<Rightarrow>
     ('sig, 'cell, 'net) outcome" where
  "UpdateCallState K E callState number s =
     (if \<not> CheckPermission E SET_TELEPHONY_STATE
      then (ERR K TELEPHONY_STATE_REGISTRY_PERMISSION_DENIED, s, [])
      else let s = UpdateCallState_write callState number s;
               (result, es) = UpdateCallState_notify K E callState number s
           in (result, s, es))"

definition UpdateCallStateForSlotId_write ::
    "int32 \<Rightarrow> int32 \<Rightarrow> string16 \<Rightarrow> ('sig, 'cell, 'net) service \<Rightarrow> ('sig, 'cell, 'net) service" where
  "UpdateCallStateForSlotId_write slotId callState number s =
     s\<lparr>callState_of := (callState_of s)(slotId \<mapsto> callState),
       callIncomingNumber_of := (callIncomingNumber_of s)(slotId \<mapsto> number)\<rparr>"

text \<open>
  The number comes from the cache, read with \<^verbatim>\<open>operator[]\<close> under the shared lock. The key is
  there since the write section, so the read inserts nothing
  (\<open>GetCallIncomingNumber_keeps\<close>), and the body only takes the value.
\<close>

fun UpdateCallStateForSlotId_body ::
    "build \<Rightarrow> ('sig, 'cell, 'net) world \<Rightarrow> ('sig, 'cell, 'net) service \<Rightarrow> int32 \<Rightarrow> int32 \<Rightarrow>
     string16 \<Rightarrow> TelephonyStateRegistryRecord \<Rightarrow> ('sig, 'cell, 'net) loop \<Rightarrow>
     ('sig, 'cell, 'net) loop" where
  "UpdateCallStateForSlotId_body K E s slotId callState number r (result, es) =
     (if IsExistStateListener r (OBSERVER_MASK K M_CALL_STATE) \<and> slotId_of r = slotId \<and>
         telephonyObserver_of r \<noteq> None
      then let phoneNumber = fst (GetCallIncomingNumberForSlotId K E r slotId s)
           in (ERR K TELEPHONY_SUCCESS,
               es @ call_observer r (OnCallStateUpdated slotId callState phoneNumber))
      else if IsExistStateListener r (OBSERVER_MASK K M_CALL_STATE_EX) \<and> slotId_of r = slotId \<and>
              telephonyObserver_of r \<noteq> None
      then (ERR K TELEPHONY_SUCCESS,
            es @ call_observer r (OnCallStateUpdatedEx slotId callState))
      else if IsExistStateListener r (OBSERVER_MASK K M_CCALL_STATE) \<and> slotId_of r = slotId \<and>
              telephonyObserver_of r \<noteq> None
      then (if CanManageCallForDevices K E r
            then (ERR K TELEPHONY_SUCCESS,
                  es @ call_observer r (OnCCallStateUpdated (slotId_of r) callState number))
            else (result, es))
      else (result, es))"

definition UpdateCallStateForSlotId_notify ::
    "build \<Rightarrow> ('sig, 'cell, 'net) world \<Rightarrow> int32 \<Rightarrow> int32 \<Rightarrow> string16 \<Rightarrow>
     ('sig, 'cell, 'net) service \<Rightarrow> ('sig, 'cell, 'net) loop" where
  "UpdateCallStateForSlotId_notify K E slotId callState number s =
     (let (result, es) =
            for_each (UpdateCallStateForSlotId_body K E s slotId callState number)
              (stateRecords_of s) (ERR K TELEPHONY_STATE_REGISTRY_DATA_NOT_EXIST, [])
      in (result, es @ SendCallStateChanged slotId callState @
            SendCallStateChangedAsUserMultiplePermission E slotId callState number))"

definition UpdateCallStateForSlotId ::
    "build \<Rightarrow> ('sig, 'cell, 'net) world \<Rightarrow> int32 \<Rightarrow> int32 \<Rightarrow> string16 \<Rightarrow>
     ('sig, 'cell, 'net) service \<Rightarrow> ('sig, 'cell, 'net) outcome" where
  "UpdateCallStateForSlotId K E slotId callState number s =
     (if \<not> VerifySlotId s slotId then (ERR K TELEPHONY_STATE_REGISTRY_SLODID_ERROR, s, [])
      else if \<not> CheckPermission E SET_TELEPHONY_STATE
      then (ERR K TELEPHONY_STATE_REGISTRY_PERMISSION_DENIED, s, [])
      else let s = UpdateCallStateForSlotId_write slotId callState number s;
               (result, es) = UpdateCallStateForSlotId_notify K E slotId callState number s
           in (result, s, es))"

subsection \<open>SIM state\<close>

definition UpdateSimState_write ::
    "int32 \<Rightarrow> int32 \<Rightarrow> int32 \<Rightarrow> int32 \<Rightarrow> ('sig, 'cell, 'net) service \<Rightarrow>
     ('sig, 'cell, 'net) service" where
  "UpdateSimState_write slotId type st reason s =
     s\<lparr>simState_of := (simState_of s)(slotId \<mapsto> st),
       simReason_of := (simReason_of s)(slotId \<mapsto> reason),
       cardType_of := (cardType_of s)(slotId \<mapsto> type)\<rparr>"

fun UpdateSimState_body ::
    "build \<Rightarrow> int32 \<Rightarrow> int32 \<Rightarrow> int32 \<Rightarrow> int32 \<Rightarrow> TelephonyStateRegistryRecord \<Rightarrow>
     ('sig, 'cell, 'net) loop \<Rightarrow> ('sig, 'cell, 'net) loop" where
  "UpdateSimState_body K slotId type st reason r (result, es) =
     (if IsExistStateListener r (OBSERVER_MASK K M_SIM_STATE) \<and> slotId_of r = slotId \<and>
         telephonyObserver_of r \<noteq> None
      then (ERR K TELEPHONY_SUCCESS,
            es @ call_observer r (OnSimStateUpdated slotId type st reason))
      else (result, es))"

definition UpdateSimState_notify ::
    "build \<Rightarrow> int32 \<Rightarrow> int32 \<Rightarrow> int32 \<Rightarrow> int32 \<Rightarrow> ('sig, 'cell, 'net) service \<Rightarrow>
     ('sig, 'cell, 'net) loop" where
  "UpdateSimState_notify K slotId type st reason s =
     (let (result, es) =
            for_each (UpdateSimState_body K slotId type st reason) (stateRecords_of s)
              (ERR K TELEPHONY_STATE_REGISTRY_DATA_NOT_EXIST, [])
      in (result, es @ SendSimStateChanged slotId type st reason))"

definition UpdateSimState ::
    "build \<Rightarrow> ('sig, 'cell, 'net) world \<Rightarrow> int32 \<Rightarrow> int32 \<Rightarrow> int32 \<Rightarrow> int32 \<Rightarrow>
     ('sig, 'cell, 'net) service \<Rightarrow> ('sig, 'cell, 'net) outcome" where
  "UpdateSimState K E slotId type st reason s =
     (if \<not> VerifySlotId s slotId then (ERR K TELEPHONY_STATE_REGISTRY_SLODID_ERROR, s, [])
      else if \<not> CheckPermission E SET_TELEPHONY_STATE
      then (ERR K TELEPHONY_STATE_REGISTRY_PERMISSION_DENIED, s, [])
      else let s = UpdateSimState_write slotId type st reason s;
               (result, es) = UpdateSimState_notify K slotId type st reason s
           in (result, s, es))"

subsection \<open>Signal information\<close>

definition UpdateSignalInfo_write ::
    "int32 \<Rightarrow> 'sig option list \<Rightarrow> ('sig, 'cell, 'net) service \<Rightarrow> ('sig, 'cell, 'net) service" where
  "UpdateSignalInfo_write slotId vec s =
     s\<lparr>signalInfos_of := (signalInfos_of s)(slotId \<mapsto> vec)\<rparr>"

fun UpdateSignalInfo_body ::
    "build \<Rightarrow> ('sig, 'cell, 'net) world \<Rightarrow> int32 \<Rightarrow> 'sig option list \<Rightarrow>
     TelephonyStateRegistryRecord \<Rightarrow> ('sig, 'cell, 'net) loop \<Rightarrow> ('sig, 'cell, 'net) loop" where
  "UpdateSignalInfo_body K E slotId vec r (result, es) =
     (if IsExistStateListener r (OBSERVER_MASK K M_SIGNAL_STRENGTHS) \<and> slotId_of r = slotId \<and>
         telephonyObserver_of r \<noteq> None
      then (ERR K TELEPHONY_SUCCESS,
            es @ (case onSignalInfoUpdated_of (EXT E) of
                    Some hook \<Rightarrow>
                      let vecExt = hook slotId r vec
                      in call_observer r (OnSignalInfoUpdated slotId vecExt)
                  | None \<Rightarrow> call_observer r (OnSignalInfoUpdated slotId vec)))
      else (result, es))"

definition UpdateSignalInfo_notify ::
    "build \<Rightarrow> ('sig, 'cell, 'net) world \<Rightarrow> int32 \<Rightarrow> 'sig option list \<Rightarrow>
     ('sig, 'cell, 'net) service \<Rightarrow> ('sig, 'cell, 'net) loop" where
  "UpdateSignalInfo_notify K E slotId vec s =
     (let (result, es) =
            for_each (UpdateSignalInfo_body K E slotId vec) (stateRecords_of s)
              (ERR K TELEPHONY_STATE_REGISTRY_DATA_NOT_EXIST, [])
      in (result, es @ SendSignalInfoChanged E slotId vec))"

definition UpdateSignalInfo ::
    "build \<Rightarrow> ('sig, 'cell, 'net) world \<Rightarrow> int32 \<Rightarrow> 'sig option list \<Rightarrow>
     ('sig, 'cell, 'net) service \<Rightarrow> ('sig, 'cell, 'net) outcome" where
  "UpdateSignalInfo K E slotId vec s =
     (if \<not> VerifySlotId s slotId then (ERR K TELEPHONY_STATE_REGISTRY_SLODID_ERROR, s, [])
      else if \<not> CheckPermission E SET_TELEPHONY_STATE
      then (ERR K TELEPHONY_STATE_REGISTRY_PERMISSION_DENIED, s, [])
      else let s = UpdateSignalInfo_write slotId vec s;
               (result, es) = UpdateSignalInfo_notify K E slotId vec s
           in (result, s, es))"

subsection \<open>Cell information\<close>

definition UpdateCellInfo_write ::
    "int32 \<Rightarrow> 'cell option list \<Rightarrow> ('sig, 'cell, 'net) service \<Rightarrow> ('sig, 'cell, 'net) service" where
  "UpdateCellInfo_write slotId vec s =
     s\<lparr>cellInfos_of := (cellInfos_of s)(slotId \<mapsto> vec)\<rparr>"

text \<open>This loop leaves the function when the observer of a matching record is null.\<close>

fun UpdateCellInfo_loop ::
    "build \<Rightarrow> ('sig, 'cell, 'net) world \<Rightarrow> int32 \<Rightarrow> 'cell option list \<Rightarrow>
     TelephonyStateRegistryRecord list \<Rightarrow> ('sig, 'cell, 'net) loop \<Rightarrow>
     ('sig, 'cell, 'net) loop" where
  "UpdateCellInfo_loop K E slotId vec [] (result, es) = (result, es)"
| "UpdateCellInfo_loop K E slotId vec (r # rs) (result, es) =
     (if IsExistStateListener r (OBSERVER_MASK K M_CELL_INFO) \<and> slotId_of r = slotId
      then if telephonyObserver_of r = None then (ERR K TELEPHONY_ERR_LOCAL_PTR_NULL, es)
           else UpdateCellInfo_loop K E slotId vec rs
                  (ERR K TELEPHONY_SUCCESS,
                   es @ (case onCellInfoUpdated_of (EXT E) of
                           Some hook \<Rightarrow>
                             let vecExt = hook slotId r vec
                             in call_observer r (OnCellInfoUpdated slotId vecExt)
                         | None \<Rightarrow> call_observer r (OnCellInfoUpdated slotId vec)))
      else UpdateCellInfo_loop K E slotId vec rs (result, es))"

definition UpdateCellInfo_notify ::
    "build \<Rightarrow> ('sig, 'cell, 'net) world \<Rightarrow> int32 \<Rightarrow> 'cell option list \<Rightarrow>
     ('sig, 'cell, 'net) service \<Rightarrow> ('sig, 'cell, 'net) loop" where
  "UpdateCellInfo_notify K E slotId vec s =
     UpdateCellInfo_loop K E slotId vec (stateRecords_of s)
       (ERR K TELEPHONY_STATE_REGISTRY_DATA_NOT_EXIST, [])"

definition UpdateCellInfo ::
    "build \<Rightarrow> ('sig, 'cell, 'net) world \<Rightarrow> int32 \<Rightarrow> 'cell option list \<Rightarrow>
     ('sig, 'cell, 'net) service \<Rightarrow> ('sig, 'cell, 'net) outcome" where
  "UpdateCellInfo K E slotId vec s =
     (if \<not> VerifySlotId s slotId then (ERR K TELEPHONY_STATE_REGISTRY_SLODID_ERROR, s, [])
      else if \<not> CheckPermission E SET_TELEPHONY_STATE \<or> \<not> CheckPermission E CELL_LOCATION
      then (ERR K TELEPHONY_STATE_REGISTRY_PERMISSION_DENIED, s, [])
      else let s = UpdateCellInfo_write slotId vec s;
               (result, es) = UpdateCellInfo_notify K E slotId vec s
           in (result, s, es))"

subsection \<open>Network state\<close>

definition UpdateNetworkState_write ::
    "('sig, 'cell, 'net) world \<Rightarrow> int32 \<Rightarrow> 'net option \<Rightarrow> ('sig, 'cell, 'net) service \<Rightarrow>
     ('sig, 'cell, 'net) service" where
  "UpdateNetworkState_write E slotId networkState s =
     (let m = (searchNetworkState_of s)(slotId \<mapsto> networkState);
          m = (case networkState of
                 None \<Rightarrow> m
               | Some ns \<Rightarrow> if MakeSptrOk E then m(slotId \<mapsto> Some (NetworkRemarshal E ns)) else m)
      in s\<lparr>searchNetworkState_of := m\<rparr>)"

fun UpdateNetworkState_body ::
    "build \<Rightarrow> ('sig, 'cell, 'net) world \<Rightarrow> int32 \<Rightarrow> 'net option \<Rightarrow> TelephonyStateRegistryRecord \<Rightarrow>
     ('sig, 'cell, 'net) loop \<Rightarrow> ('sig, 'cell, 'net) loop" where
  "UpdateNetworkState_body K E slotId networkState r (result, es) =
     (case networkState of
        Some ns \<Rightarrow>
          if IsExistStateListener r (OBSERVER_MASK K M_NETWORK_STATE) \<and> slotId_of r = slotId \<and>
             telephonyObserver_of r \<noteq> None
          then (ERR K TELEPHONY_SUCCESS,
                es @ (case onNetworkStateUpdated_of (EXT E) of
                        Some hook \<Rightarrow>
                          let networkStateExt = hook slotId r (NetworkRemarshal E ns) ns
                          in call_observer r (OnNetworkStateUpdated slotId (Some networkStateExt))
                      | None \<Rightarrow> call_observer r (OnNetworkStateUpdated slotId (Some ns))))
          else (result, es)
      | None \<Rightarrow> (result, es))"

definition UpdateNetworkState_notify ::
    "build \<Rightarrow> ('sig, 'cell, 'net) world \<Rightarrow> int32 \<Rightarrow> 'net option \<Rightarrow>
     ('sig, 'cell, 'net) service \<Rightarrow> ('sig, 'cell, 'net) loop" where
  "UpdateNetworkState_notify K E slotId networkState s =
     (let (result, es) =
            for_each (UpdateNetworkState_body K E slotId networkState) (stateRecords_of s)
              (ERR K TELEPHONY_STATE_REGISTRY_DATA_NOT_EXIST, [])
      in (result, es @ SendNetworkStateChanged E slotId networkState))"

definition UpdateNetworkState ::
    "build \<Rightarrow> ('sig, 'cell, 'net) world \<Rightarrow> int32 \<Rightarrow> 'net option \<Rightarrow>
     ('sig, 'cell, 'net) service \<Rightarrow> ('sig, 'cell, 'net) outcome" where
  "UpdateNetworkState K E slotId networkState s =
     (if \<not> VerifySlotId s slotId then (ERR K TELEPHONY_STATE_REGISTRY_SLODID_ERROR, s, [])
      else if \<not> CheckPermission E SET_TELEPHONY_STATE
      then (ERR K TELEPHONY_STATE_REGISTRY_PERMISSION_DENIED, s, [])
      else let s = UpdateNetworkState_write E slotId networkState s;
               (result, es) = UpdateNetworkState_notify K E slotId networkState s
           in (result, s, es))"

subsection \<open>Indicators, accounts, SIM activation and VoIP\<close>

definition UpdateCfuIndicator_write ::
    "int32 \<Rightarrow> bool \<Rightarrow> ('sig, 'cell, 'net) service \<Rightarrow> ('sig, 'cell, 'net) service" where
  "UpdateCfuIndicator_write slotId cfuResult s =
     s\<lparr>cfuResult_of := (cfuResult_of s)(slotId \<mapsto> cfuResult)\<rparr>"

fun UpdateCfuIndicator_body ::
    "build \<Rightarrow> int32 \<Rightarrow> bool \<Rightarrow> TelephonyStateRegistryRecord \<Rightarrow> ('sig, 'cell, 'net) loop \<Rightarrow>
     ('sig, 'cell, 'net) loop" where
  "UpdateCfuIndicator_body K slotId cfuResult r (result, es) =
     (if IsExistStateListener r (OBSERVER_MASK K M_CFU_INDICATOR) \<and> slotId_of r = slotId \<and>
         telephonyObserver_of r \<noteq> None
      then (ERR K TELEPHONY_SUCCESS, es @ call_observer r (OnCfuIndicatorUpdated slotId cfuResult))
      else (result, es))"

definition UpdateCfuIndicator_notify ::
    "build \<Rightarrow> int32 \<Rightarrow> bool \<Rightarrow> ('sig, 'cell, 'net) service \<Rightarrow> ('sig, 'cell, 'net) loop" where
  "UpdateCfuIndicator_notify K slotId cfuResult s =
     for_each (UpdateCfuIndicator_body K slotId cfuResult) (stateRecords_of s)
       (ERR K TELEPHONY_STATE_REGISTRY_DATA_NOT_EXIST, [])"

definition UpdateCfuIndicator ::
    "build \<Rightarrow> ('sig, 'cell, 'net) world \<Rightarrow> int32 \<Rightarrow> bool \<Rightarrow> ('sig, 'cell, 'net) service \<Rightarrow>
     ('sig, 'cell, 'net) outcome" where
  "UpdateCfuIndicator K E slotId cfuResult s =
     (if \<not> VerifySlotId s slotId then (ERR K TELEPHONY_STATE_REGISTRY_SLODID_ERROR, s, [])
      else if \<not> CheckPermission E SET_TELEPHONY_STATE
      then (ERR K TELEPHONY_STATE_REGISTRY_PERMISSION_DENIED, s, [])
      else let s = UpdateCfuIndicator_write slotId cfuResult s;
               (result, es) = UpdateCfuIndicator_notify K slotId cfuResult s
           in (result, s, es))"

fun UpdateIccAccount_body ::
    "build \<Rightarrow> TelephonyStateRegistryRecord \<Rightarrow> ('sig, 'cell, 'net) loop \<Rightarrow>
     ('sig, 'cell, 'net) loop" where
  "UpdateIccAccount_body K r (result, es) =
     (if IsExistStateListener r (OBSERVER_MASK K M_ICC_ACCOUNT) \<and> telephonyObserver_of r \<noteq> None
      then (ERR K TELEPHONY_SUCCESS, es @ call_observer r OnIccAccountUpdated)
      else (result, es))"

definition UpdateIccAccount ::
    "build \<Rightarrow> ('sig, 'cell, 'net) world \<Rightarrow> ('sig, 'cell, 'net) service \<Rightarrow>
     ('sig, 'cell, 'net) outcome" where
  "UpdateIccAccount K E s =
     (if \<not> CheckPermission E SET_TELEPHONY_STATE
      then (ERR K TELEPHONY_STATE_REGISTRY_PERMISSION_DENIED, s, [])
      else let (result, es) = for_each (UpdateIccAccount_body K) (stateRecords_of s)
                                (ERR K TELEPHONY_STATE_REGISTRY_DATA_NOT_EXIST, [])
           in (result, s, es))"

definition UpdateVoiceMailMsgIndicator_write ::
    "int32 \<Rightarrow> bool \<Rightarrow> ('sig, 'cell, 'net) service \<Rightarrow> ('sig, 'cell, 'net) service" where
  "UpdateVoiceMailMsgIndicator_write slotId voiceMailMsgResult s =
     s\<lparr>voiceMailMsgResult_of := (voiceMailMsgResult_of s)(slotId \<mapsto> voiceMailMsgResult)\<rparr>"

fun UpdateVoiceMailMsgIndicator_body ::
    "build \<Rightarrow> int32 \<Rightarrow> bool \<Rightarrow> TelephonyStateRegistryRecord \<Rightarrow> ('sig, 'cell, 'net) loop \<Rightarrow>
     ('sig, 'cell, 'net) loop" where
  "UpdateVoiceMailMsgIndicator_body K slotId voiceMailMsgResult r (result, es) =
     (if IsExistStateListener r (OBSERVER_MASK K M_VOICE_MAIL_MSG_INDICATOR) \<and>
         slotId_of r = slotId \<and> telephonyObserver_of r \<noteq> None
      then (ERR K TELEPHONY_SUCCESS,
            es @ call_observer r (OnVoiceMailMsgIndicatorUpdated slotId voiceMailMsgResult))
      else (result, es))"

definition UpdateVoiceMailMsgIndicator_notify ::
    "build \<Rightarrow> int32 \<Rightarrow> bool \<Rightarrow> ('sig, 'cell, 'net) service \<Rightarrow> ('sig, 'cell, 'net) loop" where
  "UpdateVoiceMailMsgIndicator_notify K slotId voiceMailMsgResult s =
     for_each (UpdateVoiceMailMsgIndicator_body K slotId voiceMailMsgResult) (stateRecords_of s)
       (ERR K TELEPHONY_STATE_REGISTRY_DATA_NOT_EXIST, [])"

definition UpdateVoiceMailMsgIndicator ::
    "build \<Rightarrow> ('sig, 'cell, 'net) world \<Rightarrow> int32 \<Rightarrow> bool \<Rightarrow> ('sig, 'cell, 'net) service \<Rightarrow>
     ('sig, 'cell, 'net) outcome" where
  "UpdateVoiceMailMsgIndicator K E slotId voiceMailMsgResult s =
     (if \<not> VerifySlotId s slotId then (ERR K TELEPHONY_STATE_REGISTRY_SLODID_ERROR, s, [])
      else if \<not> CheckPermission E SET_TELEPHONY_STATE
      then (ERR K TELEPHONY_STATE_REGISTRY_PERMISSION_DENIED, s, [])
      else let s = UpdateVoiceMailMsgIndicator_write slotId voiceMailMsgResult s;
               (result, es) = UpdateVoiceMailMsgIndicator_notify K slotId voiceMailMsgResult s
           in (result, s, es))"

definition UpdateSimActiveState_write ::
    "int32 \<Rightarrow> bool \<Rightarrow> ('sig, 'cell, 'net) service \<Rightarrow> ('sig, 'cell, 'net) service" where
  "UpdateSimActiveState_write slotId activeStateResult s =
     s\<lparr>simActiveResult_of := (simActiveResult_of s)(slotId \<mapsto> activeStateResult)\<rparr>"

fun UpdateSimActiveState_body ::
    "build \<Rightarrow> int32 \<Rightarrow> bool \<Rightarrow> TelephonyStateRegistryRecord \<Rightarrow> ('sig, 'cell, 'net) loop \<Rightarrow>
     ('sig, 'cell, 'net) loop" where
  "UpdateSimActiveState_body K slotId activeStateResult r (result, es) =
     (if IsExistStateListener r (OBSERVER_MASK K M_SIM_ACTIVE_STATE) \<and> slotId_of r = slotId \<and>
         telephonyObserver_of r \<noteq> None
      then (ERR K TELEPHONY_SUCCESS,
            es @ call_observer r (OnSimActiveStateUpdated slotId activeStateResult))
      else (result, es))"

definition UpdateSimActiveState_notify ::
    "build \<Rightarrow> int32 \<Rightarrow> bool \<Rightarrow> ('sig, 'cell, 'net) service \<Rightarrow> ('sig, 'cell, 'net) loop" where
  "UpdateSimActiveState_notify K slotId activeStateResult s =
     for_each (UpdateSimActiveState_body K slotId activeStateResult) (stateRecords_of s)
       (ERR K TELEPHONY_STATE_REGISTRY_DATA_NOT_EXIST, [])"

definition UpdateSimActiveState ::
    "build \<Rightarrow> ('sig, 'cell, 'net) world \<Rightarrow> int32 \<Rightarrow> bool \<Rightarrow> ('sig, 'cell, 'net) service \<Rightarrow>
     ('sig, 'cell, 'net) outcome" where
  "UpdateSimActiveState K E slotId activeStateResult s =
     (if \<not> VerifySlotId s slotId then (ERR K TELEPHONY_STATE_REGISTRY_SLODID_ERROR, s, [])
      else if \<not> CheckPermission E SET_TELEPHONY_STATE
      then (ERR K TELEPHONY_STATE_REGISTRY_PERMISSION_DENIED, s, [])
      else let s = UpdateSimActiveState_write slotId activeStateResult s;
               (result, es) = UpdateSimActiveState_notify K slotId activeStateResult s
           in (result, s, es))"

fun UpdateVoIPCallState_body ::
    "build \<Rightarrow> ('sig, 'cell, 'net) world \<Rightarrow> VoIPCallStateInfo \<Rightarrow> TelephonyStateRegistryRecord \<Rightarrow>
     ('sig, 'cell, 'net) loop \<Rightarrow> ('sig, 'cell, 'net) loop" where
  "UpdateVoIPCallState_body K E info r (result, es) =
     (if IsExistStateListener r (OBSERVER_MASK K M_VOIP_CALL_STATE) \<and>
         telephonyObserver_of r \<noteq> None \<and> CanManageCallForDevices K E r
      then (ERR K TELEPHONY_SUCCESS, es @ call_observer r (OnVoIPStateUpdated info))
      else (result, es))"

definition UpdateVoIPCallState ::
    "build \<Rightarrow> ('sig, 'cell, 'net) world \<Rightarrow> VoIPCallStateInfo \<Rightarrow> ('sig, 'cell, 'net) service \<Rightarrow>
     ('sig, 'cell, 'net) outcome" where
  "UpdateVoIPCallState K E info s =
     (if \<not> CheckPermission E SET_TELEPHONY_STATE
      then (ERR K TELEPHONY_STATE_REGISTRY_PERMISSION_DENIED, s, [])
      else let (result, es) = for_each (UpdateVoIPCallState_body K E info) (stateRecords_of s)
                                (ERR K TELEPHONY_STATE_REGISTRY_DATA_NOT_EXIST, [])
           in (result, s, es))"

section \<open>Specification\<close>

text \<open>
  What an update promises, independently of its loop: \<open>want r\<close> is the call a record is entitled
  to, and every record with an observer that wants a call gets exactly that one, in the order of
  registration.
\<close>

definition pick_call ::
    "(TelephonyStateRegistryRecord \<Rightarrow> ('sig, 'cell, 'net) observer_call option) \<Rightarrow>
     TelephonyStateRegistryRecord \<Rightarrow> ('sig, 'cell, 'net) effect option" where
  "pick_call want r =
     (case telephonyObserver_of r of None \<Rightarrow> None | Some ob \<Rightarrow> map_option (Notify ob) (want r))"

definition deliveries ::
    "(TelephonyStateRegistryRecord \<Rightarrow> ('sig, 'cell, 'net) observer_call option) \<Rightarrow>
     TelephonyStateRegistryRecord list \<Rightarrow> ('sig, 'cell, 'net) effect list" where
  "deliveries want rs = List.map_filter (pick_call want) rs"

definition wants_mask :: "build \<Rightarrow> observer_mask \<Rightarrow> TelephonyStateRegistryRecord \<Rightarrow> bool" where
  "wants_mask K m r \<longleftrightarrow> mask_of r AND OBSERVER_MASK K m \<noteq> 0"

definition want_if :: "bool \<Rightarrow> 'a \<Rightarrow> 'a option" where
  "want_if b c = (if b then Some c else None)"

definition want_slot ::
    "build \<Rightarrow> observer_mask \<Rightarrow> int32 \<Rightarrow> (TelephonyStateRegistryRecord \<Rightarrow> 'c) \<Rightarrow>
     TelephonyStateRegistryRecord \<Rightarrow> 'c option" where
  "want_slot K m slotId c r = want_if (wants_mask K m r \<and> slotId_of r = slotId) (c r)"

definition want_conn ::
    "build \<Rightarrow> observer_mask \<Rightarrow> int32 \<Rightarrow> (TelephonyStateRegistryRecord \<Rightarrow> 'c) \<Rightarrow>
     TelephonyStateRegistryRecord \<Rightarrow> 'c option" where
  "want_conn K m slotId c r =
     want_if (wants_mask K m r \<and> (slotId_of r = slotId \<or> slotId_of r = DEFAULT_CONN_SLOT)) (c r)"

definition want_call ::
    "build \<Rightarrow> ('sig, 'cell, 'net) world \<Rightarrow> int32 \<Rightarrow> int32 \<Rightarrow> string16 \<Rightarrow> string16 \<Rightarrow>
     TelephonyStateRegistryRecord \<Rightarrow> ('sig, 'cell, 'net) observer_call option" where
  "want_call K E slotId callState cached number r =
     (if slotId_of r \<noteq> slotId then None
      else if wants_mask K M_CALL_STATE r
      then Some (OnCallStateUpdated slotId callState
                   (if IsCanReadCallHistory K E r then cached else Str8ToStr16 E ''''))
      else if wants_mask K M_CALL_STATE_EX r then Some (OnCallStateUpdatedEx slotId callState)
      else want_if (wants_mask K M_CCALL_STATE r \<and> CanManageCallForDevices K E r)
             (OnCCallStateUpdated slotId callState number))"

text \<open>What the extension library makes of a value, when it provides the hook.\<close>

definition ext_or :: "('h \<Rightarrow> 'a) \<Rightarrow> 'h option \<Rightarrow> 'a \<Rightarrow> 'a" where
  "ext_or f hook v = (case hook of None \<Rightarrow> v | Some h \<Rightarrow> f h)"

definition spec_update ::
    "build \<Rightarrow> bool \<Rightarrow> bool \<Rightarrow> ('sig, 'cell, 'net) service \<Rightarrow>
     (TelephonyStateRegistryRecord \<Rightarrow> ('sig, 'cell, 'net) observer_call option) \<Rightarrow>
     ('sig, 'cell, 'net) effect list \<Rightarrow> ('sig, 'cell, 'net) service \<Rightarrow>
     ('sig, 'cell, 'net) outcome" where
  "spec_update K slot_ok perm s' want events s =
     (if \<not> slot_ok then (ERR K TELEPHONY_STATE_REGISTRY_SLODID_ERROR, s, [])
      else if \<not> perm then (ERR K TELEPHONY_STATE_REGISTRY_PERMISSION_DENIED, s, [])
      else (if deliveries want (stateRecords_of s) = []
            then ERR K TELEPHONY_STATE_REGISTRY_DATA_NOT_EXIST else ERR K TELEPHONY_SUCCESS,
            s', deliveries want (stateRecords_of s) @ events))"

fun is_notify :: "('sig, 'cell, 'net) effect \<Rightarrow> bool" where
  "is_notify (Notify ob c) = True"
| "is_notify (Publish ev) = False"
| "is_notify (ExtSendSignalInfoChanged slotId vec) = False"
| "is_notify (ExtSendNetworkStateChanged slotId ns) = False"

text \<open>The contract of an update, and what follows from it whatever the update.\<close>

locale update_spec =
  fixes K :: build
    and upd :: "('sig, 'cell, 'net) service \<Rightarrow> ('sig, 'cell, 'net) outcome"
    and slot_ok :: "('sig, 'cell, 'net) service \<Rightarrow> bool"
    and perm :: bool
    and wr :: "('sig, 'cell, 'net) service \<Rightarrow> ('sig, 'cell, 'net) service"
    and want :: "TelephonyStateRegistryRecord \<Rightarrow> ('sig, 'cell, 'net) observer_call option"
    and events :: "('sig, 'cell, 'net) effect list"
  assumes upd_law: "upd s = spec_update K (slot_ok s) perm (wr s) want events s"
    and wr_records: "stateRecords_of (wr s) = stateRecords_of s"
    and wr_slots: "slotSize_of (wr s) = slotSize_of s"
    and events_law: "\<forall>e \<in> set events. \<not> is_notify e"
begin

lemma rejected:
  assumes "\<not> (slot_ok s \<and> perm)"
  shows "snd (upd s) = (s, [])"
  using assms by (auto simp: upd_law spec_update_def)

lemma keeps_records: "stateRecords_of (fst (snd (upd s))) = stateRecords_of s"
  by (simp add: upd_law spec_update_def wr_records)

lemma keeps_slots: "slotSize_of (fst (snd (upd s))) = slotSize_of s"
  by (simp add: upd_law spec_update_def wr_slots)

lemma state_after: "fst (snd (upd s)) = (if slot_ok s \<and> perm then wr s else s)"
  by (simp add: upd_law spec_update_def)

lemma success_iff:
  assumes "codes_ok K"
  shows "fst (upd s) = ERR K TELEPHONY_SUCCESS \<longleftrightarrow>
    slot_ok s \<and> perm \<and> (\<exists>r \<in> set (stateRecords_of s). telephonyObserver_of r \<noteq> None \<and> want r \<noteq> None)"
  using assms
  by (auto simp: upd_law spec_update_def codes_okD deliveries_def map_filter_def filter_empty_conv
      pick_call_def split: option.splits)

lemma notified_iff:
  "Notify ob c \<in> set (snd (snd (upd s))) \<longleftrightarrow>
    slot_ok s \<and> perm \<and>
    (\<exists>r \<in> set (stateRecords_of s). telephonyObserver_of r = Some ob \<and> want r = Some c)"
proof -
  have "Notify ob c \<in> set (deliveries want rs) \<longleftrightarrow>
      (\<exists>r \<in> set rs. telephonyObserver_of r = Some ob \<and> want r = Some c)" for rs
    by (induction rs)
      (auto simp: deliveries_def List.map_filter_simps pick_call_def split: option.splits)
  with events_law show ?thesis by (auto simp: upd_law spec_update_def)
qed

end

section \<open>The loops refine the specification\<close>

lemmas loop_simps = pick_call_def want_if_def want_slot_def want_conn_def want_call_def
  wants_mask_def IsExistStateListener_def call_observer_def ext_or_def

interpretation dataConn: fanout
  "UpdateCellularDataConnectState_body K E slotId dataState networkType"
  "pick_call (want_conn K M_DATA_CONNECTION_STATE slotId
     (\<lambda>r. OnCellularDataConnectStateUpdated slotId dataState
        (ext_or (\<lambda>h. h slotId r networkType) (onCellularDataConnectStateUpdated_of (EXT E)) networkType)))"
  "ERR K TELEPHONY_SUCCESS"
  for K E slotId dataState networkType
  by unfold_locales (auto simp: loop_simps Let_def split: option.split)

interpretation dataFlow: fanout "UpdateCellularDataFlow_body K slotId flowData"
  "pick_call (want_conn K M_DATA_FLOW slotId (\<lambda>r. OnCellularDataFlowUpdated slotId flowData))"
  "ERR K TELEPHONY_SUCCESS"
  for K slotId flowData
  by unfold_locales (auto simp: loop_simps split: option.split)

interpretation callAll: fanout "UpdateCallState_body K E callState number"
  "pick_call (want_call K E (-1) callState number number)" "ERR K TELEPHONY_SUCCESS"
  for K E callState number
  by unfold_locales (auto simp: loop_simps split: option.split)

interpretation callSlot: fanout "UpdateCallStateForSlotId_body K E s slotId callState number"
  "pick_call (want_call K E slotId callState
     (map_default (callIncomingNumber_of s) slotId []) number)" "ERR K TELEPHONY_SUCCESS"
  for K E slotId callState number s
  by unfold_locales
    (auto simp: loop_simps GetCallIncomingNumberForSlotId_def map_index_def split: option.split)

interpretation sim: fanout "UpdateSimState_body K slotId type st reason"
  "pick_call (want_slot K M_SIM_STATE slotId (\<lambda>r. OnSimStateUpdated slotId type st reason))"
  "ERR K TELEPHONY_SUCCESS"
  for K slotId type st reason
  by unfold_locales (auto simp: loop_simps split: option.split)

interpretation signalInfo: fanout "UpdateSignalInfo_body K E slotId vec"
  "pick_call (want_slot K M_SIGNAL_STRENGTHS slotId
     (\<lambda>r. OnSignalInfoUpdated slotId
        (ext_or (\<lambda>h. h slotId r vec) (onSignalInfoUpdated_of (EXT E)) vec)))"
  "ERR K TELEPHONY_SUCCESS"
  for K E slotId vec
  by unfold_locales (auto simp: loop_simps Let_def split: option.split)

interpretation network: fanout "UpdateNetworkState_body K E slotId networkState"
  "pick_call (\<lambda>r. Option.bind networkState (\<lambda>ns.
     want_slot K M_NETWORK_STATE slotId
       (\<lambda>r. OnNetworkStateUpdated slotId (Some
          (ext_or (\<lambda>h. h slotId r (NetworkRemarshal E ns) ns) (onNetworkStateUpdated_of (EXT E)) ns))) r))"
  "ERR K TELEPHONY_SUCCESS"
  for K E slotId networkState
  by unfold_locales (auto simp: loop_simps Let_def split: option.split)

interpretation cfu: fanout "UpdateCfuIndicator_body K slotId cfuResult"
  "pick_call (want_slot K M_CFU_INDICATOR slotId (\<lambda>r. OnCfuIndicatorUpdated slotId cfuResult))"
  "ERR K TELEPHONY_SUCCESS"
  for K slotId cfuResult
  by unfold_locales (auto simp: loop_simps split: option.split)

interpretation account: fanout "UpdateIccAccount_body K"
  "pick_call (\<lambda>r. want_if (wants_mask K M_ICC_ACCOUNT r) OnIccAccountUpdated)"
  "ERR K TELEPHONY_SUCCESS"
  for K
  by unfold_locales (auto simp: loop_simps split: option.split)

interpretation voiceMail: fanout "UpdateVoiceMailMsgIndicator_body K slotId voiceMailMsgResult"
  "pick_call (want_slot K M_VOICE_MAIL_MSG_INDICATOR slotId
     (\<lambda>r. OnVoiceMailMsgIndicatorUpdated slotId voiceMailMsgResult))"
  "ERR K TELEPHONY_SUCCESS"
  for K slotId voiceMailMsgResult
  by unfold_locales (auto simp: loop_simps split: option.split)

interpretation simActive: fanout "UpdateSimActiveState_body K slotId activeStateResult"
  "pick_call (want_slot K M_SIM_ACTIVE_STATE slotId
     (\<lambda>r. OnSimActiveStateUpdated slotId activeStateResult))"
  "ERR K TELEPHONY_SUCCESS"
  for K slotId activeStateResult
  by unfold_locales (auto simp: loop_simps split: option.split)

interpretation voip: fanout "UpdateVoIPCallState_body K E info"
  "pick_call (\<lambda>r. want_if (wants_mask K M_VOIP_CALL_STATE r \<and> CanManageCallForDevices K E r)
     (OnVoIPStateUpdated info))"
  "ERR K TELEPHONY_SUCCESS"
  for K E info
  by unfold_locales (auto simp: loop_simps split: option.split)

text \<open>
  The loop of the cell information leaves early only for a record whose observer is null, and
  such a record does not pass the guard: the early return is never taken.
\<close>

lemma UpdateCellInfo_loop_eq:
  "UpdateCellInfo_loop K E slotId vec rs (res, es) =
     (let ds = deliveries (want_slot K M_CELL_INFO slotId
           (\<lambda>r. OnCellInfoUpdated slotId
              (ext_or (\<lambda>h. h slotId r vec) (onCellInfoUpdated_of (EXT E)) vec))) rs
      in (if ds = [] then res else ERR K TELEPHONY_SUCCESS, es @ ds))"
  by (induction rs arbitrary: res es)
    (auto simp: loop_simps deliveries_def List.map_filter_simps Let_def split: option.split)

text \<open>
  The number of the slot is in the cache after the write section, so that the read with
  \<^verbatim>\<open>operator[]\<close> in the notification section changes nothing.
\<close>

lemma GetCallIncomingNumber_keeps:
  assumes "slotId \<in> dom (callIncomingNumber_of s)"
  shows "snd (GetCallIncomingNumberForSlotId K E r slotId s) = s"
  using assms by (auto simp: GetCallIncomingNumberForSlotId_def map_index_def)

lemmas event_defs = SendCellularDataConnectStateChanged_def SendSimStateChanged_def
  SendSignalInfoChanged_def SendNetworkStateChanged_def PublishCommonEvent_def
  SendCallStateChanged_def SendCallStateChangedAsUserMultiplePermission_def

lemmas write_defs = UpdateCellularDataConnectState_write_def UpdateCellularDataFlow_write_def
  UpdateCallState_write_def UpdateCallStateForSlotId_write_def UpdateSimState_write_def
  UpdateSignalInfo_write_def UpdateCellInfo_write_def UpdateNetworkState_write_def
  UpdateCfuIndicator_write_def UpdateVoiceMailMsgIndicator_write_def UpdateSimActiveState_write_def

interpretation dataConnU: update_spec K "UpdateCellularDataConnectState K E slotId dataState networkType"
  "\<lambda>s. VerifySlotId s slotId" "CheckPermission E SET_TELEPHONY_STATE"
  "UpdateCellularDataConnectState_write slotId dataState networkType"
  "want_conn K M_DATA_CONNECTION_STATE slotId
     (\<lambda>r. OnCellularDataConnectStateUpdated slotId dataState
        (ext_or (\<lambda>h. h slotId r networkType) (onCellularDataConnectStateUpdated_of (EXT E)) networkType))"
  "SendCellularDataConnectStateChanged slotId dataState networkType"
  for K E slotId dataState networkType
  by unfold_locales
    (auto simp: UpdateCellularDataConnectState_def UpdateCellularDataConnectState_notify_def
      dataConn.loop_eq spec_update_def deliveries_def write_defs event_defs Let_def)

interpretation dataFlowU: update_spec K "UpdateCellularDataFlow K E slotId flowData"
  "\<lambda>s. VerifySlotId s slotId" "CheckPermission E SET_TELEPHONY_STATE"
  "UpdateCellularDataFlow_write slotId flowData"
  "want_conn K M_DATA_FLOW slotId (\<lambda>r. OnCellularDataFlowUpdated slotId flowData)" "[]"
  for K E slotId flowData
  by unfold_locales
    (auto simp: UpdateCellularDataFlow_def UpdateCellularDataFlow_notify_def
      dataFlow.loop_eq spec_update_def deliveries_def write_defs Let_def)

interpretation callAllU: update_spec K "UpdateCallState K E callState number"
  "\<lambda>s. True" "CheckPermission E SET_TELEPHONY_STATE" "UpdateCallState_write callState number"
  "want_call K E (-1) callState number number"
  "SendCallStateChanged (-1) callState @
     SendCallStateChangedAsUserMultiplePermission E (-1) callState number"
  for K E callState number
  by unfold_locales
    (auto simp: UpdateCallState_def UpdateCallState_notify_def
      callAll.loop_eq spec_update_def deliveries_def write_defs event_defs Let_def)

interpretation callSlotU: update_spec K "UpdateCallStateForSlotId K E slotId callState number"
  "\<lambda>s. VerifySlotId s slotId" "CheckPermission E SET_TELEPHONY_STATE"
  "UpdateCallStateForSlotId_write slotId callState number"
  "want_call K E slotId callState number number"
  "SendCallStateChanged slotId callState @
     SendCallStateChangedAsUserMultiplePermission E slotId callState number"
  for K E slotId callState number
  by unfold_locales
    (auto simp: UpdateCallStateForSlotId_def UpdateCallStateForSlotId_notify_def
      callSlot.loop_eq spec_update_def deliveries_def write_defs event_defs Let_def)

interpretation simU: update_spec K "UpdateSimState K E slotId type st reason"
  "\<lambda>s. VerifySlotId s slotId" "CheckPermission E SET_TELEPHONY_STATE"
  "UpdateSimState_write slotId type st reason"
  "want_slot K M_SIM_STATE slotId (\<lambda>r. OnSimStateUpdated slotId type st reason)"
  "SendSimStateChanged slotId type st reason"
  for K E slotId type st reason
  by unfold_locales
    (auto simp: UpdateSimState_def UpdateSimState_notify_def
      sim.loop_eq spec_update_def deliveries_def write_defs event_defs Let_def)

interpretation signalU: update_spec K "UpdateSignalInfo K E slotId vec"
  "\<lambda>s. VerifySlotId s slotId" "CheckPermission E SET_TELEPHONY_STATE"
  "UpdateSignalInfo_write slotId vec"
  "want_slot K M_SIGNAL_STRENGTHS slotId
     (\<lambda>r. OnSignalInfoUpdated slotId
        (ext_or (\<lambda>h. h slotId r vec) (onSignalInfoUpdated_of (EXT E)) vec))"
  "SendSignalInfoChanged E slotId vec"
  for K E slotId vec
  by unfold_locales
    (auto simp: UpdateSignalInfo_def UpdateSignalInfo_notify_def
      signalInfo.loop_eq spec_update_def deliveries_def write_defs event_defs Let_def split: if_splits)

interpretation cellU: update_spec K "UpdateCellInfo K E slotId vec"
  "\<lambda>s. VerifySlotId s slotId"
  "CheckPermission E SET_TELEPHONY_STATE \<and> CheckPermission E CELL_LOCATION"
  "UpdateCellInfo_write slotId vec"
  "want_slot K M_CELL_INFO slotId
     (\<lambda>r. OnCellInfoUpdated slotId
        (ext_or (\<lambda>h. h slotId r vec) (onCellInfoUpdated_of (EXT E)) vec))"
  "[]"
  for K E slotId vec
  by unfold_locales
    (auto simp: UpdateCellInfo_def UpdateCellInfo_notify_def UpdateCellInfo_loop_eq
      spec_update_def write_defs Let_def)

interpretation networkU: update_spec K "UpdateNetworkState K E slotId networkState"
  "\<lambda>s. VerifySlotId s slotId" "CheckPermission E SET_TELEPHONY_STATE"
  "UpdateNetworkState_write E slotId networkState"
  "\<lambda>r. Option.bind networkState (\<lambda>ns.
     want_slot K M_NETWORK_STATE slotId
       (\<lambda>r. OnNetworkStateUpdated slotId (Some
          (ext_or (\<lambda>h. h slotId r (NetworkRemarshal E ns) ns) (onNetworkStateUpdated_of (EXT E)) ns))) r)"
  "SendNetworkStateChanged E slotId networkState"
  for K E slotId networkState
  by unfold_locales
    (auto simp: UpdateNetworkState_def UpdateNetworkState_notify_def
      network.loop_eq spec_update_def deliveries_def write_defs event_defs Let_def
      split: if_splits option.splits)

interpretation cfuU: update_spec K "UpdateCfuIndicator K E slotId cfuResult"
  "\<lambda>s. VerifySlotId s slotId" "CheckPermission E SET_TELEPHONY_STATE"
  "UpdateCfuIndicator_write slotId cfuResult"
  "want_slot K M_CFU_INDICATOR slotId (\<lambda>r. OnCfuIndicatorUpdated slotId cfuResult)" "[]"
  for K E slotId cfuResult
  by unfold_locales
    (auto simp: UpdateCfuIndicator_def UpdateCfuIndicator_notify_def
      cfu.loop_eq spec_update_def deliveries_def write_defs Let_def)

interpretation accountU: update_spec K "UpdateIccAccount K E"
  "\<lambda>s. True" "CheckPermission E SET_TELEPHONY_STATE" "\<lambda>s. s"
  "\<lambda>r. want_if (wants_mask K M_ICC_ACCOUNT r) OnIccAccountUpdated" "[]"
  for K E
  by unfold_locales
    (auto simp: UpdateIccAccount_def account.loop_eq spec_update_def deliveries_def Let_def)

interpretation voiceMailU: update_spec K "UpdateVoiceMailMsgIndicator K E slotId voiceMailMsgResult"
  "\<lambda>s. VerifySlotId s slotId" "CheckPermission E SET_TELEPHONY_STATE"
  "UpdateVoiceMailMsgIndicator_write slotId voiceMailMsgResult"
  "want_slot K M_VOICE_MAIL_MSG_INDICATOR slotId
     (\<lambda>r. OnVoiceMailMsgIndicatorUpdated slotId voiceMailMsgResult)" "[]"
  for K E slotId voiceMailMsgResult
  by unfold_locales
    (auto simp: UpdateVoiceMailMsgIndicator_def UpdateVoiceMailMsgIndicator_notify_def
      voiceMail.loop_eq spec_update_def deliveries_def write_defs Let_def)

interpretation simActiveU: update_spec K "UpdateSimActiveState K E slotId activeStateResult"
  "\<lambda>s. VerifySlotId s slotId" "CheckPermission E SET_TELEPHONY_STATE"
  "UpdateSimActiveState_write slotId activeStateResult"
  "want_slot K M_SIM_ACTIVE_STATE slotId (\<lambda>r. OnSimActiveStateUpdated slotId activeStateResult)" "[]"
  for K E slotId activeStateResult
  by unfold_locales
    (auto simp: UpdateSimActiveState_def UpdateSimActiveState_notify_def
      simActive.loop_eq spec_update_def deliveries_def write_defs Let_def)

interpretation voipU: update_spec K "UpdateVoIPCallState K E info"
  "\<lambda>s. True" "CheckPermission E SET_TELEPHONY_STATE" "\<lambda>s. s"
  "\<lambda>r. want_if (wants_mask K M_VOIP_CALL_STATE r \<and> CanManageCallForDevices K E r)
     (OnVoIPStateUpdated info)" "[]"
  for K E info
  by unfold_locales
    (auto simp: UpdateVoIPCallState_def voip.loop_eq spec_update_def deliveries_def Let_def)

section \<open>The queries read what the updates wrote\<close>

lemmas query_defs = GetSimState_def GetCardType_def GetLockReason_def GetCallState_def
  GetCellularDataConnectionState_def GetCellularDataConnectionNetworkType_def
  GetCellularDataFlow_def scan_slot_def

interpretation simStateC: slot_cache "GetSimState K"
  "\<lambda>slotId (type, st, reason). UpdateSimState_write slotId type st reason" "\<lambda>(type, st, reason). st"
  for K
  by unfold_locales (auto simp: query_defs write_defs)

interpretation cardTypeC: slot_cache "GetCardType K"
  "\<lambda>slotId (type, st, reason). UpdateSimState_write slotId type st reason" "\<lambda>(type, st, reason). type"
  for K
  by unfold_locales (auto simp: query_defs write_defs)

interpretation lockReasonC: slot_cache "GetLockReason K"
  "\<lambda>slotId (type, st, reason). UpdateSimState_write slotId type st reason" "\<lambda>(type, st, reason). reason"
  for K
  by unfold_locales (auto simp: query_defs write_defs)

interpretation callStateC: slot_cache "GetCallState K"
  "\<lambda>slotId (callState, number). UpdateCallStateForSlotId_write slotId callState number" fst
  for K
  by unfold_locales (auto simp: query_defs write_defs)

interpretation dataStateC: slot_cache "GetCellularDataConnectionState K"
  "\<lambda>slotId (st, type). UpdateCellularDataConnectState_write slotId st type" fst
  for K
  by unfold_locales (auto simp: query_defs write_defs)

interpretation dataTypeC: slot_cache "GetCellularDataConnectionNetworkType K"
  "\<lambda>slotId (st, type). UpdateCellularDataConnectState_write slotId st type" snd
  for K
  by unfold_locales (auto simp: query_defs write_defs)

interpretation dataFlowC: slot_cache "GetCellularDataFlow K" UpdateCellularDataFlow_write "\<lambda>v. v"
  for K
  by unfold_locales (auto simp: query_defs write_defs)

end
