(* ===== verification/Service_Registry.thy ===== *)
theory Service_Registry
  imports Service_Update
begin

text \<open>
  Registration of observers: the guards, \<^verbatim>\<open>RegisterStateChange\<close> with its immediate notification
  (\<^verbatim>\<open>UpdateData\<close>, \<^verbatim>\<open>UpdateDataEx\<close>) and \<^verbatim>\<open>UnregisterStateChange\<close> of
  \<^verbatim>\<open>services/src/telephony_state_registry_service.cpp\<close>. The vector of records is shown to
  implement a finite map from (slot, mask, token, process) to records.
\<close>

section \<open>Guards\<close>

definition CheckCallerIsSystemApp :: "build \<Rightarrow> ('sig, 'cell, 'net) world \<Rightarrow> uint32 \<Rightarrow> bool" where
  "CheckCallerIsSystemApp K E msk =
     (if msk AND OBSERVER_MASK K M_CELL_INFO \<noteq> 0 \<and> \<not> CallerIsSystemApp E then False
      else if msk AND OBSERVER_MASK K M_CFU_INDICATOR \<noteq> 0 \<and> \<not> CallerIsSystemApp E then False
      else if msk AND OBSERVER_MASK K M_VOICE_MAIL_MSG_INDICATOR \<noteq> 0 \<and> \<not> CallerIsSystemApp E
      then False
      else True)"

text \<open>\<^verbatim>\<open>TelephonyStateRegistryService::CheckPermission(uint32_t mask)\<close>\<close>

definition CheckPermission_mask :: "build \<Rightarrow> ('sig, 'cell, 'net) world \<Rightarrow> uint32 \<Rightarrow> bool" where
  "CheckPermission_mask K E msk =
     (if msk AND OBSERVER_MASK K M_NETWORK_STATE \<noteq> 0 \<and> \<not> CheckPermission E GET_NETWORK_INFO
      then False
      else if msk AND OBSERVER_MASK K M_CELL_INFO \<noteq> 0 \<and> \<not> CheckPermission E CELL_LOCATION
      then False
      else if msk AND OBSERVER_MASK K M_CCALL_STATE \<noteq> 0 \<and>
              \<not> CheckPermission E MANAGE_CALL_FOR_DEVICES
      then False
      else if msk AND OBSERVER_MASK K M_SIM_ACTIVE_STATE \<noteq> 0 \<and>
              \<not> CheckPermission E SET_TELEPHONY_STATE
      then False
      else if msk AND OBSERVER_MASK K M_VOIP_CALL_STATE \<noteq> 0 \<and>
              \<not> CheckPermission E MANAGE_CALL_FOR_DEVICES
      then False
      else True)"

definition IsMultiSimsCapabilitySupported ::
    "build \<Rightarrow> ('sig, 'cell, 'net) world \<Rightarrow> int32 \<Rightarrow> bool" where
  "IsMultiSimsCapabilitySupported K E slotId =
     (if slotId < MAX_SLOT_COUNT K then True
      else if CallerTokenType E = TOKEN_NATIVE K \<or> CallerTokenType E = TOKEN_SHELL K then True
      else IsSystemAppByFullTokenID E)"

section \<open>Immediate notification\<close>

text \<open>
  One definition per \<^verbatim>\<open>if\<close> of \<^verbatim>\<open>UpdateData\<close> and \<^verbatim>\<open>UpdateDataEx\<close>. The caches are read with
  \<^verbatim>\<open>operator[]\<close>, which inserts a zero, false, empty or null element for a slot without one.
\<close>

type_synonym ('sig, 'cell, 'net) action =
  "('sig, 'cell, 'net) service \<Rightarrow> ('sig, 'cell, 'net) service \<times> ('sig, 'cell, 'net) effect list"

definition if_mask ::
    "build \<Rightarrow> TelephonyStateRegistryRecord \<Rightarrow> observer_mask \<Rightarrow> ('sig, 'cell, 'net) action \<Rightarrow>
     ('sig, 'cell, 'net) action" where
  "if_mask K r m act = (if mask_of r AND OBSERVER_MASK K m \<noteq> 0 then act else skip)"

definition data_call_state ::
    "build \<Rightarrow> ('sig, 'cell, 'net) world \<Rightarrow> TelephonyStateRegistryRecord \<Rightarrow>
     ('sig, 'cell, 'net) action" where
  "data_call_state K E r s =
     (let (phoneNumber, s) = GetCallIncomingNumberForSlotId K E r (slotId_of r) s;
          (st, m) = map_index (callState_of s) (slotId_of r) 0
      in (s\<lparr>callState_of := m\<rparr>,
          call_observer r (OnCallStateUpdated (slotId_of r) st phoneNumber)))"

definition data_signal_info ::
    "TelephonyStateRegistryRecord \<Rightarrow> ('sig, 'cell, 'net) action" where
  "data_signal_info r s =
     (let (v, m) = map_index (signalInfos_of s) (slotId_of r) []
      in (s\<lparr>signalInfos_of := m\<rparr>, call_observer r (OnSignalInfoUpdated (slotId_of r) v)))"

definition data_network_state ::
    "TelephonyStateRegistryRecord \<Rightarrow> ('sig, 'cell, 'net) action" where
  "data_network_state r s =
     (let (v, m) = map_index (searchNetworkState_of s) (slotId_of r) None
      in (s\<lparr>searchNetworkState_of := m\<rparr>, call_observer r (OnNetworkStateUpdated (slotId_of r) v)))"

definition data_cell_info ::
    "TelephonyStateRegistryRecord \<Rightarrow> ('sig, 'cell, 'net) action" where
  "data_cell_info r s =
     (let (v, m) = map_index (cellInfos_of s) (slotId_of r) []
      in (s\<lparr>cellInfos_of := m\<rparr>, call_observer r (OnCellInfoUpdated (slotId_of r) v)))"

definition data_sim_state ::
    "TelephonyStateRegistryRecord \<Rightarrow> ('sig, 'cell, 'net) action" where
  "data_sim_state r s =
     (let (type, mt) = map_index (cardType_of s) (slotId_of r) 0;
          (st, ms) = map_index (simState_of s) (slotId_of r) 0;
          (reason, mr) = map_index (simReason_of s) (slotId_of r) 0
      in (s\<lparr>cardType_of := mt, simState_of := ms, simReason_of := mr\<rparr>,
          call_observer r (OnSimStateUpdated (slotId_of r) type st reason)))"

definition data_connection ::
    "TelephonyStateRegistryRecord \<Rightarrow> ('sig, 'cell, 'net) action" where
  "data_connection r s =
     (let (st, ms) = map_index (cellularDataConnectionState_of s) (slotId_of r) 0;
          (type, mt) = map_index (cellularDataConnectionNetworkType_of s) (slotId_of r) 0
      in (s\<lparr>cellularDataConnectionState_of := ms, cellularDataConnectionNetworkType_of := mt\<rparr>,
          call_observer r (OnCellularDataConnectStateUpdated (slotId_of r) st type)))"

definition data_flow :: "TelephonyStateRegistryRecord \<Rightarrow> ('sig, 'cell, 'net) action" where
  "data_flow r s =
     (let (v, m) = map_index (cellularDataFlow_of s) (slotId_of r) 0
      in (s\<lparr>cellularDataFlow_of := m\<rparr>, call_observer r (OnCellularDataFlowUpdated (slotId_of r) v)))"

definition data_cfu :: "TelephonyStateRegistryRecord \<Rightarrow> ('sig, 'cell, 'net) action" where
  "data_cfu r s =
     (let (v, m) = map_index (cfuResult_of s) (slotId_of r) False
      in (s\<lparr>cfuResult_of := m\<rparr>, call_observer r (OnCfuIndicatorUpdated (slotId_of r) v)))"

definition data_voice_mail :: "TelephonyStateRegistryRecord \<Rightarrow> ('sig, 'cell, 'net) action" where
  "data_voice_mail r s =
     (let (v, m) = map_index (voiceMailMsgResult_of s) (slotId_of r) False
      in (s\<lparr>voiceMailMsgResult_of := m\<rparr>,
          call_observer r (OnVoiceMailMsgIndicatorUpdated (slotId_of r) v)))"

definition data_icc_account :: "TelephonyStateRegistryRecord \<Rightarrow> ('sig, 'cell, 'net) action" where
  "data_icc_account r s = (s, call_observer r OnIccAccountUpdated)"

definition data_call_state_ex :: "TelephonyStateRegistryRecord \<Rightarrow> ('sig, 'cell, 'net) action" where
  "data_call_state_ex r s =
     (let (st, m) = map_index (callState_of s) (slotId_of r) 0
      in (s\<lparr>callState_of := m\<rparr>, call_observer r (OnCallStateUpdatedEx (slotId_of r) st)))"

definition data_ccall_state ::
    "build \<Rightarrow> ('sig, 'cell, 'net) world \<Rightarrow> TelephonyStateRegistryRecord \<Rightarrow>
     ('sig, 'cell, 'net) action" where
  "data_ccall_state K E r s =
     (if CanManageCallForDevices K E r
      then let (callState, mc) = map_index (callState_of s) (slotId_of r) 0;
               callState = (if callState = CallStatus_value CALL_STATUS_UNKNOWN
                            then CallStatus_value CALL_STATUS_IDLE else callState);
               (number, mn) = map_index (callIncomingNumber_of s) (slotId_of r) []
           in (s\<lparr>callState_of := mc, callIncomingNumber_of := mn\<rparr>,
               call_observer r (OnCCallStateUpdated (slotId_of r) callState number))
      else (s, []))"

definition data_sim_active :: "TelephonyStateRegistryRecord \<Rightarrow> ('sig, 'cell, 'net) action" where
  "data_sim_active r s =
     (let (v, m) = map_index (simActiveResult_of s) (slotId_of r) False
      in (s\<lparr>simActiveResult_of := m\<rparr>, call_observer r (OnSimActiveStateUpdated (slotId_of r) v)))"

definition UpdateDataEx ::
    "build \<Rightarrow> ('sig, 'cell, 'net) world \<Rightarrow> TelephonyStateRegistryRecord \<Rightarrow>
     ('sig, 'cell, 'net) action" where
  "UpdateDataEx K E r =
     (if telephonyObserver_of r = None then skip
      else seq (if_mask K r M_CALL_STATE_EX (data_call_state_ex r))
          (seq (if_mask K r M_CCALL_STATE (data_ccall_state K E r))
               (if_mask K r M_SIM_ACTIVE_STATE (data_sim_active r))))"

definition UpdateData ::
    "build \<Rightarrow> ('sig, 'cell, 'net) world \<Rightarrow> TelephonyStateRegistryRecord \<Rightarrow>
     ('sig, 'cell, 'net) action" where
  "UpdateData K E r =
     (if telephonyObserver_of r = None then skip
      else seq (if_mask K r M_CALL_STATE (data_call_state K E r))
          (seq (if_mask K r M_SIGNAL_STRENGTHS (data_signal_info r))
          (seq (if_mask K r M_NETWORK_STATE (data_network_state r))
          (seq (if_mask K r M_CELL_INFO (data_cell_info r))
          (seq (if_mask K r M_SIM_STATE (data_sim_state r))
          (seq (if_mask K r M_DATA_CONNECTION_STATE (data_connection r))
          (seq (if_mask K r M_DATA_FLOW (data_flow r))
          (seq (if_mask K r M_CFU_INDICATOR (data_cfu r))
          (seq (if_mask K r M_VOICE_MAIL_MSG_INDICATOR (data_voice_mail r))
          (seq (if_mask K r M_ICC_ACCOUNT (data_icc_account r))
               (UpdateDataEx K E r)))))))))))"

section \<open>Register and unregister\<close>

definition is_registration ::
    "int32 \<Rightarrow> uint32 \<Rightarrow> int32 \<Rightarrow> int32 \<Rightarrow> TelephonyStateRegistryRecord \<Rightarrow> bool" where
  "is_registration slotId msk tokenId pid r \<longleftrightarrow>
     slotId_of r = slotId \<and> mask_of r = msk \<and> tokenId_of r = tokenId \<and> pid_of r = pid"

text \<open>The loop that looks for the record of the same subscription and stops at the first.\<close>

fun find_registration ::
    "int32 \<Rightarrow> uint32 \<Rightarrow> int32 \<Rightarrow> int32 \<Rightarrow> TelephonyStateRegistryRecord list \<Rightarrow>
     TelephonyStateRegistryRecord option" where
  "find_registration slotId msk tokenId pid [] = None"
| "find_registration slotId msk tokenId pid (r # rs) =
     (if is_registration slotId msk tokenId pid r then Some r
      else find_registration slotId msk tokenId pid rs)"

definition RegisterStateChange ::
    "build \<Rightarrow> ('sig, 'cell, 'net) world \<Rightarrow> observer option \<Rightarrow> int32 \<Rightarrow> uint32 \<Rightarrow> string \<Rightarrow> bool \<Rightarrow>
     int32 \<Rightarrow> int32 \<Rightarrow> int32 \<Rightarrow> string \<Rightarrow> ('sig, 'cell, 'net) service \<Rightarrow>
     ('sig, 'cell, 'net) outcome" where
  "RegisterStateChange K E telephonyObserver slotId msk bundleName isUpdate pid uid tokenId
       appIdentifier s =
     (if \<not> CheckCallerIsSystemApp K E msk
      then (ERR K TELEPHONY_ERR_ILLEGAL_USE_OF_SYSTEM_API, s, [])
      else if \<not> CheckPermission_mask K E msk
      then (ERR K TELEPHONY_STATE_REGISTRY_PERMISSION_DENIED, s, [])
      else if \<not> IsMultiSimsCapabilitySupported K E slotId then (ERR K TELEPHONY_SUCCESS, s, [])
      else if (slotId > MAX_SLOT_COUNT K + 1 \<or> slotId < -1) \<and> slotId \<noteq> DEFAULT_CONN_SLOT
      then (ERR K TELEPHONY_SUCCESS, s, [])
      else let (record, s) =
                 (case find_registration slotId msk tokenId pid (stateRecords_of s) of
                    Some r \<Rightarrow> (r, s)
                  | None \<Rightarrow>
                      let r = \<lparr>bundleName_of = bundleName, tokenId_of = tokenId, uid_of = uid,
                               pid_of = pid, mask_of = msk, slotId_of = slotId,
                               appIdentifier_of = appIdentifier,
                               telephonyObserver_of = telephonyObserver\<rparr>
                      in (r, s\<lparr>stateRecords_of := stateRecords_of s @ [r]\<rparr>));
               (s, es) = (if isUpdate then UpdateData K E record s else (s, []))
           in (ERR K TELEPHONY_SUCCESS, s, es))"

text \<open>The loop that erases the first record of the subscription; the flag tells if there was one.\<close>

fun erase_registration ::
    "int32 \<Rightarrow> uint32 \<Rightarrow> int32 \<Rightarrow> int32 \<Rightarrow> TelephonyStateRegistryRecord list \<Rightarrow>
     TelephonyStateRegistryRecord list \<times> bool" where
  "erase_registration slotId msk tokenId pid [] = ([], False)"
| "erase_registration slotId msk tokenId pid (r # rs) =
     (if is_registration slotId msk tokenId pid r then (rs, True)
      else let (rs', found) = erase_registration slotId msk tokenId pid rs in (r # rs', found))"

definition UnregisterStateChange ::
    "build \<Rightarrow> ('sig, 'cell, 'net) world \<Rightarrow> int32 \<Rightarrow> uint32 \<Rightarrow> int32 \<Rightarrow> int32 \<Rightarrow>
     ('sig, 'cell, 'net) service \<Rightarrow> ('sig, 'cell, 'net) outcome" where
  "UnregisterStateChange K E slotId msk tokenId pid s =
     (if \<not> CheckCallerIsSystemApp K E msk
      then (ERR K TELEPHONY_ERR_ILLEGAL_USE_OF_SYSTEM_API, s, [])
      else if \<not> CheckPermission_mask K E msk
      then (ERR K TELEPHONY_STATE_REGISTRY_PERMISSION_DENIED, s, [])
      else let (rs, found) = erase_registration slotId msk tokenId pid (stateRecords_of s)
           in (if found then ERR K TELEPHONY_SUCCESS
               else ERR K TELEPHONY_STATE_UNREGISTRY_DATA_NOT_EXIST,
               s\<lparr>stateRecords_of := rs\<rparr>, []))"

section \<open>What the immediate notification delivers\<close>

text \<open>The cached values of one slot, with the elements that \<^verbatim>\<open>operator[]\<close> would insert.\<close>

record ('sig, 'cell, 'net) snapshot =
  sn_call :: int32
  sn_number :: string16
  sn_signal :: "'sig option list"
  sn_network :: "'net option"
  sn_cell :: "'cell option list"
  sn_card :: int32
  sn_sim :: int32
  sn_reason :: int32
  sn_conn :: int32
  sn_conn_type :: int32
  sn_flow :: int32
  sn_cfu :: bool
  sn_mail :: bool
  sn_active :: bool

definition snapshot_of ::
    "int32 \<Rightarrow> ('sig, 'cell, 'net) service \<Rightarrow> ('sig, 'cell, 'net) snapshot" where
  "snapshot_of k s = \<lparr>sn_call = map_default (callState_of s) k 0,
     sn_number = map_default (callIncomingNumber_of s) k [],
     sn_signal = map_default (signalInfos_of s) k [],
     sn_network = map_default (searchNetworkState_of s) k None,
     sn_cell = map_default (cellInfos_of s) k [],
     sn_card = map_default (cardType_of s) k 0,
     sn_sim = map_default (simState_of s) k 0,
     sn_reason = map_default (simReason_of s) k 0,
     sn_conn = map_default (cellularDataConnectionState_of s) k 0,
     sn_conn_type = map_default (cellularDataConnectionNetworkType_of s) k 0,
     sn_flow = map_default (cellularDataFlow_of s) k 0,
     sn_cfu = map_default (cfuResult_of s) k False,
     sn_mail = map_default (voiceMailMsgResult_of s) k False,
     sn_active = map_default (simActiveResult_of s) k False\<rparr>"

text \<open>
  The calls a record gets at registration: one per kind of state in its mask, in a fixed order. The
  number in \<^verbatim>\<open>OnCallStateUpdated\<close> takes \<^verbatim>\<open>READ_CALL_LOG\<close>; the call with \<^verbatim>\<open>OnCCallStateUpdated\<close>, number
  included, takes \<^verbatim>\<open>MANAGE_CALL_FOR_DEVICES\<close> only, and turns the unknown call state into idle.
\<close>

definition entitled_calls ::
    "build \<Rightarrow> ('sig, 'cell, 'net) world \<Rightarrow> TelephonyStateRegistryRecord \<Rightarrow>
     ('sig, 'cell, 'net) snapshot \<Rightarrow> (observer_mask \<times> bool \<times> ('sig, 'cell, 'net) observer_call) list" where
  "entitled_calls K E r v =
     (let k = slotId_of r
      in [(M_CALL_STATE, True, OnCallStateUpdated k (sn_call v)
             (if IsCanReadCallHistory K E r then sn_number v else Str8ToStr16 E '''')),
          (M_SIGNAL_STRENGTHS, True, OnSignalInfoUpdated k (sn_signal v)),
          (M_NETWORK_STATE, True, OnNetworkStateUpdated k (sn_network v)),
          (M_CELL_INFO, True, OnCellInfoUpdated k (sn_cell v)),
          (M_SIM_STATE, True, OnSimStateUpdated k (sn_card v) (sn_sim v) (sn_reason v)),
          (M_DATA_CONNECTION_STATE, True,
             OnCellularDataConnectStateUpdated k (sn_conn v) (sn_conn_type v)),
          (M_DATA_FLOW, True, OnCellularDataFlowUpdated k (sn_flow v)),
          (M_CFU_INDICATOR, True, OnCfuIndicatorUpdated k (sn_cfu v)),
          (M_VOICE_MAIL_MSG_INDICATOR, True, OnVoiceMailMsgIndicatorUpdated k (sn_mail v)),
          (M_ICC_ACCOUNT, True, OnIccAccountUpdated),
          (M_CALL_STATE_EX, True, OnCallStateUpdatedEx k (sn_call v)),
          (M_CCALL_STATE, CanManageCallForDevices K E r,
             OnCCallStateUpdated k
               (if sn_call v = CallStatus_value CALL_STATUS_UNKNOWN
                then CallStatus_value CALL_STATUS_IDLE else sn_call v) (sn_number v)),
          (M_SIM_ACTIVE_STATE, True, OnSimActiveStateUpdated k (sn_active v))])"

definition snapshot_calls ::
    "build \<Rightarrow> ('sig, 'cell, 'net) world \<Rightarrow> TelephonyStateRegistryRecord \<Rightarrow>
     ('sig, 'cell, 'net) snapshot \<Rightarrow> ('sig, 'cell, 'net) observer_call list" where
  "snapshot_calls K E r v =
     concat (map (\<lambda>(m, b, c). if wants_mask K m r \<and> b then [c] else []) (entitled_calls K E r v))"

lemmas data_defs = data_call_state_def data_signal_info_def data_network_state_def
  data_cell_info_def data_sim_state_def data_connection_def data_flow_def data_cfu_def
  data_voice_mail_def data_icc_account_def data_call_state_ex_def data_ccall_state_def
  data_sim_active_def GetCallIncomingNumberForSlotId_def

text \<open>No step of the immediate notification changes what the next one sees, or the records.\<close>

definition keeps :: "int32 \<Rightarrow> ('sig, 'cell, 'net) action \<Rightarrow> bool" where
  "keeps k act \<longleftrightarrow> (\<forall>s. snapshot_of k (fst (act s)) = snapshot_of k s \<and>
     stateRecords_of (fst (act s)) = stateRecords_of s \<and> slotSize_of (fst (act s)) = slotSize_of s \<and>
     state_of (fst (act s)) = state_of s \<and> filled 0 (callState_of s) (callState_of (fst (act s))) \<and>
     filled [] (callIncomingNumber_of s) (callIncomingNumber_of (fst (act s))) \<and>
     filled 0 (simState_of s) (simState_of (fst (act s))))"

lemma keeps_skip [intro]: "keeps k skip"
  by (simp add: keeps_def)

lemma keeps_seq [intro]: "keeps k f \<Longrightarrow> keeps k g \<Longrightarrow> keeps k (seq f g)"
  unfolding keeps_def fst_seq
  by (intro allI conjI) (simp_all, (blast intro: filled_trans)+)

lemma keeps_if_mask [intro]: "keeps k act \<Longrightarrow> keeps k (if_mask K r m act)"
  by (auto simp: if_mask_def)

lemma keeps_data [intro]:
  "keeps (slotId_of r) (data_call_state K E r)" "keeps (slotId_of r) (data_signal_info r)"
  "keeps (slotId_of r) (data_network_state r)" "keeps (slotId_of r) (data_cell_info r)"
  "keeps (slotId_of r) (data_sim_state r)" "keeps (slotId_of r) (data_connection r)"
  "keeps (slotId_of r) (data_flow r)" "keeps (slotId_of r) (data_cfu r)"
  "keeps (slotId_of r) (data_voice_mail r)" "keeps (slotId_of r) (data_icc_account r)"
  "keeps (slotId_of r) (data_call_state_ex r)" "keeps (slotId_of r) (data_ccall_state K E r)"
  "keeps (slotId_of r) (data_sim_active r)"
  by (simp_all add: keeps_def data_defs snapshot_of_def case_prod_beta Let_def)

lemma keeps_UpdateDataEx: "keeps (slotId_of r) (UpdateDataEx K E r)"
  by (auto simp: UpdateDataEx_def)

lemma keeps_UpdateData: "keeps (slotId_of r) (UpdateData K E r)"
  by (simp add: UpdateData_def keeps_skip keeps_seq keeps_if_mask keeps_data keeps_UpdateDataEx)

lemma UpdateData_frame [frame_simps]:
  "stateRecords_of (fst (UpdateData K E r s)) = stateRecords_of s"
  "slotSize_of (fst (UpdateData K E r s)) = slotSize_of s"
  "state_of (fst (UpdateData K E r s)) = state_of s"
  "snapshot_of (slotId_of r) (fst (UpdateData K E r s)) = snapshot_of (slotId_of r) s"
  "filled 0 (callState_of s) (callState_of (fst (UpdateData K E r s)))"
  "filled [] (callIncomingNumber_of s) (callIncomingNumber_of (fst (UpdateData K E r s)))"
  "filled 0 (simState_of s) (simState_of (fst (UpdateData K E r s)))"
  using keeps_UpdateData [of r K E] by (simp_all add: keeps_def)

text \<open>An action gives calls that depend on the snapshot only.\<close>

definition gives ::
    "TelephonyStateRegistryRecord \<Rightarrow> ('sig, 'cell, 'net) action \<Rightarrow>
     (('sig, 'cell, 'net) snapshot \<Rightarrow> ('sig, 'cell, 'net) observer_call list) \<Rightarrow> bool" where
  "gives r act cs \<longleftrightarrow>
     (\<forall>s. snd (act s) = concat (map (call_observer r) (cs (snapshot_of (slotId_of r) s))))"

lemma gives_skip: "gives r skip (\<lambda>v. [])"
  by (simp add: gives_def)

lemma gives_seq:
  "keeps (slotId_of r) f \<Longrightarrow> gives r f a \<Longrightarrow> gives r g b \<Longrightarrow> gives r (seq f g) (\<lambda>v. a v @ b v)"
  by (simp add: gives_def keeps_def snd_seq)

lemma gives_if_mask:
  "gives r act (\<lambda>v. if b then [c v] else []) \<Longrightarrow>
   gives r (if_mask K r m act) (\<lambda>v. if wants_mask K m r \<and> b then [c v] else [])"
  by (simp add: gives_def if_mask_def wants_mask_def)

lemma gives_data:
  "gives r (data_call_state K E r) (\<lambda>v. if True then [OnCallStateUpdated (slotId_of r) (sn_call v)
     (if IsCanReadCallHistory K E r then sn_number v else Str8ToStr16 E '''')] else [])"
  "gives r (data_signal_info r) (\<lambda>v. if True then [OnSignalInfoUpdated (slotId_of r) (sn_signal v)] else [])"
  "gives r (data_network_state r) (\<lambda>v. if True then [OnNetworkStateUpdated (slotId_of r) (sn_network v)] else [])"
  "gives r (data_cell_info r) (\<lambda>v. if True then [OnCellInfoUpdated (slotId_of r) (sn_cell v)] else [])"
  "gives r (data_sim_state r) (\<lambda>v. if True then
     [OnSimStateUpdated (slotId_of r) (sn_card v) (sn_sim v) (sn_reason v)] else [])"
  "gives r (data_connection r) (\<lambda>v. if True then
     [OnCellularDataConnectStateUpdated (slotId_of r) (sn_conn v) (sn_conn_type v)] else [])"
  "gives r (data_flow r) (\<lambda>v. if True then [OnCellularDataFlowUpdated (slotId_of r) (sn_flow v)] else [])"
  "gives r (data_cfu r) (\<lambda>v. if True then [OnCfuIndicatorUpdated (slotId_of r) (sn_cfu v)] else [])"
  "gives r (data_voice_mail r) (\<lambda>v. if True then
     [OnVoiceMailMsgIndicatorUpdated (slotId_of r) (sn_mail v)] else [])"
  "gives r (data_icc_account r) (\<lambda>v. if True then [OnIccAccountUpdated] else [])"
  "gives r (data_call_state_ex r) (\<lambda>v. if True then [OnCallStateUpdatedEx (slotId_of r) (sn_call v)] else [])"
  "gives r (data_ccall_state K E r) (\<lambda>v. if CanManageCallForDevices K E r then
     [OnCCallStateUpdated (slotId_of r)
        (if sn_call v = CallStatus_value CALL_STATUS_UNKNOWN
         then CallStatus_value CALL_STATUS_IDLE else sn_call v) (sn_number v)] else [])"
  "gives r (data_sim_active r) (\<lambda>v. if True then [OnSimActiveStateUpdated (slotId_of r) (sn_active v)] else [])"
  by (simp_all add: gives_def data_defs snapshot_of_def case_prod_beta Let_def)

lemma gives_UpdateData:
  assumes "telephonyObserver_of r = Some ob"
  shows "gives r (UpdateData K E r) (snapshot_calls K E r)"
  unfolding UpdateData_def UpdateDataEx_def snapshot_calls_def entitled_calls_def
    Let_def list.map concat.simps prod.case append_Nil2
  using assms
  by (simp only: option.distinct if_False)
    (intro gives_seq gives_if_mask gives_data keeps_if_mask keeps_data)

text \<open>
  The immediate notification calls the record's observer once per kind of state in the mask,
  with the values cached for the slot.
\<close>

lemma UpdateData_calls:
  "snd (UpdateData K E r s) =
     (case telephonyObserver_of r of
        None \<Rightarrow> []
      | Some ob \<Rightarrow> map (Notify ob) (snapshot_calls K E r (snapshot_of (slotId_of r) s)))"
proof (cases "telephonyObserver_of r")
  case None
  then show ?thesis by (simp add: UpdateData_def)
next
  case (Some ob)
  have "concat (map (call_observer r) cs) = map (Notify ob) cs" for cs
    by (induction cs) (simp_all add: call_observer_def Some)
  with gives_UpdateData [OF Some, of K E] Some show ?thesis by (simp add: gives_def)
qed

section \<open>The registry as a map\<close>

text \<open>
  The interface of a registry of keyed entries: an accepted registration of a new key adds an
  entry, a registration of a present key leaves the entry as it is, a removal deletes the entry.
  The locale shows that any history of such operations acts like the corresponding history on a
  finite map.
\<close>

locale observer_registry =
  fixes lookup :: "'s \<Rightarrow> 'k \<Rightarrow> 'r option"
    and add :: "'k \<Rightarrow> 'x \<Rightarrow> 's \<Rightarrow> 's"
    and del :: "'k \<Rightarrow> 'y \<Rightarrow> 's \<Rightarrow> 's"
    and entry :: "'k \<Rightarrow> 'x \<Rightarrow> 'r"
    and may_add :: "'k \<Rightarrow> 'x \<Rightarrow> bool"
    and may_del :: "'k \<Rightarrow> 'y \<Rightarrow> bool"
    and inv :: "'s \<Rightarrow> bool"
  assumes lookup_add: "inv s \<Longrightarrow> lookup (add k x s) j =
      (if j = k \<and> may_add k x \<and> lookup s k = None then Some (entry k x) else lookup s j)"
    and lookup_del: "inv s \<Longrightarrow> lookup (del k y s) j =
      (if j = k \<and> may_del k y then None else lookup s j)"
    and inv_add: "inv s \<Longrightarrow> inv (add k x s)"
    and inv_del: "inv s \<Longrightarrow> inv (del k y s)"
begin

lemma lookup_history:
  assumes "inv s"
  shows "inv (fold (case_sum (\<lambda>(k, x). add k x) (\<lambda>(k, y). del k y)) ops s)"
    and "lookup (fold (case_sum (\<lambda>(k, x). add k x) (\<lambda>(k, y). del k y)) ops s) =
      fold (case_sum (\<lambda>(k, x) m. if may_add k x \<and> m k = None then m(k \<mapsto> entry k x) else m)
                     (\<lambda>(k, y) m. if may_del k y then m(k := None) else m)) ops (lookup s)"
  using assms
proof (induction ops arbitrary: s)
  case Nil
  { case 1 then show ?case by simp }
  { case 2 then show ?case by simp }
next
  case (Cons op ops)
  have inv: "inv (case_sum (\<lambda>(k, x). add k x) (\<lambda>(k, y). del k y) op s)" if "inv s" for s
    using that by (cases op) (auto simp: inv_add inv_del)
  { case 1
    from Cons(1) [OF inv [OF 1]] show ?case by simp }
  { case 2
    then have "lookup (case_sum (\<lambda>(k, x). add k x) (\<lambda>(k, y). del k y) op s) =
        case_sum (\<lambda>(k, x) m. if may_add k x \<and> m k = None then m(k \<mapsto> entry k x) else m)
                 (\<lambda>(k, y) m. if may_del k y then m(k := None) else m) op (lookup s)"
      by (cases op) (auto simp: lookup_add lookup_del fun_eq_iff)
    with Cons(2) [OF inv [OF 2]] show ?case by simp }
qed

lemma register_twice:
  assumes "inv s"
  shows "lookup (add k x (add k x s)) = lookup (add k x s)"
proof
  show "lookup (add k x (add k x s)) j = lookup (add k x s) j" for j
    using assms by (auto simp: lookup_add inv_add)
qed

lemma replace:
  assumes "inv s" and "may_add k x" and "may_del k y"
  shows "lookup (add k x (del k y s)) k = Some (entry k x)"
  using assms by (simp add: lookup_add lookup_del inv_del)

end

type_synonym reg_key = "int32 \<times> uint32 \<times> int32 \<times> int32"

definition key_of :: "TelephonyStateRegistryRecord \<Rightarrow> reg_key" where
  "key_of r = (slotId_of r, mask_of r, tokenId_of r, pid_of r)"

definition slot_in_range :: "build \<Rightarrow> int32 \<Rightarrow> bool" where
  "slot_in_range K slotId \<longleftrightarrow>
     (-1 \<le> slotId \<and> slotId \<le> MAX_SLOT_COUNT K + 1) \<or> slotId = DEFAULT_CONN_SLOT"

text \<open>The invariant of the records: one per key, and only for slots the service knows.\<close>

definition registry_ok :: "build \<Rightarrow> ('sig, 'cell, 'net) service \<Rightarrow> bool" where
  "registry_ok K s \<longleftrightarrow> distinct (map key_of (stateRecords_of s)) \<and>
     (\<forall>r \<in> set (stateRecords_of s). slot_in_range K (slotId_of r))"

definition may_register :: "build \<Rightarrow> ('sig, 'cell, 'net) world \<Rightarrow> int32 \<Rightarrow> uint32 \<Rightarrow> bool" where
  "may_register K E slotId msk \<longleftrightarrow> CheckCallerIsSystemApp K E msk \<and> CheckPermission_mask K E msk \<and>
     IsMultiSimsCapabilitySupported K E slotId \<and> slot_in_range K slotId"

definition may_unregister :: "build \<Rightarrow> ('sig, 'cell, 'net) world \<Rightarrow> uint32 \<Rightarrow> bool" where
  "may_unregister K E msk \<longleftrightarrow> CheckCallerIsSystemApp K E msk \<and> CheckPermission_mask K E msk"

definition registered :: "('sig, 'cell, 'net) service \<Rightarrow> reg_key \<Rightarrow> TelephonyStateRegistryRecord option" where
  "registered s = (\<lambda>(slotId, msk, tokenId, pid).
     find_registration slotId msk tokenId pid (stateRecords_of s))"

fun new_record :: "reg_key \<Rightarrow> observer option \<times> string \<times> int32 \<times> string \<Rightarrow> TelephonyStateRegistryRecord" where
  "new_record (slotId, msk, tokenId, pid) (ob, bundleName, uid, appIdentifier) =
     \<lparr>bundleName_of = bundleName, tokenId_of = tokenId, uid_of = uid, pid_of = pid, mask_of = msk,
      slotId_of = slotId, appIdentifier_of = appIdentifier, telephonyObserver_of = ob\<rparr>"

lemma is_registration_key: "is_registration slotId msk tokenId pid r \<longleftrightarrow> key_of r = (slotId, msk, tokenId, pid)"
  by (auto simp: is_registration_def key_of_def)

lemma find_registration_eq:
  "find_registration slotId msk tokenId pid rs = List.find (\<lambda>r. key_of r = (slotId, msk, tokenId, pid)) rs"
  by (induction rs) (simp_all add: is_registration_key)

lemma registered_eq: "registered s k = List.find (\<lambda>r. key_of r = k) (stateRecords_of s)"
  by (cases k) (simp add: registered_def find_registration_eq)

lemma find_append: "List.find P (xs @ ys) = (case List.find P xs of None \<Rightarrow> List.find P ys | Some x \<Rightarrow> Some x)"
  by (induction xs) simp_all

lemma erase_registration_eq:
  "erase_registration slotId msk tokenId pid rs =
     (let k = (slotId, msk, tokenId, pid)
      in (takeWhile (\<lambda>r. key_of r \<noteq> k) rs @ tl (dropWhile (\<lambda>r. key_of r \<noteq> k) rs),
          \<exists>r \<in> set rs. key_of r = k))"
  by (induction rs) (auto simp: is_registration_key Let_def)

lemma erase_distinct:
  assumes "distinct (map key_of rs)"
  shows "fst (erase_registration slotId msk tokenId pid rs) =
    filter (\<lambda>r. key_of r \<noteq> (slotId, msk, tokenId, pid)) rs"
  using assms
proof (induction rs)
  case Nil
  show ?case by simp
next
  case (Cons r rs)
  show ?case
  proof (cases "key_of r = (slotId, msk, tokenId, pid)")
    case True
    with Cons.prems have "\<forall>x \<in> set rs. key_of x \<noteq> (slotId, msk, tokenId, pid)" by force
    with True show ?thesis by (simp add: is_registration_key)
  next
    case False
    with Cons show ?thesis by (simp add: is_registration_key case_prod_beta)
  qed
qed

section \<open>Register and unregister implement the map\<close>

text \<open>The whole behaviour of a registration, with the record of the key in one place.\<close>

lemma RegisterStateChange_eq:
  "RegisterStateChange K E ob slotId msk bundleName isUpdate pid uid tokenId app s =
     (if \<not> CheckCallerIsSystemApp K E msk then (ERR K TELEPHONY_ERR_ILLEGAL_USE_OF_SYSTEM_API, s, [])
      else if \<not> CheckPermission_mask K E msk
      then (ERR K TELEPHONY_STATE_REGISTRY_PERMISSION_DENIED, s, [])
      else if \<not> may_register K E slotId msk then (ERR K TELEPHONY_SUCCESS, s, [])
      else let k = (slotId, msk, tokenId, pid);
               r = new_record k (ob, bundleName, uid, app);
               s1 = (if registered s k = None then s\<lparr>stateRecords_of := stateRecords_of s @ [r]\<rparr> else s);
               r1 = (case registered s k of None \<Rightarrow> r | Some r0 \<Rightarrow> r0)
           in (ERR K TELEPHONY_SUCCESS,
               if isUpdate then UpdateData K E r1 s1 else (s1, [])))"
proof (cases "CheckCallerIsSystemApp K E msk \<and> CheckPermission_mask K E msk")
  case True
  have range: "((slotId > MAX_SLOT_COUNT K + 1 \<or> slotId < -1) \<and> slotId \<noteq> DEFAULT_CONN_SLOT) =
      (\<not> slot_in_range K slotId)"
    by (auto simp: slot_in_range_def)
  show ?thesis
    using True unfolding RegisterStateChange_def may_register_def range
    by (cases "registered s (slotId, msk, tokenId, pid)") (simp_all add: registered_def Let_def)
next
  case False
  then show ?thesis by (auto simp: RegisterStateChange_def)
qed

lemma UnregisterStateChange_eq:
  assumes "registry_ok K s"
  shows "UnregisterStateChange K E slotId msk tokenId pid s =
     (if \<not> CheckCallerIsSystemApp K E msk then (ERR K TELEPHONY_ERR_ILLEGAL_USE_OF_SYSTEM_API, s, [])
      else if \<not> CheckPermission_mask K E msk
      then (ERR K TELEPHONY_STATE_REGISTRY_PERMISSION_DENIED, s, [])
      else let k = (slotId, msk, tokenId, pid)
           in (if registered s k = None then ERR K TELEPHONY_STATE_UNREGISTRY_DATA_NOT_EXIST
               else ERR K TELEPHONY_SUCCESS,
               s\<lparr>stateRecords_of := filter (\<lambda>r. key_of r \<noteq> k) (stateRecords_of s)\<rparr>, []))"
proof -
  from assms have "distinct (map key_of (stateRecords_of s))" by (simp add: registry_ok_def)
  from erase_distinct [OF this, of slotId msk tokenId pid]
  have "erase_registration slotId msk tokenId pid (stateRecords_of s) =
      (filter (\<lambda>r. key_of r \<noteq> (slotId, msk, tokenId, pid)) (stateRecords_of s),
       registered s (slotId, msk, tokenId, pid) \<noteq> None)"
    by (auto simp: erase_registration_eq Let_def registered_eq find_None_iff)
  then show ?thesis by (auto simp: UnregisterStateChange_def Let_def)
qed

definition register_key ::
    "build \<Rightarrow> ('sig, 'cell, 'net) world \<Rightarrow> bool \<Rightarrow> reg_key \<Rightarrow> observer option \<times> string \<times> int32 \<times> string \<Rightarrow>
     ('sig, 'cell, 'net) service \<Rightarrow> ('sig, 'cell, 'net) service" where
  "register_key K E isUpdate = (\<lambda>(slotId, msk, tokenId, pid) (ob, bundleName, uid, app) s.
     fst (snd (RegisterStateChange K E ob slotId msk bundleName isUpdate pid uid tokenId app s)))"

definition unregister_key ::
    "build \<Rightarrow> ('sig, 'cell, 'net) world \<Rightarrow> reg_key \<Rightarrow> ('sig, 'cell, 'net) service \<Rightarrow>
     ('sig, 'cell, 'net) service" where
  "unregister_key K E = (\<lambda>(slotId, msk, tokenId, pid) s.
     fst (snd (UnregisterStateChange K E slotId msk tokenId pid s)))"

lemma key_of_new_record [simp]: "key_of (new_record k x) = k"
  by (cases k; cases x) (simp add: key_of_def)

lemma slotId_of_new_record [simp]: "slotId_of (new_record k x) = fst k"
  by (cases k; cases x) simp

lemma records_register_key:
  "stateRecords_of (register_key K E isUpdate k x s) =
     stateRecords_of s @
       (if may_register K E (fst k) (fst (snd k)) \<and> registered s k = None then [new_record k x] else [])"
  by (cases k; cases x)
    (auto simp: register_key_def RegisterStateChange_eq may_register_def Let_def frame_simps)

lemma records_unregister_key:
  assumes "registry_ok K s"
  shows "stateRecords_of (unregister_key K E k s) =
     (if may_unregister K E (fst (snd k)) then filter (\<lambda>r. key_of r \<noteq> k) (stateRecords_of s)
      else stateRecords_of s)"
  using assms
  by (cases k) (auto simp: unregister_key_def UnregisterStateChange_eq may_unregister_def Let_def)

lemma registered_None_iff: "registered s k = None \<longleftrightarrow> k \<notin> key_of ` set (stateRecords_of s)"
  by (auto simp: registered_eq find_None_iff)

lemma registered_SomeD: "registered s k = Some r \<Longrightarrow> r \<in> set (stateRecords_of s) \<and> key_of r = k"
  by (auto simp: registered_eq find_Some_iff)

lemma find_filter_key:
  "List.find (\<lambda>r. key_of r = j) (filter (\<lambda>r. key_of r \<noteq> k) rs) =
     (if j = k then None else List.find (\<lambda>r. key_of r = j) rs)"
  by (induction rs) auto

lemma registry_ok_register:
  assumes "registry_ok K s"
  shows "registry_ok K (register_key K E isUpdate k x s)"
  using assms
  by (auto simp: registry_ok_def records_register_key may_register_def registered_None_iff)

lemma registry_ok_unregister:
  assumes "registry_ok K s"
  shows "registry_ok K (unregister_key K E k s)"
  using assms records_unregister_key [OF assms, of E k]
  by (auto simp: registry_ok_def distinct_map_filter)

text \<open>
  The requests of a history carry the state of the system at their time: \<open>x\<close> is the world of the
  registration, its flag for the immediate notification and the data of the record.
\<close>

interpretation reg: observer_registry registered
  "\<lambda>k (E, isUpdate, x). register_key K E isUpdate k x" "\<lambda>k E. unregister_key K E k"
  "\<lambda>k (E, isUpdate, x). new_record k x"
  "\<lambda>k (E, isUpdate, x). may_register K E (fst k) (fst (snd k))"
  "\<lambda>k E. may_unregister K E (fst (snd k))" "registry_ok K"
  for K
proof
  fix s :: "('a, 'b, 'c) service" and k j and E :: "('a, 'b, 'c) world"
    and X :: "('a, 'b, 'c) world \<times> bool \<times> observer option \<times> string \<times> int32 \<times> string"
  obtain E' isUpdate x where X: "X = (E', isUpdate, x)" by (cases X)
  assume ok: "registry_ok K s"
  show "registered ((case X of (E, isUpdate, x) \<Rightarrow> register_key K E isUpdate k x) s) j =
      (if j = k \<and> (case X of (E, isUpdate, x) \<Rightarrow> may_register K E (fst k) (fst (snd k))) \<and>
          registered s k = None
       then Some (case X of (E, isUpdate, x) \<Rightarrow> new_record k x) else registered s j)"
    unfolding registered_eq X split_conv records_register_key
    by (auto simp: find_append split: option.split)
  show "registered (unregister_key K E k s) j =
      (if j = k \<and> may_unregister K E (fst (snd k)) then None else registered s j)"
    by (simp add: registered_eq records_unregister_key [OF ok] find_filter_key)
  show "registry_ok K ((case X of (E, isUpdate, x) \<Rightarrow> register_key K E isUpdate k x) s)"
    using registry_ok_register [OF ok] by (simp add: X)
  show "registry_ok K (unregister_key K E k s)"
    using registry_ok_unregister [OF ok] .
qed

end
