(* ===== verification/Service_System.thy ===== *)
theory Service_System
  imports Service_Registry
begin

text \<open>
  The service under concurrent requests. Every request runs in a thread of its own; the lock
  makes a critical section atomic, and an update has two of them, so other requests may run
  between the write of the cache and the notification of the observers. The step relation has
  one rule per critical section; invariants are proved by induction over the runs.
\<close>

section \<open>Requests\<close>

datatype ('sig, 'cell, 'net) update =
    UDataConnect int32 int32 int32
  | UDataFlow int32 int32
  | UCall int32 string16
  | UCallSlot int32 int32 string16
  | USim int32 int32 int32 int32
  | USignal int32 "'sig option list"
  | UCell int32 "'cell option list"
  | UNetwork int32 "'net option"
  | UCfu int32 bool
  | UVoiceMail int32 bool
  | USimActive int32 bool
  | UIccAccount
  | UVoIP VoIPCallStateInfo

fun update_slot :: "('sig, 'cell, 'net) update \<Rightarrow> int32 option" where
  "update_slot (UDataConnect k _ _) = Some k"
| "update_slot (UDataFlow k _) = Some k"
| "update_slot (UCall _ _) = None"
| "update_slot (UCallSlot k _ _) = Some k"
| "update_slot (USim k _ _ _) = Some k"
| "update_slot (USignal k _) = Some k"
| "update_slot (UCell k _) = Some k"
| "update_slot (UNetwork k _) = Some k"
| "update_slot (UCfu k _) = Some k"
| "update_slot (UVoiceMail k _) = Some k"
| "update_slot (USimActive k _) = Some k"
| "update_slot UIccAccount = None"
| "update_slot (UVoIP _) = None"

definition update_allowed ::
    "('sig, 'cell, 'net) world \<Rightarrow> ('sig, 'cell, 'net) update \<Rightarrow> bool" where
  "update_allowed E u \<longleftrightarrow> CheckPermission E SET_TELEPHONY_STATE \<and>
     (case u of UCell _ _ \<Rightarrow> CheckPermission E CELL_LOCATION | _ \<Rightarrow> True)"

fun update_write ::
    "('sig, 'cell, 'net) world \<Rightarrow> ('sig, 'cell, 'net) update \<Rightarrow> ('sig, 'cell, 'net) service \<Rightarrow>
     ('sig, 'cell, 'net) service" where
  "update_write E (UDataConnect k st type) = UpdateCellularDataConnectState_write k st type"
| "update_write E (UDataFlow k v) = UpdateCellularDataFlow_write k v"
| "update_write E (UCall st number) = UpdateCallState_write st number"
| "update_write E (UCallSlot k st number) = UpdateCallStateForSlotId_write k st number"
| "update_write E (USim k type st reason) = UpdateSimState_write k type st reason"
| "update_write E (USignal k v) = UpdateSignalInfo_write k v"
| "update_write E (UCell k v) = UpdateCellInfo_write k v"
| "update_write E (UNetwork k v) = UpdateNetworkState_write E k v"
| "update_write E (UCfu k v) = UpdateCfuIndicator_write k v"
| "update_write E (UVoiceMail k v) = UpdateVoiceMailMsgIndicator_write k v"
| "update_write E (USimActive k v) = UpdateSimActiveState_write k v"
| "update_write E UIccAccount = (\<lambda>s. s)"
| "update_write E (UVoIP info) = (\<lambda>s. s)"

fun update_notify ::
    "build \<Rightarrow> ('sig, 'cell, 'net) world \<Rightarrow> ('sig, 'cell, 'net) update \<Rightarrow>
     ('sig, 'cell, 'net) service \<Rightarrow> ('sig, 'cell, 'net) loop" where
  "update_notify K E (UDataConnect k st type) s = UpdateCellularDataConnectState_notify K E k st type s"
| "update_notify K E (UDataFlow k v) s = UpdateCellularDataFlow_notify K k v s"
| "update_notify K E (UCall st number) s = UpdateCallState_notify K E st number s"
| "update_notify K E (UCallSlot k st number) s = UpdateCallStateForSlotId_notify K E k st number s"
| "update_notify K E (USim k type st reason) s = UpdateSimState_notify K k type st reason s"
| "update_notify K E (USignal k v) s = UpdateSignalInfo_notify K E k v s"
| "update_notify K E (UCell k v) s = UpdateCellInfo_notify K E k v s"
| "update_notify K E (UNetwork k v) s = UpdateNetworkState_notify K E k v s"
| "update_notify K E (UCfu k v) s = UpdateCfuIndicator_notify K k v s"
| "update_notify K E (UVoiceMail k v) s = UpdateVoiceMailMsgIndicator_notify K k v s"
| "update_notify K E (USimActive k v) s = UpdateSimActiveState_notify K k v s"
| "update_notify K E UIccAccount s =
     for_each (UpdateIccAccount_body K) (stateRecords_of s)
       (ERR K TELEPHONY_STATE_REGISTRY_DATA_NOT_EXIST, [])"
| "update_notify K E (UVoIP info) s =
     for_each (UpdateVoIPCallState_body K E info) (stateRecords_of s)
       (ERR K TELEPHONY_STATE_REGISTRY_DATA_NOT_EXIST, [])"

text \<open>The whole operation, as the source has it.\<close>

fun run_update ::
    "build \<Rightarrow> ('sig, 'cell, 'net) world \<Rightarrow> ('sig, 'cell, 'net) update \<Rightarrow>
     ('sig, 'cell, 'net) service \<Rightarrow> ('sig, 'cell, 'net) outcome" where
  "run_update K E (UDataConnect k st type) s = UpdateCellularDataConnectState K E k st type s"
| "run_update K E (UDataFlow k v) s = UpdateCellularDataFlow K E k v s"
| "run_update K E (UCall st number) s = UpdateCallState K E st number s"
| "run_update K E (UCallSlot k st number) s = UpdateCallStateForSlotId K E k st number s"
| "run_update K E (USim k type st reason) s = UpdateSimState K E k type st reason s"
| "run_update K E (USignal k v) s = UpdateSignalInfo K E k v s"
| "run_update K E (UCell k v) s = UpdateCellInfo K E k v s"
| "run_update K E (UNetwork k v) s = UpdateNetworkState K E k v s"
| "run_update K E (UCfu k v) s = UpdateCfuIndicator K E k v s"
| "run_update K E (UVoiceMail k v) s = UpdateVoiceMailMsgIndicator K E k v s"
| "run_update K E (USimActive k v) s = UpdateSimActiveState K E k v s"
| "run_update K E UIccAccount s = UpdateIccAccount K E s"
| "run_update K E (UVoIP info) s = UpdateVoIPCallState K E info s"

record registration =
  rq_observer :: "observer option"
  rq_key :: reg_key
  rq_bundleName :: string
  rq_isUpdate :: bool
  rq_uid :: int32
  rq_appIdentifier :: string

definition run_register ::
    "build \<Rightarrow> ('sig, 'cell, 'net) world \<Rightarrow> registration \<Rightarrow> ('sig, 'cell, 'net) service \<Rightarrow>
     ('sig, 'cell, 'net) outcome" where
  "run_register K E q s = (case rq_key q of (slotId, msk, tokenId, pid) \<Rightarrow>
     RegisterStateChange K E (rq_observer q) slotId msk (rq_bundleName q) (rq_isUpdate q) pid
       (rq_uid q) tokenId (rq_appIdentifier q) s)"

definition run_unregister ::
    "build \<Rightarrow> ('sig, 'cell, 'net) world \<Rightarrow> reg_key \<Rightarrow> ('sig, 'cell, 'net) service \<Rightarrow>
     ('sig, 'cell, 'net) outcome" where
  "run_unregister K E k s = (case k of (slotId, msk, tokenId, pid) \<Rightarrow>
     UnregisterStateChange K E slotId msk tokenId pid s)"

section \<open>Steps and runs\<close>

text \<open>
  The state of the system: the service, and the updates whose notification section has yet to
  run. An event tells what a step did and carries the effects.
\<close>

record ('sig, 'cell, 'net) sys =
  svc :: "('sig, 'cell, 'net) service"
  pend :: "(('sig, 'cell, 'net) world \<times> ('sig, 'cell, 'net) update) list"

datatype ('sig, 'cell, 'net) event =
    Registered "('sig, 'cell, 'net) world" registration int32 "('sig, 'cell, 'net) effect list"
  | Unregistered "('sig, 'cell, 'net) world" reg_key int32
  | Wrote "('sig, 'cell, 'net) world" "('sig, 'cell, 'net) update"
  | Rejected "('sig, 'cell, 'net) world" "('sig, 'cell, 'net) update" int32
  | Notified "('sig, 'cell, 'net) world" "('sig, 'cell, 'net) update" int32
      "('sig, 'cell, 'net) effect list"

definition slot_verified :: "('sig, 'cell, 'net) service \<Rightarrow> ('sig, 'cell, 'net) update \<Rightarrow> bool" where
  "slot_verified s u = (case update_slot u of None \<Rightarrow> True | Some k \<Rightarrow> VerifySlotId s k)"

inductive step ::
    "build \<Rightarrow> ('sig, 'cell, 'net) sys \<Rightarrow> ('sig, 'cell, 'net) event \<Rightarrow> ('sig, 'cell, 'net) sys \<Rightarrow> bool"
  for K where
  register: "run_register K E q (svc x) = (res, s', es) \<Longrightarrow>
     step K x (Registered E q res es) (x\<lparr>svc := s'\<rparr>)"
| unregister: "run_unregister K E k (svc x) = (res, s', []) \<Longrightarrow>
     step K x (Unregistered E k res) (x\<lparr>svc := s'\<rparr>)"
| reject: "\<not> (slot_verified (svc x) u \<and> update_allowed E u) \<Longrightarrow>
     run_update K E u (svc x) = (res, s', []) \<Longrightarrow>
     step K x (Rejected E u res) (x\<lparr>svc := s'\<rparr>)"
| begin_update: "slot_verified (svc x) u \<Longrightarrow> update_allowed E u \<Longrightarrow>
     step K x (Wrote E u) (x\<lparr>svc := update_write E u (svc x), pend := pend x @ [(E, u)]\<rparr>)"
| finish_update: "pend x = ps @ (E, u) # qs \<Longrightarrow> update_notify K E u (svc x) = (res, es) \<Longrightarrow>
     step K x (Notified E u res es) (x\<lparr>pend := ps @ qs\<rparr>)"

definition start_system :: "build \<Rightarrow> ('sig, 'cell, 'net) sys" where
  "start_system K = \<lparr>svc = construct_service K, pend = []\<rparr>"

inductive run :: "build \<Rightarrow> ('sig, 'cell, 'net) event list \<Rightarrow> ('sig, 'cell, 'net) sys \<Rightarrow> bool"
  for K where
  run_start: "run K [] (start_system K)"
| run_step: "run K tr x \<Longrightarrow> step K x ev y \<Longrightarrow> run K (tr @ [ev]) y"

inductive_cases stepE: "step K x ev y"
inductive_simps step_simps:
  "step K x (Registered E q res es) y" "step K x (Unregistered E k res) y"
  "step K x (Rejected E u res) y" "step K x (Wrote E u) y" "step K x (Notified E u res es) y"

fun event_effects :: "('sig, 'cell, 'net) event \<Rightarrow> ('sig, 'cell, 'net) effect list" where
  "event_effects (Registered E q res es) = es"
| "event_effects (Unregistered E k res) = []"
| "event_effects (Wrote E u) = []"
| "event_effects (Rejected E u res) = []"
| "event_effects (Notified E u res es) = es"

fun event_world :: "('sig, 'cell, 'net) event \<Rightarrow> ('sig, 'cell, 'net) world" where
  "event_world (Registered E q res es) = E"
| "event_world (Unregistered E k res) = E"
| "event_world (Wrote E u) = E"
| "event_world (Rejected E u res) = E"
| "event_world (Notified E u res es) = E"

section \<open>What a notification section does\<close>

text \<open>
  \<open>update_want\<close> is the call a record is entitled to when the notification section runs in the
  state \<open>s\<close>, \<open>update_events\<close> what is published afterwards.
\<close>

fun update_want ::
    "build \<Rightarrow> ('sig, 'cell, 'net) world \<Rightarrow> ('sig, 'cell, 'net) service \<Rightarrow>
     ('sig, 'cell, 'net) update \<Rightarrow> TelephonyStateRegistryRecord \<Rightarrow>
     ('sig, 'cell, 'net) observer_call option" where
  "update_want K E s (UDataConnect k st type) = want_conn K M_DATA_CONNECTION_STATE k
     (\<lambda>r. OnCellularDataConnectStateUpdated k st
        (ext_or (\<lambda>h. h k r type) (onCellularDataConnectStateUpdated_of (EXT E)) type))"
| "update_want K E s (UDataFlow k v) = want_conn K M_DATA_FLOW k (\<lambda>r. OnCellularDataFlowUpdated k v)"
| "update_want K E s (UCall st number) = want_call K E (-1) st number number"
| "update_want K E s (UCallSlot k st number) =
     want_call K E k st (map_default (callIncomingNumber_of s) k []) number"
| "update_want K E s (USim k type st reason) =
     want_slot K M_SIM_STATE k (\<lambda>r. OnSimStateUpdated k type st reason)"
| "update_want K E s (USignal k v) = want_slot K M_SIGNAL_STRENGTHS k
     (\<lambda>r. OnSignalInfoUpdated k (ext_or (\<lambda>h. h k r v) (onSignalInfoUpdated_of (EXT E)) v))"
| "update_want K E s (UCell k v) = want_slot K M_CELL_INFO k
     (\<lambda>r. OnCellInfoUpdated k (ext_or (\<lambda>h. h k r v) (onCellInfoUpdated_of (EXT E)) v))"
| "update_want K E s (UNetwork k v) = (\<lambda>r. Option.bind v (\<lambda>ns. want_slot K M_NETWORK_STATE k
     (\<lambda>r. OnNetworkStateUpdated k (Some
        (ext_or (\<lambda>h. h k r (NetworkRemarshal E ns) ns) (onNetworkStateUpdated_of (EXT E)) ns))) r))"
| "update_want K E s (UCfu k v) = want_slot K M_CFU_INDICATOR k (\<lambda>r. OnCfuIndicatorUpdated k v)"
| "update_want K E s (UVoiceMail k v) =
     want_slot K M_VOICE_MAIL_MSG_INDICATOR k (\<lambda>r. OnVoiceMailMsgIndicatorUpdated k v)"
| "update_want K E s (USimActive k v) =
     want_slot K M_SIM_ACTIVE_STATE k (\<lambda>r. OnSimActiveStateUpdated k v)"
| "update_want K E s UIccAccount = (\<lambda>r. want_if (wants_mask K M_ICC_ACCOUNT r) OnIccAccountUpdated)"
| "update_want K E s (UVoIP info) = (\<lambda>r.
     want_if (wants_mask K M_VOIP_CALL_STATE r \<and> CanManageCallForDevices K E r) (OnVoIPStateUpdated info))"

fun update_events ::
    "('sig, 'cell, 'net) world \<Rightarrow> ('sig, 'cell, 'net) update \<Rightarrow> ('sig, 'cell, 'net) effect list" where
  "update_events E (UDataConnect k st type) = SendCellularDataConnectStateChanged k st type"
| "update_events E (UCall st number) = SendCallStateChanged (-1) st @
     SendCallStateChangedAsUserMultiplePermission E (-1) st number"
| "update_events E (UCallSlot k st number) = SendCallStateChanged k st @
     SendCallStateChangedAsUserMultiplePermission E k st number"
| "update_events E (USim k type st reason) = SendSimStateChanged k type st reason"
| "update_events E (USignal k v) = SendSignalInfoChanged E k v"
| "update_events E (UNetwork k v) = SendNetworkStateChanged E k v"
| "update_events E (UDataFlow k v) = []"
| "update_events E (UCell k v) = []"
| "update_events E (UCfu k v) = []"
| "update_events E (UVoiceMail k v) = []"
| "update_events E (USimActive k v) = []"
| "update_events E UIccAccount = []"
| "update_events E (UVoIP info) = []"

lemmas notify_defs = UpdateCellularDataConnectState_notify_def UpdateCellularDataFlow_notify_def
  UpdateCallState_notify_def UpdateCallStateForSlotId_notify_def UpdateSimState_notify_def
  UpdateSignalInfo_notify_def UpdateCellInfo_notify_def UpdateNetworkState_notify_def
  UpdateCfuIndicator_notify_def UpdateVoiceMailMsgIndicator_notify_def UpdateSimActiveState_notify_def

lemmas update_defs = UpdateCellularDataConnectState_def UpdateCellularDataFlow_def
  UpdateCallState_def UpdateCallStateForSlotId_def UpdateSimState_def
  UpdateSignalInfo_def UpdateCellInfo_def UpdateNetworkState_def UpdateIccAccount_def
  UpdateVoIPCallState_def UpdateCfuIndicator_def UpdateVoiceMailMsgIndicator_def
  UpdateSimActiveState_def

lemmas loops_eq = dataConn.loop_eq dataFlow.loop_eq callAll.loop_eq callSlot.loop_eq sim.loop_eq
  signalInfo.loop_eq UpdateCellInfo_loop_eq network.loop_eq cfu.loop_eq account.loop_eq
  voiceMail.loop_eq simActive.loop_eq voip.loop_eq

lemma update_notify_eq:
  "update_notify K E u s =
     (let ds = deliveries (update_want K E s u) (stateRecords_of s)
      in (if ds = [] then ERR K TELEPHONY_STATE_REGISTRY_DATA_NOT_EXIST else ERR K TELEPHONY_SUCCESS,
          ds @ update_events E u))"
  by (cases u) (simp_all add: notify_defs loops_eq deliveries_def Let_def)

text \<open>Run without interruption, the two sections are the whole operation.\<close>

lemma run_update_sections:
  assumes "slot_verified s u" and "update_allowed E u"
  shows "run_update K E u s =
    (let s' = update_write E u s; (res, es) = update_notify K E u s' in (res, s', es))"
  using assms
  by (cases u) (simp_all add: update_defs slot_verified_def update_allowed_def Let_def)

lemma run_update_rejected:
  assumes "\<not> (slot_verified s u \<and> update_allowed E u)"
  shows "run_update K E u s =
    (if \<not> slot_verified s u then ERR K TELEPHONY_STATE_REGISTRY_SLODID_ERROR
     else ERR K TELEPHONY_STATE_REGISTRY_PERMISSION_DENIED, s, [])"
  using assms
  by (cases u) (auto simp: update_defs slot_verified_def update_allowed_def)

lemma update_write_frame [frame_simps]:
  "stateRecords_of (update_write E u s) = stateRecords_of s"
  "slotSize_of (update_write E u s) = slotSize_of s"
  "state_of (update_write E u s) = state_of s"
  "dom (callState_of s) \<subseteq> dom (callState_of (update_write E u s))"
  "dom (callIncomingNumber_of s) \<subseteq> dom (callIncomingNumber_of (update_write E u s))"
  by (cases u; auto simp: write_defs Let_def)+

text \<open>The specification of all updates in one equation.\<close>

lemma run_update_eq:
  "run_update K E u s =
     (if \<not> slot_verified s u then (ERR K TELEPHONY_STATE_REGISTRY_SLODID_ERROR, s, [])
      else if \<not> update_allowed E u then (ERR K TELEPHONY_STATE_REGISTRY_PERMISSION_DENIED, s, [])
      else let s' = update_write E u s; calls = deliveries (update_want K E s' u) (stateRecords_of s)
           in (if calls = [] then ERR K TELEPHONY_STATE_REGISTRY_DATA_NOT_EXIST else ERR K TELEPHONY_SUCCESS,
               s', calls @ update_events E u))"
  by (auto simp: run_update_sections run_update_rejected update_notify_eq Let_def frame_simps)

section \<open>Who may be called with what\<close>

fun kind_of_call :: "('sig, 'cell, 'net) observer_call \<Rightarrow> observer_mask" where
  "kind_of_call (OnCallStateUpdated _ _ _) = M_CALL_STATE"
| "kind_of_call (OnSignalInfoUpdated _ _) = M_SIGNAL_STRENGTHS"
| "kind_of_call (OnNetworkStateUpdated _ _) = M_NETWORK_STATE"
| "kind_of_call (OnCellInfoUpdated _ _) = M_CELL_INFO"
| "kind_of_call (OnSimStateUpdated _ _ _ _) = M_SIM_STATE"
| "kind_of_call (OnCellularDataConnectStateUpdated _ _ _) = M_DATA_CONNECTION_STATE"
| "kind_of_call (OnCellularDataFlowUpdated _ _) = M_DATA_FLOW"
| "kind_of_call (OnCfuIndicatorUpdated _ _) = M_CFU_INDICATOR"
| "kind_of_call (OnVoiceMailMsgIndicatorUpdated _ _) = M_VOICE_MAIL_MSG_INDICATOR"
| "kind_of_call OnIccAccountUpdated = M_ICC_ACCOUNT"
| "kind_of_call (OnCallStateUpdatedEx _ _) = M_CALL_STATE_EX"
| "kind_of_call (OnCCallStateUpdated _ _ _) = M_CCALL_STATE"
| "kind_of_call (OnSimActiveStateUpdated _ _) = M_SIM_ACTIVE_STATE"
| "kind_of_call (OnVoIPStateUpdated _) = M_VOIP_CALL_STATE"

text \<open>The slot a call reports, \<open>None\<close> for the two calls without one.\<close>

fun slot_of_call :: "('sig, 'cell, 'net) observer_call \<Rightarrow> int32 option" where
  "slot_of_call (OnCallStateUpdated k _ _) = Some k"
| "slot_of_call (OnSignalInfoUpdated k _) = Some k"
| "slot_of_call (OnNetworkStateUpdated k _) = Some k"
| "slot_of_call (OnCellInfoUpdated k _) = Some k"
| "slot_of_call (OnSimStateUpdated k _ _ _) = Some k"
| "slot_of_call (OnCellularDataConnectStateUpdated k _ _) = Some k"
| "slot_of_call (OnCellularDataFlowUpdated k _) = Some k"
| "slot_of_call (OnCfuIndicatorUpdated k _) = Some k"
| "slot_of_call (OnVoiceMailMsgIndicatorUpdated k _) = Some k"
| "slot_of_call OnIccAccountUpdated = None"
| "slot_of_call (OnCallStateUpdatedEx k _) = Some k"
| "slot_of_call (OnCCallStateUpdated k _ _) = Some k"
| "slot_of_call (OnSimActiveStateUpdated k _) = Some k"
| "slot_of_call (OnVoIPStateUpdated _) = None"

definition slot_matches :: "TelephonyStateRegistryRecord \<Rightarrow> ('sig, 'cell, 'net) observer_call \<Rightarrow> bool" where
  "slot_matches r c \<longleftrightarrow> (case slot_of_call c of None \<Rightarrow> True | Some k \<Rightarrow>
     slotId_of r = k \<or> (slotId_of r = DEFAULT_CONN_SLOT \<and>
       kind_of_call c \<in> {M_DATA_CONNECTION_STATE, M_DATA_FLOW}))"

text \<open>
  The permission of its own that the code asks of the record's token before a call that discloses more than
  a state: a phone number in \<^verbatim>\<open>OnCallStateUpdated\<close> takes \<^verbatim>\<open>READ_CALL_LOG\<close>; \<^verbatim>\<open>OnCCallStateUpdated\<close> (with its
  number) and \<^verbatim>\<open>OnVoIPStateUpdated\<close> take \<^verbatim>\<open>MANAGE_CALL_FOR_DEVICES\<close>. The documentation
  (\<^verbatim>\<open>docs/agents/boundaries.md\<close>, line 153) wants \<^verbatim>\<open>READ_CALL_LOG\<close> for every number, which the code does not check for
  \<^verbatim>\<open>OnCCallStateUpdated\<close>.
\<close>

fun discloses ::
    "build \<Rightarrow> ('sig, 'cell, 'net) world \<Rightarrow> TelephonyStateRegistryRecord \<Rightarrow>
     ('sig, 'cell, 'net) observer_call \<Rightarrow> bool" where
  "discloses K E r (OnCallStateUpdated _ _ number) =
     (IsCanReadCallHistory K E r \<or> number = Str8ToStr16 E '''')"
| "discloses K E r (OnCCallStateUpdated _ _ number) = CanManageCallForDevices K E r"
| "discloses K E r (OnVoIPStateUpdated _) = CanManageCallForDevices K E r"
| "discloses K E r _ = True"

definition entitled ::
    "build \<Rightarrow> ('sig, 'cell, 'net) world \<Rightarrow> TelephonyStateRegistryRecord \<Rightarrow>
     ('sig, 'cell, 'net) observer_call \<Rightarrow> bool" where
  "entitled K E r c \<longleftrightarrow> wants_mask K (kind_of_call c) r \<and> slot_matches r c \<and> discloses K E r c"

lemma want_entitled:
  assumes "update_want K E s u r = Some c"
  shows "entitled K E r c"
  using assms
  by (cases u)
    (auto simp: entitled_def slot_matches_def want_slot_def want_conn_def want_call_def want_if_def
      bind_eq_Some_conv split: if_splits)

lemma snapshot_entitled:
  assumes "c \<in> set (snapshot_calls K E r v)"
  shows "entitled K E r c"
  using assms
  by (auto simp: snapshot_calls_def entitled_calls_def Let_def entitled_def slot_matches_def
      split: if_splits)

lemma deliveries_iff:
  "Notify ob c \<in> set (deliveries want rs) \<longleftrightarrow>
     (\<exists>r \<in> set rs. telephonyObserver_of r = Some ob \<and> want r = Some c)"
  by (induction rs)
    (auto simp: deliveries_def List.map_filter_simps pick_call_def split: option.splits)

lemma deliveries_no_publish: "Publish e \<notin> set (deliveries w rs)"
  by (induction rs) (auto simp: deliveries_def List.map_filter_simps pick_call_def split: option.splits)

lemma update_events_not_notify: "e \<in> set (update_events E u) \<Longrightarrow> \<not> is_notify e"
  by (cases u) (auto simp: event_defs split: if_splits)

lemma register_notifies:
  assumes "run_register K E q s = (res, s', es)" and "Notify ob c \<in> set es"
  shows "\<exists>r \<in> set (stateRecords_of s'). telephonyObserver_of r = Some ob \<and> entitled K E r c"
proof -
  obtain slotId msk tokenId pid where k: "rq_key q = (slotId, msk, tokenId, pid)" by (cases "rq_key q")
  define r where "r = (case registered s (rq_key q) of
     None \<Rightarrow> new_record (rq_key q) (rq_observer q, rq_bundleName q, rq_uid q, rq_appIdentifier q)
   | Some r0 \<Rightarrow> r0)"
  define s1 where "s1 = (if registered s (rq_key q) = None
     then s\<lparr>stateRecords_of := stateRecords_of s @ [r]\<rparr> else s)"
  from assms have run: "(s', es) = UpdateData K E r s1"
    by (auto simp: run_register_def k RegisterStateChange_eq Let_def r_def s1_def split: if_splits)
  then have es: "es = snd (UpdateData K E r s1)" and s': "s' = fst (UpdateData K E r s1)"
    by (metis snd_conv, metis fst_conv)
  have "r \<in> set (stateRecords_of s1)"
    by (cases "registered s (rq_key q)")
      (auto simp: s1_def r_def dest: registered_SomeD)
  then have "r \<in> set (stateRecords_of s')" by (simp add: s' frame_simps)
  moreover from assms(2) have "telephonyObserver_of r = Some ob"
    "c \<in> set (snapshot_calls K E r (snapshot_of (slotId_of r) s1))"
    by (auto simp: es UpdateData_calls split: option.splits)
  ultimately show ?thesis using snapshot_entitled by blast
qed

lemma notify_notifies:
  assumes "update_notify K E u s = (res, es)" and "Notify ob c \<in> set es"
  shows "\<exists>r \<in> set (stateRecords_of s). telephonyObserver_of r = Some ob \<and> entitled K E r c"
proof -
  from assms have "Notify ob c \<in> set (deliveries (update_want K E s u) (stateRecords_of s))"
    using update_events_not_notify [of "Notify ob c" E u] by (auto simp: update_notify_eq Let_def)
  then show ?thesis using want_entitled by (fastforce simp: deliveries_iff)
qed

lemma step_entitled:
  assumes "step K x ev y" and "Notify ob c \<in> set (event_effects ev)"
  shows "\<exists>r \<in> set (stateRecords_of (svc y)).
    telephonyObserver_of r = Some ob \<and> entitled K (event_world ev) r c"
  using assms
proof (cases rule: step.cases)
  case (register E q res s' es)
  with assms(2) show ?thesis using register_notifies by fastforce
next
  case (finish_update ps E u qs res es)
  with assms(2) show ?thesis using notify_notifies by fastforce
qed (use assms(2) in auto)

section \<open>Invariants of the runs\<close>

text \<open>No critical section shrinks a cache or changes the number of slots.\<close>

definition grows :: "('sig, 'cell, 'net) service \<Rightarrow> ('sig, 'cell, 'net) service \<Rightarrow> bool" where
  "grows s s' \<longleftrightarrow> slotSize_of s' = slotSize_of s \<and> dom (callState_of s) \<subseteq> dom (callState_of s') \<and>
     dom (callIncomingNumber_of s) \<subseteq> dom (callIncomingNumber_of s')"

definition number_cached :: "('sig, 'cell, 'net) service \<Rightarrow> ('sig, 'cell, 'net) update \<Rightarrow> bool" where
  "number_cached s u = (case u of UCallSlot k st number \<Rightarrow> k \<in> dom (callIncomingNumber_of s) | _ \<Rightarrow> True)"

definition sys_ok :: "build \<Rightarrow> ('sig, 'cell, 'net) sys \<Rightarrow> bool" where
  "sys_ok K x \<longleftrightarrow> registry_ok K (svc x) \<and> slotSize_of (svc x) = initial_slot_size K \<and>
     insert (-1) {0..<slotSize_of (svc x)} \<subseteq> dom (callState_of (svc x)) \<and>
     (\<forall>(E, u) \<in> set (pend x). slot_verified (svc x) u \<and> update_allowed E u \<and> number_cached (svc x) u)"

lemma grows_refl [simp]: "grows s s"
  by (simp add: grows_def)

lemma grows_records [simp]: "grows s (s\<lparr>stateRecords_of := rs\<rparr>)"
  by (simp add: grows_def)

lemma grows_slot_verified: "grows s s' \<Longrightarrow> slot_verified s' u = slot_verified s u"
  by (simp add: grows_def slot_verified_def VerifySlotId_def split: option.split)

lemma grows_number_cached: "grows s s' \<Longrightarrow> number_cached s u \<Longrightarrow> number_cached s' u"
  by (auto simp: grows_def number_cached_def split: update.splits)

lemma grows_UpdateData: "grows s (fst (UpdateData K E r s))"
  by (simp add: grows_def frame_simps filled_dom [OF UpdateData_frame(5)]
      filled_dom [OF UpdateData_frame(6)])

lemma grows_register:
  assumes "run_register K E q s = (res, s', es)"
  shows "grows s s'"
proof -
  have upd: "grows s (fst (UpdateData K E r (s\<lparr>stateRecords_of := rs\<rparr>)))" for r rs
    using grows_UpdateData [of "s\<lparr>stateRecords_of := rs\<rparr>" K E r] by (simp add: grows_def)
  from assms have s': "s' = fst (snd (run_register K E q s))" by simp
  show ?thesis
    unfolding s' run_register_def RegisterStateChange_eq
    by (simp add: Let_def upd grows_UpdateData split: prod.split)
qed

lemma grows_unregister:
  assumes "run_unregister K E k s = (res, s', es)"
  shows "grows s s'"
  using assms
  by (auto simp: run_unregister_def UnregisterStateChange_def grows_def split: prod.splits if_splits)

lemma grows_write: "grows s (update_write E u s)"
  by (simp add: grows_def frame_simps)

lemma registry_ok_run_register:
  assumes "run_register K E q s = (res, s', es)" and "registry_ok K s"
  shows "registry_ok K s'"
  using registry_ok_register [OF assms(2), of E "rq_isUpdate q" "rq_key q"
      "(rq_observer q, rq_bundleName q, rq_uid q, rq_appIdentifier q)"] assms(1)
  by (simp add: register_key_def run_register_def split: prod.splits)

lemma registry_ok_run_unregister:
  assumes "run_unregister K E k s = (res, s', es)" and "registry_ok K s"
  shows "registry_ok K s'"
  using registry_ok_unregister [OF assms(2), of E k] assms(1)
  by (simp add: unregister_key_def run_unregister_def split: prod.splits)

lemma sys_ok_grow:
  assumes "sys_ok K x" and "grows (svc x) s'" and "registry_ok K s'" and "set ps \<subseteq> set (pend x)"
  shows "sys_ok K (x\<lparr>svc := s', pend := ps\<rparr>)"
proof -
  have "slot_verified s' u \<and> update_allowed E u \<and> number_cached s' u" if "(E, u) \<in> set ps" for E u
  proof -
    from that assms(4) have "(E, u) \<in> set (pend x)" by blast
    with assms(1) have "slot_verified (svc x) u \<and> update_allowed E u \<and> number_cached (svc x) u"
      by (auto simp: sys_ok_def)
    with assms(2) show ?thesis by (simp add: grows_slot_verified grows_number_cached)
  qed
  moreover have "insert (-1) {0..<slotSize_of s'} \<subseteq> dom (callState_of s')"
  proof -
    from assms(1) have "insert (-1) {0..<slotSize_of (svc x)} \<subseteq> dom (callState_of (svc x))"
      unfolding sys_ok_def by blast
    also from assms(2) have "\<dots> \<subseteq> dom (callState_of s')" by (simp add: grows_def)
    finally show ?thesis using assms(2) by (simp add: grows_def)
  qed
  ultimately show ?thesis using assms by (auto simp: sys_ok_def grows_def)
qed

lemma sys_ok_svc:
  assumes "sys_ok K x" and "grows (svc x) s'" and "registry_ok K s'"
  shows "sys_ok K (x\<lparr>svc := s'\<rparr>)"
  using sys_ok_grow [OF assms, of "pend x"] by simp

lemma number_cached_write: "number_cached (update_write E u s) u"
  by (auto simp: number_cached_def write_defs split: update.splits)

lemma sys_ok_start: "sys_ok K (start_system K)"
  by (auto simp: sys_ok_def start_system_def registry_ok_def callState_construct)

lemma sys_ok_step:
  assumes "step K x ev y" and "sys_ok K x"
  shows "sys_ok K y"
proof -
  from assms(2) have ok: "registry_ok K (svc x)" by (simp add: sys_ok_def)
  from assms(1) show ?thesis
  proof (cases rule: step.cases)
    case (register E q res s' es)
    with assms(2) ok show ?thesis
      by (simp add: sys_ok_svc grows_register registry_ok_run_register)
  next
    case (unregister E k res s')
    with assms(2) ok show ?thesis
      by (simp add: sys_ok_svc grows_unregister registry_ok_run_unregister)
  next
    case (reject u E res s')
    then have "s' = svc x" by (simp add: run_update_rejected)
    with reject assms(2) show ?thesis by simp
  next
    case (begin_update u E)
    from ok have "registry_ok K (update_write E u (svc x))"
      by (simp add: registry_ok_def frame_simps)
    from sys_ok_svc [OF assms(2) grows_write this]
    show ?thesis
      using begin_update grows_slot_verified [OF grows_write]
      by (auto simp: sys_ok_def number_cached_write)
  next
    case (finish_update ps E u qs res es)
    with assms(2) show ?thesis by (auto simp: sys_ok_def)
  qed
qed

lemma run_sys_ok: "run K tr x \<Longrightarrow> sys_ok K x"
  by (induction rule: run.induct) (auto simp: sys_ok_start intro: sys_ok_step)

lemma reachable_cached:
  assumes "run K tr x" and "(E, UCallSlot k st number) \<in> set (pend x)"
  shows "k \<in> dom (callIncomingNumber_of (svc x))"
  using run_sys_ok [OF assms(1)] assms(2) by (fastforce simp: sys_ok_def number_cached_def)

section \<open>Where the records come from\<close>

lemma records_run_register:
  assumes "run_register K E q s = (res, s', es)"
  shows "stateRecords_of s' = stateRecords_of s @
    (if may_register K E (fst (rq_key q)) (fst (snd (rq_key q))) \<and> registered s (rq_key q) = None
     then [new_record (rq_key q) (rq_observer q, rq_bundleName q, rq_uid q, rq_appIdentifier q)] else [])"
  using records_register_key [of K E "rq_isUpdate q" "rq_key q"
      "(rq_observer q, rq_bundleName q, rq_uid q, rq_appIdentifier q)" s] assms
  by (simp add: register_key_def run_register_def split: prod.splits)

lemma records_run_unregister:
  assumes "run_unregister K E k s = (res, s', es)"
  shows "set (stateRecords_of s') \<subseteq> set (stateRecords_of s)"
proof -
  have "set (fst (erase_registration slotId msk tokenId pid rs)) \<subseteq> set rs"
    for slotId msk tokenId pid rs
    by (induction rs) (auto simp: case_prod_beta)
  moreover from assms have "s' = fst (snd (run_unregister K E k s))" by simp
  ultimately show ?thesis
    by (simp add: run_unregister_def UnregisterStateChange_def case_prod_beta)
qed

definition granted ::
    "build \<Rightarrow> ('sig, 'cell, 'net) event list \<Rightarrow> TelephonyStateRegistryRecord \<Rightarrow> bool" where
  "granted K tr r \<longleftrightarrow> (\<exists>E q res es. Registered E q res es \<in> set tr \<and>
     may_register K E (slotId_of r) (mask_of r) \<and>
     r = new_record (rq_key q) (rq_observer q, rq_bundleName q, rq_uid q, rq_appIdentifier q))"

lemma mask_of_new_record [simp]: "mask_of (new_record k x) = fst (snd k)"
  by (cases k; cases x) simp

lemma granted_step:
  assumes "step K x ev y" and "\<forall>r \<in> set (stateRecords_of (svc x)). granted K tr r"
  shows "\<forall>r \<in> set (stateRecords_of (svc y)). granted K (tr @ [ev]) r"
proof -
  have mono: "granted K (tr @ [ev]) r" if "granted K tr r" for r
    using that by (fastforce simp: granted_def)
  from assms(1) show ?thesis
  proof (cases rule: step.cases)
    case (register E q res s' es)
    have "granted K (tr @ [ev])
        (new_record (rq_key q) (rq_observer q, rq_bundleName q, rq_uid q, rq_appIdentifier q))"
      if "may_register K E (fst (rq_key q)) (fst (snd (rq_key q)))"
      unfolding granted_def using that register(1) by force
    with register assms(2) mono show ?thesis
      using records_run_register [OF register(3)] by auto
  next
    case (unregister E k res s')
    from records_run_unregister [OF unregister(3)] assms(2) mono
    show ?thesis unfolding unregister(2) by auto
  next
    case (reject u E res s')
    with assms(2) mono show ?thesis by (simp add: run_update_rejected)
  qed (use assms(2) mono in \<open>auto simp: frame_simps\<close>)
qed

lemma run_granted:
  assumes "run K tr x"
  shows "\<forall>r \<in> set (stateRecords_of (svc x)). granted K tr r"
  using assms
proof (induction rule: run.induct)
  case run_start
  show ?case by (simp add: start_system_def)
next
  case (run_step tr x ev y)
  then show ?case using granted_step by blast
qed

section \<open>What the SIM query returns\<close>

text \<open>
  The SIM states that a history has stored: the last one written by an update of the slot; and 0 for a
  slot that no update has written but whose state an immediate notification was sent for.
\<close>

fun sim_shown :: "int32 \<Rightarrow> ('sig, 'cell, 'net) effect \<Rightarrow> bool" where
  "sim_shown k (Notify ob (OnSimStateUpdated j type st reason)) = (j = k)"
| "sim_shown k e = False"

fun sim_history :: "('sig, 'cell, 'net) event \<Rightarrow> (int32 \<rightharpoonup> int32) \<Rightarrow> (int32 \<rightharpoonup> int32)" where
  "sim_history (Wrote E (USim k type st reason)) m = m(k \<mapsto> st)"
| "sim_history (Registered E q res es) m =
     (\<lambda>k. if m k = None \<and> (\<exists>e \<in> set es. sim_shown k e) then Some 0 else m k)"
| "sim_history ev m = m"

lemma data_sim [frame_simps]:
  "simState_of (fst (data_call_state K E r s)) = simState_of s" "simState_of (fst (data_signal_info r s)) = simState_of s"
  "simState_of (fst (data_network_state r s)) = simState_of s" "simState_of (fst (data_cell_info r s)) = simState_of s"
  "simState_of (fst (data_connection r s)) = simState_of s" "simState_of (fst (data_flow r s)) = simState_of s"
  "simState_of (fst (data_cfu r s)) = simState_of s" "simState_of (fst (data_voice_mail r s)) = simState_of s"
  "simState_of (fst (data_icc_account r s)) = simState_of s" "simState_of (fst (data_call_state_ex r s)) = simState_of s"
  "simState_of (fst (data_ccall_state K E r s)) = simState_of s" "simState_of (fst (data_sim_active r s)) = simState_of s"
  "simState_of (fst (data_sim_state r s)) = snd (map_index (simState_of s) (slotId_of r) 0)"
  by (simp_all add: data_defs case_prod_beta Let_def)

lemma if_mask_sim [frame_simps]:
  "simState_of (fst (if_mask K r m act s)) =
     (if wants_mask K m r then simState_of (fst (act s)) else simState_of s)"
  by (simp add: if_mask_def wants_mask_def)

lemma UpdateData_sim:
  "simState_of (fst (UpdateData K E r s)) =
     (if telephonyObserver_of r \<noteq> None \<and> wants_mask K M_SIM_STATE r
      then snd (map_index (simState_of s) (slotId_of r) 0) else simState_of s)"
  by (simp add: UpdateData_def UpdateDataEx_def fst_seq data_sim if_mask_sim)

text \<open>The immediate notification fills in the states of exactly the slots whose SIM state it sends.\<close>

lemma UpdateData_sim_shown:
  "(\<exists>e \<in> set (snd (UpdateData K E r s)). sim_shown k e) \<longleftrightarrow>
     telephonyObserver_of r \<noteq> None \<and> wants_mask K M_SIM_STATE r \<and> k = slotId_of r"
  by (cases "telephonyObserver_of r")
    (auto simp: UpdateData_calls snapshot_calls_def entitled_calls_def Let_def split: if_splits)

lemma UpdateData_sim_history:
  "simState_of (fst (UpdateData K E r s)) = sim_history (Registered E q res (snd (UpdateData K E r s))) (simState_of s)"
  by (rule ext) (simp add: UpdateData_sim UpdateData_sim_shown map_index_def split: option.split)

lemma run_register_sim:
  assumes "run_register K E q s = (res, s', es)"
  shows "simState_of s' = sim_history (Registered E q res es) (simState_of s)"
proof -
  obtain k m t p where key: "rq_key q = (k, m, t, p)" by (cases "rq_key q")
  have none: "sim_history (Registered E q res []) f = f" for f by (simp add: fun_eq_iff)
  have upd: "simState_of s' = sim_history (Registered E q res es) (simState_of s)"
    if "UpdateData K E r s1 = (s', es)" "simState_of s1 = simState_of s" for r s1 res
    using UpdateData_sim_history [of K E r s1 q res] that by simp
  from assms show ?thesis
    by (auto simp: run_register_def key RegisterStateChange_eq Let_def none dest: upd
        simp del: sim_history.simps split: if_splits)
qed

lemma sim_step:
  assumes "step K x ev y"
  shows "simState_of (svc y) = sim_history ev (simState_of (svc x))"
  using assms
proof (cases rule: step.cases)
  case (register E q res s' es)
  then show ?thesis using run_register_sim by fastforce
next
  case (unregister E k res s')
  then show ?thesis
    by (auto simp: run_unregister_def UnregisterStateChange_def split: prod.splits if_splits)
next
  case (reject u E res s')
  then show ?thesis by (simp add: run_update_rejected)
next
  case (begin_update u E)
  then show ?thesis by (cases u) (simp_all add: write_defs Let_def)
next
  case (finish_update ps E u qs res es)
  then show ?thesis by simp
qed

lemma run_sim_history:
  assumes "run K tr x"
  shows "simState_of (svc x) = fold sim_history tr Map.empty"
  using assms
proof (induction rule: run.induct)
  case run_start
  show ?case by (simp add: start_system_def construct_service_def blank_service_def Let_def)
next
  case (run_step tr x ev y)
  then show ?case by (simp add: sim_step)
qed

end
