(* ===== verification/Observer_Ipc.thy ===== *)
theory Observer_Ipc
  imports Parcel Service_System
begin

text \<open>
  The two ends of a callback: the proxy the service calls
  (\<^verbatim>\<open>frameworks/native/observer/src/telephony_observer_proxy.cpp\<close>) and the stub in the process of
  the subscriber (\<^verbatim>\<open>frameworks/native/observer/src/telephony_observer.cpp\<close>). What the proxy writes,
  the stub reads back.
\<close>

section \<open>The proxy\<close>

datatype ipc_flag = TF_ASYNC | TF_ASYNC_WAKEUP_LATER

record 'p request =
  req_code :: uint32
  req_data :: 'p
  req_flags :: "ipc_flag list"

text \<open>
  What a method of the proxy comes to: a request handed to the remote object, nothing (an early
  return, or no remote object), or the dereference of a null element of a vector.
\<close>

datatype 'p sent = Dropped | Delivered "'p request" | NullDeref

text \<open>\<open>remote\<close> tells whether \<^verbatim>\<open>Remote()\<close> gives an object; \<open>ret\<close> is the remote call's result.\<close>

definition SendRequest ::
    "build \<Rightarrow> bool \<Rightarrow> int32 \<Rightarrow> uint32 \<Rightarrow> 'p \<Rightarrow> ipc_flag list \<Rightarrow> int32 \<times> 'p sent" where
  "SendRequest K remote ret msgId dataParcel flags =
     (if \<not> remote then (ERR K TELEPHONY_ERR_IPC_CONNECT_STUB_FAIL, Dropped)
      else (ret, Delivered \<lparr>req_code = msgId, req_data = dataParcel, req_flags = flags\<rparr>))"

definition Proxy_OnCallStateUpdated ::
    "build \<Rightarrow> ('p, 'sig, 'cell, 'net) parcel_ops \<Rightarrow> bool \<Rightarrow> int32 \<Rightarrow> int32 \<Rightarrow> int32 \<Rightarrow> string16 \<Rightarrow> 'p sent" where
  "Proxy_OnCallStateUpdated K P remote ret slotId callState phoneNumber =
     (let (ok, p) = WriteInterfaceToken P (OBSERVER_DESCRIPTOR P) (EmptyParcel P)
      in if \<not> ok then Dropped
         else let p = snd (WriteInt32 P slotId p);
                  p = snd (WriteInt32 P callState p);
                  p = snd (WriteString16 P phoneNumber p)
              in snd (SendRequest K remote ret (BROKER_CODE P M_CALL_STATE) p [TF_ASYNC]))"

definition Proxy_OnCallStateUpdatedEx ::
    "build \<Rightarrow> ('p, 'sig, 'cell, 'net) parcel_ops \<Rightarrow> bool \<Rightarrow> int32 \<Rightarrow> int32 \<Rightarrow> int32 \<Rightarrow> 'p sent" where
  "Proxy_OnCallStateUpdatedEx K P remote ret slotId callStateEx =
     (let (ok, p) = WriteInterfaceToken P (OBSERVER_DESCRIPTOR P) (EmptyParcel P)
      in if \<not> ok then Dropped
         else let p = snd (WriteInt32 P slotId p);
                  p = snd (WriteInt32 P callStateEx p)
              in snd (SendRequest K remote ret (BROKER_CODE P M_CALL_STATE_EX) p [TF_ASYNC]))"

definition Proxy_OnSimStateUpdated ::
    "build \<Rightarrow> ('p, 'sig, 'cell, 'net) parcel_ops \<Rightarrow> bool \<Rightarrow> int32 \<Rightarrow> int32 \<Rightarrow> int32 \<Rightarrow> int32 \<Rightarrow> int32 \<Rightarrow> 'p sent" where
  "Proxy_OnSimStateUpdated K P remote ret slotId type st reason =
     (let (ok, p) = WriteInterfaceToken P (OBSERVER_DESCRIPTOR P) (EmptyParcel P)
      in if \<not> ok then Dropped
         else let p = snd (WriteInt32 P slotId p);
                  p = snd (WriteInt32 P type p);
                  p = snd (WriteInt32 P st p);
                  p = snd (WriteInt32 P reason p)
              in snd (SendRequest K remote ret (BROKER_CODE P M_SIM_STATE) p [TF_ASYNC]))"

text \<open>\<^verbatim>\<open>for (const auto &v : vec) v->Marshalling(dataParcel)\<close>; \<open>None\<close> when an element is null.\<close>

fun marshal_all :: "('a \<Rightarrow> 'p \<Rightarrow> bool \<times> 'p) \<Rightarrow> 'a option list \<Rightarrow> 'p \<Rightarrow> 'p option" where
  "marshal_all w [] p = Some p"
| "marshal_all w (None # vec) p = None"
| "marshal_all w (Some v # vec) p = marshal_all w vec (snd (w v p))"

definition Proxy_OnSignalInfoUpdated ::
    "build \<Rightarrow> ('p, 'sig, 'cell, 'net) parcel_ops \<Rightarrow> bool \<Rightarrow> int32 \<Rightarrow> int32 \<Rightarrow> 'sig option list \<Rightarrow> 'p sent" where
  "Proxy_OnSignalInfoUpdated K P remote ret slotId vec =
     (let (ok, p) = WriteInterfaceToken P (OBSERVER_DESCRIPTOR P) (EmptyParcel P)
      in if \<not> ok then Dropped
         else let size = to_int32 (int (length vec))
              in if size < 0 \<or> size > MAX_SIGNAL_NUM P then Dropped
                 else let p = snd (WriteInt32 P slotId p);
                          p = snd (WriteInt32 P size p)
                      in case marshal_all (MarshalSignal P) vec p of
                           None \<Rightarrow> NullDeref
                         | Some p \<Rightarrow> snd (SendRequest K remote ret (BROKER_CODE P M_SIGNAL_STRENGTHS) p [TF_ASYNC, TF_ASYNC_WAKEUP_LATER]))"

definition Proxy_OnCellInfoUpdated ::
    "build \<Rightarrow> ('p, 'sig, 'cell, 'net) parcel_ops \<Rightarrow> bool \<Rightarrow> int32 \<Rightarrow> int32 \<Rightarrow> 'cell option list \<Rightarrow> 'p sent" where
  "Proxy_OnCellInfoUpdated K P remote ret slotId vec =
     (let (ok, p) = WriteInterfaceToken P (OBSERVER_DESCRIPTOR P) (EmptyParcel P)
      in if \<not> ok then Dropped
         else let p = snd (WriteInt32 P slotId p);
                  size = to_int32 (int (length vec))
              in if size \<le> 0 then Dropped
                 else if size > MAX_CELL_NUM P then Dropped
                 else let (ok, p) = WriteInt32 P size p
                      in if \<not> ok then Dropped
                         else case marshal_all (MarshalCell P) vec p of
                                None \<Rightarrow> NullDeref
                              | Some p \<Rightarrow> snd (SendRequest K remote ret (BROKER_CODE P M_CELL_INFO) p [TF_ASYNC]))"

definition Proxy_OnNetworkStateUpdated ::
    "build \<Rightarrow> ('p, 'sig, 'cell, 'net) parcel_ops \<Rightarrow> bool \<Rightarrow> int32 \<Rightarrow> int32 \<Rightarrow> 'net option \<Rightarrow> 'p sent" where
  "Proxy_OnNetworkStateUpdated K P remote ret slotId networkState =
     (let (ok, p) = WriteInterfaceToken P (OBSERVER_DESCRIPTOR P) (EmptyParcel P)
      in if \<not> ok then Dropped
         else let p = snd (WriteInt32 P slotId p);
                  p = (case networkState of None \<Rightarrow> p | Some ns \<Rightarrow> snd (MarshalNetwork P ns p))
              in snd (SendRequest K remote ret (BROKER_CODE P M_NETWORK_STATE) p [TF_ASYNC, TF_ASYNC_WAKEUP_LATER]))"

definition Proxy_OnCellularDataConnectStateUpdated ::
    "build \<Rightarrow> ('p, 'sig, 'cell, 'net) parcel_ops \<Rightarrow> bool \<Rightarrow> int32 \<Rightarrow> int32 \<Rightarrow> int32 \<Rightarrow> int32 \<Rightarrow> 'p sent" where
  "Proxy_OnCellularDataConnectStateUpdated K P remote ret slotId dataState networkType =
     (let (ok, p) = WriteInterfaceToken P (OBSERVER_DESCRIPTOR P) (EmptyParcel P)
      in if \<not> ok then Dropped
         else let p = snd (WriteInt32 P slotId p);
                  p = snd (WriteInt32 P dataState p);
                  p = snd (WriteInt32 P networkType p)
              in snd (SendRequest K remote ret (BROKER_CODE P M_DATA_CONNECTION_STATE) p [TF_ASYNC]))"

definition Proxy_OnCellularDataFlowUpdated ::
    "build \<Rightarrow> ('p, 'sig, 'cell, 'net) parcel_ops \<Rightarrow> bool \<Rightarrow> int32 \<Rightarrow> int32 \<Rightarrow> int32 \<Rightarrow> 'p sent" where
  "Proxy_OnCellularDataFlowUpdated K P remote ret slotId dataFlowType =
     (let (ok, p) = WriteInterfaceToken P (OBSERVER_DESCRIPTOR P) (EmptyParcel P)
      in if \<not> ok then Dropped
         else let p = snd (WriteInt32 P slotId p);
                  p = snd (WriteInt32 P dataFlowType p)
              in snd (SendRequest K remote ret (BROKER_CODE P M_DATA_FLOW) p [TF_ASYNC, TF_ASYNC_WAKEUP_LATER]))"

definition Proxy_OnCfuIndicatorUpdated ::
    "build \<Rightarrow> ('p, 'sig, 'cell, 'net) parcel_ops \<Rightarrow> bool \<Rightarrow> int32 \<Rightarrow> int32 \<Rightarrow> bool \<Rightarrow> 'p sent" where
  "Proxy_OnCfuIndicatorUpdated K P remote ret slotId cfuResult =
     (let (ok, p) = WriteInterfaceToken P (OBSERVER_DESCRIPTOR P) (EmptyParcel P)
      in if \<not> ok then Dropped
         else let p = snd (WriteInt32 P slotId p);
                  p = snd (WriteBool P cfuResult p)
              in snd (SendRequest K remote ret (BROKER_CODE P M_CFU_INDICATOR) p [TF_ASYNC]))"

definition Proxy_OnVoiceMailMsgIndicatorUpdated ::
    "build \<Rightarrow> ('p, 'sig, 'cell, 'net) parcel_ops \<Rightarrow> bool \<Rightarrow> int32 \<Rightarrow> int32 \<Rightarrow> bool \<Rightarrow> 'p sent" where
  "Proxy_OnVoiceMailMsgIndicatorUpdated K P remote ret slotId voiceMailMsgResult =
     (let (ok, p) = WriteInterfaceToken P (OBSERVER_DESCRIPTOR P) (EmptyParcel P)
      in if \<not> ok then Dropped
         else let p = snd (WriteInt32 P slotId p);
                  p = snd (WriteBool P voiceMailMsgResult p)
              in snd (SendRequest K remote ret (BROKER_CODE P M_VOICE_MAIL_MSG_INDICATOR) p [TF_ASYNC]))"

definition Proxy_OnIccAccountUpdated ::
    "build \<Rightarrow> ('p, 'sig, 'cell, 'net) parcel_ops \<Rightarrow> bool \<Rightarrow> int32 \<Rightarrow> 'p sent" where
  "Proxy_OnIccAccountUpdated K P remote ret =
     (let (ok, p) = WriteInterfaceToken P (OBSERVER_DESCRIPTOR P) (EmptyParcel P)
      in if \<not> ok then Dropped
         else snd (SendRequest K remote ret (BROKER_CODE P M_ICC_ACCOUNT) p [TF_ASYNC]))"

definition Proxy_OnCCallStateUpdated ::
    "build \<Rightarrow> ('p, 'sig, 'cell, 'net) parcel_ops \<Rightarrow> bool \<Rightarrow> int32 \<Rightarrow> int32 \<Rightarrow> int32 \<Rightarrow> string16 \<Rightarrow> 'p sent" where
  "Proxy_OnCCallStateUpdated K P remote ret slotId callState phoneNumber =
     (let (ok, p) = WriteInterfaceToken P (OBSERVER_DESCRIPTOR P) (EmptyParcel P)
      in if \<not> ok then Dropped
         else let p = snd (WriteInt32 P slotId p);
                  p = snd (WriteInt32 P callState p);
                  p = snd (WriteString16 P phoneNumber p)
              in snd (SendRequest K remote ret (BROKER_CODE P M_CCALL_STATE) p [TF_ASYNC]))"

definition Proxy_OnSimActiveStateUpdated ::
    "build \<Rightarrow> ('p, 'sig, 'cell, 'net) parcel_ops \<Rightarrow> bool \<Rightarrow> int32 \<Rightarrow> int32 \<Rightarrow> bool \<Rightarrow> 'p sent" where
  "Proxy_OnSimActiveStateUpdated K P remote ret slotId enable =
     (let (ok, p) = WriteInterfaceToken P (OBSERVER_DESCRIPTOR P) (EmptyParcel P)
      in if \<not> ok then Dropped
         else let p = snd (WriteInt32 P slotId p);
                  p = snd (WriteBool P enable p)
              in snd (SendRequest K remote ret (BROKER_CODE P M_SIM_ACTIVE_STATE) p [TF_ASYNC]))"

definition Proxy_OnVoIPStateUpdated ::
    "build \<Rightarrow> ('p, 'sig, 'cell, 'net) parcel_ops \<Rightarrow> bool \<Rightarrow> int32 \<Rightarrow> VoIPCallStateInfo \<Rightarrow> 'p sent" where
  "Proxy_OnVoIPStateUpdated K P remote ret info =
     (let (ok, p) = WriteInterfaceToken P (OBSERVER_DESCRIPTOR P) (EmptyParcel P)
      in if \<not> ok then Dropped
         else let p = snd (WriteString P (voip_appName info) p);
                  p = snd (WriteString P (voip_contactName info) p);
                  p = snd (WriteInt32 P (voip_callType info) p);
                  p = snd (WriteInt32 P (voip_callState info) p);
                  p = snd (WriteBool P (voip_isVoiceAnswerSupported info) p)
              in snd (SendRequest K remote ret (BROKER_CODE P M_VOIP_CALL_STATE) p [TF_ASYNC]))"

text \<open>The call of a method of the proxy, by its name and arguments.\<close>

fun proxy_call ::
    "build \<Rightarrow> ('p, 'sig, 'cell, 'net) parcel_ops \<Rightarrow> bool \<Rightarrow> int32 \<Rightarrow> ('sig, 'cell, 'net) observer_call \<Rightarrow>
     'p sent" where
  "proxy_call K P remote ret (OnCallStateUpdated a b c) = Proxy_OnCallStateUpdated K P remote ret a b c"
| "proxy_call K P remote ret (OnCallStateUpdatedEx a b) = Proxy_OnCallStateUpdatedEx K P remote ret a b"
| "proxy_call K P remote ret (OnSimStateUpdated a b c d) = Proxy_OnSimStateUpdated K P remote ret a b c d"
| "proxy_call K P remote ret (OnSignalInfoUpdated a b) = Proxy_OnSignalInfoUpdated K P remote ret a b"
| "proxy_call K P remote ret (OnCellInfoUpdated a b) = Proxy_OnCellInfoUpdated K P remote ret a b"
| "proxy_call K P remote ret (OnNetworkStateUpdated a b) = Proxy_OnNetworkStateUpdated K P remote ret a b"
| "proxy_call K P remote ret (OnCellularDataConnectStateUpdated a b c) = Proxy_OnCellularDataConnectStateUpdated K P remote ret a b c"
| "proxy_call K P remote ret (OnCellularDataFlowUpdated a b) = Proxy_OnCellularDataFlowUpdated K P remote ret a b"
| "proxy_call K P remote ret (OnCfuIndicatorUpdated a b) = Proxy_OnCfuIndicatorUpdated K P remote ret a b"
| "proxy_call K P remote ret (OnVoiceMailMsgIndicatorUpdated a b) = Proxy_OnVoiceMailMsgIndicatorUpdated K P remote ret a b"
| "proxy_call K P remote ret OnIccAccountUpdated = Proxy_OnIccAccountUpdated K P remote ret"
| "proxy_call K P remote ret (OnCCallStateUpdated a b c) = Proxy_OnCCallStateUpdated K P remote ret a b c"
| "proxy_call K P remote ret (OnSimActiveStateUpdated a b) = Proxy_OnSimActiveStateUpdated K P remote ret a b"
| "proxy_call K P remote ret (OnVoIPStateUpdated a) = Proxy_OnVoIPStateUpdated K P remote ret a"

section \<open>The stub\<close>

text \<open>The bounds of \<^verbatim>\<open>telephony_observer.h\<close>.\<close>

definition SIGNAL_NUM_MAX :: int32 where
  "SIGNAL_NUM_MAX = 100"

definition CELL_NUM_MAX :: int32 where
  "CELL_NUM_MAX = 100"

definition ConvertLteNrSignalInfoList ::
    "('p, 'sig, 'cell, 'net) parcel_ops \<Rightarrow> int32 \<Rightarrow> 'p \<Rightarrow> 'sig option list \<Rightarrow> 'sig option list \<times> 'p" where
  "ConvertLteNrSignalInfoList P type p signalInfos =
     (if type = SIGNAL_TYPE P SIG_LTE
      then let (signal, p) = ReadSignal P SIG_LTE p in (signalInfos @ [Some signal], p)
      else if type = SIGNAL_TYPE P SIG_NR
      then let (signal, p) = ReadSignal P SIG_NR p in (signalInfos @ [Some signal], p)
      else (signalInfos, p))"

text \<open>\<^verbatim>\<open>for (int i = 0; i < size; ++i)\<close> with \<open>n\<close> the iterations left.\<close>

fun ConvertSignalInfoList_loop ::
    "('p, 'sig, 'cell, 'net) parcel_ops \<Rightarrow> nat \<Rightarrow> 'p \<Rightarrow> 'sig option list \<Rightarrow> 'sig option list \<times> 'p" where
  "ConvertSignalInfoList_loop P 0 p result = (result, p)"
| "ConvertSignalInfoList_loop P (Suc n) p result =
     (let (type, p) = ReadInt32 P p;
          (result, p) =
            (if type = SIGNAL_TYPE P SIG_GSM
             then let (signal, p) = ReadSignal P SIG_GSM p in (result @ [Some signal], p)
             else if type = SIGNAL_TYPE P SIG_CDMA
             then let (signal, p) = ReadSignal P SIG_CDMA p in (result @ [Some signal], p)
             else if type = SIGNAL_TYPE P SIG_LTE \<or> type = SIGNAL_TYPE P SIG_NR
             then ConvertLteNrSignalInfoList P type p result
             else if type = SIGNAL_TYPE P SIG_WCDMA
             then let (signal, p) = ReadSignal P SIG_WCDMA p in (result @ [Some signal], p)
             else (result, p))
      in ConvertSignalInfoList_loop P n p result)"

definition ConvertSignalInfoList ::
    "('p, 'sig, 'cell, 'net) parcel_ops \<Rightarrow> 'p \<Rightarrow> 'sig option list \<times> 'p" where
  "ConvertSignalInfoList P p =
     (let (size, p) = ReadInt32 P p;
          size = (if size > SIGNAL_NUM_MAX then SIGNAL_NUM_MAX else size)
      in ConvertSignalInfoList_loop P (nat size) p [])"

fun ConvertCellInfoList_loop ::
    "('p, 'sig, 'cell, 'net) parcel_ops \<Rightarrow> nat \<Rightarrow> 'p \<Rightarrow> 'cell option list \<Rightarrow> 'cell option list \<times> 'p" where
  "ConvertCellInfoList_loop P 0 p cells = (cells, p)"
| "ConvertCellInfoList_loop P (Suc n) p cells =
     (let (type, p) = ReadInt32 P p;
          (cells, p) =
            (if type = CELL_TYPE P CELL_GSM
             then let (cell, p) = ReadCell P CELL_GSM p in (cells @ [Some cell], p)
             else if type = CELL_TYPE P CELL_LTE
             then let (cell, p) = ReadCell P CELL_LTE p in (cells @ [Some cell], p)
             else if type = CELL_TYPE P CELL_NR
             then let (cell, p) = ReadCell P CELL_NR p in (cells @ [Some cell], p)
             else (cells, p))
      in ConvertCellInfoList_loop P n p cells)"

definition ConvertCellInfoList ::
    "('p, 'sig, 'cell, 'net) parcel_ops \<Rightarrow> 'p \<Rightarrow> 'cell option list \<times> 'p" where
  "ConvertCellInfoList P p =
     (let (size, p) = ReadInt32 P p;
          size = (if size > CELL_NUM_MAX then CELL_NUM_MAX else size)
      in ConvertCellInfoList_loop P (nat size) p [])"

type_synonym ('p, 'sig, 'cell, 'net) inner =
  "('p, 'sig, 'cell, 'net) parcel_ops \<Rightarrow> 'p \<Rightarrow> ('sig, 'cell, 'net) observer_call option"

definition OnCallStateUpdatedInner :: "('p, 'sig, 'cell, 'net) inner" where
  "OnCallStateUpdatedInner P p =
     (let (slotId, p) = ReadInt32 P p; (callState, p) = ReadInt32 P p;
          (phoneNumber, p) = ReadString16 P p
      in Some (OnCallStateUpdated slotId callState phoneNumber))"

definition OnSignalInfoUpdatedInner :: "('p, 'sig, 'cell, 'net) inner" where
  "OnSignalInfoUpdatedInner P p =
     (let (slotId, p) = ReadInt32 P p; (signalInfos, p) = ConvertSignalInfoList P p
      in Some (OnSignalInfoUpdated slotId signalInfos))"

definition OnNetworkStateUpdatedInner :: "('p, 'sig, 'cell, 'net) inner" where
  "OnNetworkStateUpdatedInner P p =
     (let (slotId, p) = ReadInt32 P p; (networkState, p) = UnmarshalNetwork P p
      in if networkState = None then None else Some (OnNetworkStateUpdated slotId networkState))"

definition OnCellInfoUpdatedInner :: "('p, 'sig, 'cell, 'net) inner" where
  "OnCellInfoUpdatedInner P p =
     (let (slotId, p) = ReadInt32 P p; (cells, p) = ConvertCellInfoList P p
      in Some (OnCellInfoUpdated slotId cells))"

definition OnSimStateUpdatedInner :: "('p, 'sig, 'cell, 'net) inner" where
  "OnSimStateUpdatedInner P p =
     (let (slotId, p) = ReadInt32 P p; (type, p) = ReadInt32 P p; (simState, p) = ReadInt32 P p;
          (reson, p) = ReadInt32 P p
      in Some (OnSimStateUpdated slotId type simState reson))"

definition OnCellularDataConnectStateUpdatedInner :: "('p, 'sig, 'cell, 'net) inner" where
  "OnCellularDataConnectStateUpdatedInner P p =
     (let (slotId, p) = ReadInt32 P p; (dataState, p) = ReadInt32 P p;
          (networkType, p) = ReadInt32 P p
      in Some (OnCellularDataConnectStateUpdated slotId dataState networkType))"

definition OnCellularDataFlowUpdatedInner :: "('p, 'sig, 'cell, 'net) inner" where
  "OnCellularDataFlowUpdatedInner P p =
     (let (slotId, p) = ReadInt32 P p; (flowType, p) = ReadInt32 P p
      in Some (OnCellularDataFlowUpdated slotId flowType))"

definition OnCfuIndicatorUpdatedInner :: "('p, 'sig, 'cell, 'net) inner" where
  "OnCfuIndicatorUpdatedInner P p =
     (let (slotId, p) = ReadInt32 P p; (cfuResult, p) = ReadBool P p
      in Some (OnCfuIndicatorUpdated slotId cfuResult))"

definition OnVoiceMailMsgIndicatorUpdatedInner :: "('p, 'sig, 'cell, 'net) inner" where
  "OnVoiceMailMsgIndicatorUpdatedInner P p =
     (let (slotId, p) = ReadInt32 P p; (voiceMailMsgResult, p) = ReadBool P p
      in Some (OnVoiceMailMsgIndicatorUpdated slotId voiceMailMsgResult))"

definition OnIccAccountUpdatedInner :: "('p, 'sig, 'cell, 'net) inner" where
  "OnIccAccountUpdatedInner P p = Some OnIccAccountUpdated"

definition OnCallStateUpdatedExInner :: "('p, 'sig, 'cell, 'net) inner" where
  "OnCallStateUpdatedExInner P p =
     (let (slotId, p) = ReadInt32 P p; (callStateEx, p) = ReadInt32 P p
      in Some (OnCallStateUpdatedEx slotId callStateEx))"

definition OnCCallStateUpdatedInner :: "('p, 'sig, 'cell, 'net) inner" where
  "OnCCallStateUpdatedInner P p =
     (let (slotId, p) = ReadInt32 P p; (callState, p) = ReadInt32 P p;
          (phoneNumber, p) = ReadString16 P p
      in Some (OnCCallStateUpdated slotId callState phoneNumber))"

definition OnSimActiveStateUpdatedInner :: "('p, 'sig, 'cell, 'net) inner" where
  "OnSimActiveStateUpdatedInner P p =
     (let (slotId, p) = ReadInt32 P p; (enable, p) = ReadBool P p
      in Some (OnSimActiveStateUpdated slotId enable))"

definition OnVoIPStateUpdatedInner :: "('p, 'sig, 'cell, 'net) inner" where
  "OnVoIPStateUpdatedInner P p =
     (let (appName, p) = ReadString P p; (contactName, p) = ReadString P p;
          (callType, p) = ReadInt32 P p; (callState, p) = ReadInt32 P p;
          (isVoiceAnswerSupported, p) = ReadBool P p
      in Some (OnVoIPStateUpdated \<lparr>voip_appName = appName, voip_contactName = contactName,
           voip_callType = callType, voip_callState = callState,
           voip_isVoiceAnswerSupported = isVoiceAnswerSupported\<rparr>))"

text \<open>The constructor: \<^verbatim>\<open>memberFuncMap_[code] = ...\<close>, a later assignment wins.\<close>

definition observer_memberFuncMap ::
    "('p, 'sig, 'cell, 'net) parcel_ops \<Rightarrow> uint32 \<rightharpoonup> ('p, 'sig, 'cell, 'net) inner" where
  "observer_memberFuncMap P = Map.empty(
     BROKER_CODE P M_CALL_STATE \<mapsto> OnCallStateUpdatedInner,
     BROKER_CODE P M_SIGNAL_STRENGTHS \<mapsto> OnSignalInfoUpdatedInner,
     BROKER_CODE P M_CELL_INFO \<mapsto> OnCellInfoUpdatedInner,
     BROKER_CODE P M_NETWORK_STATE \<mapsto> OnNetworkStateUpdatedInner,
     BROKER_CODE P M_SIM_STATE \<mapsto> OnSimStateUpdatedInner,
     BROKER_CODE P M_DATA_CONNECTION_STATE \<mapsto> OnCellularDataConnectStateUpdatedInner,
     BROKER_CODE P M_DATA_FLOW \<mapsto> OnCellularDataFlowUpdatedInner,
     BROKER_CODE P M_CFU_INDICATOR \<mapsto> OnCfuIndicatorUpdatedInner,
     BROKER_CODE P M_VOICE_MAIL_MSG_INDICATOR \<mapsto> OnVoiceMailMsgIndicatorUpdatedInner,
     BROKER_CODE P M_ICC_ACCOUNT \<mapsto> OnIccAccountUpdatedInner,
     BROKER_CODE P M_CALL_STATE_EX \<mapsto> OnCallStateUpdatedExInner,
     BROKER_CODE P M_CCALL_STATE \<mapsto> OnCCallStateUpdatedInner,
     BROKER_CODE P M_SIM_ACTIVE_STATE \<mapsto> OnSimActiveStateUpdatedInner,
     BROKER_CODE P M_VOIP_CALL_STATE \<mapsto> OnVoIPStateUpdatedInner)"

text \<open>
  The result code and the virtual method called, if any; \<open>dflt\<close> is the result of
  \<^verbatim>\<open>IPCObjectStub::OnRemoteRequest\<close> for a code the observer does not know.
\<close>

definition Observer_OnRemoteRequest ::
    "build \<Rightarrow> ('p, 'sig, 'cell, 'net) parcel_ops \<Rightarrow> int32 \<Rightarrow> uint32 \<Rightarrow> 'p \<Rightarrow>
     int32 \<times> ('sig, 'cell, 'net) observer_call option" where
  "Observer_OnRemoteRequest K P dflt code p =
     (let (token, p) = ReadInterfaceToken P p
      in if token \<noteq> OBSERVER_DESCRIPTOR P then (ERR K TELEPHONY_ERR_DESCRIPTOR_MISMATCH, None)
         else case observer_memberFuncMap P code of
                Some memberFunc \<Rightarrow> (NO_ERROR P, memberFunc P p)
              | None \<Rightarrow> (dflt, None))"

section \<open>What the proxy writes, the stub reads\<close>

text \<open>The integer arguments of a call are 32-bit integers.\<close>

fun int32_args :: "('sig, 'cell, 'net) observer_call \<Rightarrow> bool" where
  "int32_args (OnCallStateUpdated k st number) = (is_int32 k \<and> is_int32 st)"
| "int32_args (OnSignalInfoUpdated k v) = is_int32 k"
| "int32_args (OnNetworkStateUpdated k v) = is_int32 k"
| "int32_args (OnCellInfoUpdated k v) = is_int32 k"
| "int32_args (OnSimStateUpdated k a b c) = (is_int32 k \<and> is_int32 a \<and> is_int32 b \<and> is_int32 c)"
| "int32_args (OnCellularDataConnectStateUpdated k a b) = (is_int32 k \<and> is_int32 a \<and> is_int32 b)"
| "int32_args (OnCellularDataFlowUpdated k a) = (is_int32 k \<and> is_int32 a)"
| "int32_args (OnCfuIndicatorUpdated k v) = is_int32 k"
| "int32_args (OnVoiceMailMsgIndicatorUpdated k v) = is_int32 k"
| "int32_args OnIccAccountUpdated = True"
| "int32_args (OnCallStateUpdatedEx k a) = (is_int32 k \<and> is_int32 a)"
| "int32_args (OnCCallStateUpdated k a number) = (is_int32 k \<and> is_int32 a)"
| "int32_args (OnSimActiveStateUpdated k v) = is_int32 k"
| "int32_args (OnVoIPStateUpdated info) = (is_int32 (voip_callType info) \<and> is_int32 (voip_callState info))"

text \<open>
  The lists the observer's process can read back: no null element, within the bound, and only
  types that the reading loop has a case for.
\<close>

definition signals_ok :: "('p, 'sig, 'cell, 'net) parcel_ops \<Rightarrow> 'sig option list \<Rightarrow> bool" where
  "signals_ok P vec \<longleftrightarrow> int (length vec) \<le> MAX_SIGNAL_NUM P \<and>
     list_all (\<lambda>v. case v of None \<Rightarrow> False | Some sg \<Rightarrow>
       SignalTypeOf P sg \<in> SIGNAL_TYPE P ` {SIG_GSM, SIG_CDMA, SIG_LTE, SIG_NR, SIG_WCDMA}) vec"

definition cells_ok :: "('p, 'sig, 'cell, 'net) parcel_ops \<Rightarrow> 'cell option list \<Rightarrow> bool" where
  "cells_ok P vec \<longleftrightarrow> vec \<noteq> [] \<and> int (length vec) \<le> MAX_CELL_NUM P \<and>
     list_all (\<lambda>v. case v of None \<Rightarrow> False | Some c \<Rightarrow>
       CellTypeOf P c \<in> CELL_TYPE P ` {CELL_GSM, CELL_LTE, CELL_NR}) vec"

fun readable :: "('p, 'sig, 'cell, 'net) parcel_ops \<Rightarrow> ('sig, 'cell, 'net) observer_call \<Rightarrow> bool" where
  "readable P (OnSignalInfoUpdated k vec) = signals_ok P vec"
| "readable P (OnCellInfoUpdated k vec) = cells_ok P vec"
| "readable P (OnNetworkStateUpdated k ns) = (ns \<noteq> None)"
| "readable P c = True"

fun signal_items :: "('p, 'sig, 'cell, 'net) parcel_ops \<Rightarrow> 'sig option list \<Rightarrow> ('sig, 'cell, 'net) item list" where
  "signal_items P [] = []"
| "signal_items P (None # vec) = []"
| "signal_items P (Some v # vec) = IInt (SignalTypeOf P v) # ISignal v # signal_items P vec"

fun cell_items :: "('p, 'sig, 'cell, 'net) parcel_ops \<Rightarrow> 'cell option list \<Rightarrow> ('sig, 'cell, 'net) item list" where
  "cell_items P [] = []"
| "cell_items P (None # vec) = []"
| "cell_items P (Some v # vec) = IInt (CellTypeOf P v) # ICell v # cell_items P vec"

lemma marshal_signals:
  assumes "parcel_ok P A" and "list_all (\<lambda>v. v \<noteq> None) vec"
  shows "\<exists>p'. marshal_all (MarshalSignal P) vec p = Some p' \<and> A p' = A p @ signal_items P vec"
  using assms(2)
proof (induction vec arbitrary: p)
  case (Cons v vec)
  then obtain sg where v: "v = Some sg" by auto
  from Cons.prems Cons.IH [of "snd (MarshalSignal P sg p)"] show ?case
    by (auto simp: v write_rules [OF assms(1)])
qed simp

lemma marshal_cells:
  assumes "parcel_ok P A" and "list_all (\<lambda>v. v \<noteq> None) vec"
  shows "\<exists>p'. marshal_all (MarshalCell P) vec p = Some p' \<and> A p' = A p @ cell_items P vec"
  using assms(2)
proof (induction vec arbitrary: p)
  case (Cons v vec)
  then obtain c where v: "v = Some c" by auto
  from Cons.prems Cons.IH [of "snd (MarshalCell P c p)"] show ?case
    by (auto simp: v write_rules [OF assms(1)])
qed simp

lemma read_signals:
  assumes ok: "parcel_ok P A"
    and "list_all (\<lambda>v. case v of None \<Rightarrow> False | Some sg \<Rightarrow>
       SignalTypeOf P sg \<in> SIGNAL_TYPE P ` {SIG_GSM, SIG_CDMA, SIG_LTE, SIG_NR, SIG_WCDMA}) vec"
    and "A p = signal_items P vec @ es"
  shows "fst (ConvertSignalInfoList_loop P (length vec) p acc) = acc @ vec \<and>
    A (snd (ConvertSignalInfoList_loop P (length vec) p acc)) = es"
  using assms(2,3)
proof (induction vec arbitrary: p acc)
  case (Cons v vec)
  then obtain sg t where v: "v = Some sg" and t: "SignalTypeOf P sg = SIGNAL_TYPE P t"
    by (auto split: option.splits)
  define p1 where "p1 = snd (ReadInt32 P p)"
  have r1: "fst (ReadInt32 P p) = SIGNAL_TYPE P t" "A p1 = ISignal sg # signal_items P vec @ es"
    using Cons.prems by (simp_all add: v t p1_def read_rules [OF ok])
  have r2: "fst (ReadSignal P t p1) = sg" "A (snd (ReadSignal P t p1)) = signal_items P vec @ es"
    using t by (simp_all add: r1 read_rules [OF ok])
  have "ConvertSignalInfoList_loop P (Suc (length vec)) p acc =
      ConvertSignalInfoList_loop P (length vec) (snd (ReadSignal P t p1)) (acc @ [Some sg])"
    using r1 r2 by (cases t) (simp_all add: case_prod_beta tag_rules [OF ok] p1_def
        ConvertLteNrSignalInfoList_def Let_def)
  with Cons.IH [OF _ r2(2), of "acc @ [Some sg]"] Cons.prems(1) show ?case by (simp add: v)
qed simp

lemma read_cells:
  assumes ok: "parcel_ok P A"
    and "list_all (\<lambda>v. case v of None \<Rightarrow> False | Some c \<Rightarrow>
       CellTypeOf P c \<in> CELL_TYPE P ` {CELL_GSM, CELL_LTE, CELL_NR}) vec"
    and "A p = cell_items P vec @ es"
  shows "fst (ConvertCellInfoList_loop P (length vec) p acc) = acc @ vec \<and>
    A (snd (ConvertCellInfoList_loop P (length vec) p acc)) = es"
  using assms(2,3)
proof (induction vec arbitrary: p acc)
  case (Cons v vec)
  then obtain c t where v: "v = Some c" and t: "CellTypeOf P c = CELL_TYPE P t"
    by (auto split: option.splits)
  define p1 where "p1 = snd (ReadInt32 P p)"
  have r1: "fst (ReadInt32 P p) = CELL_TYPE P t" "A p1 = ICell c # cell_items P vec @ es"
    using Cons.prems by (simp_all add: v t p1_def read_rules [OF ok])
  have r2: "fst (ReadCell P t p1) = c" "A (snd (ReadCell P t p1)) = cell_items P vec @ es"
    using t by (simp_all add: r1 read_rules [OF ok])
  have "ConvertCellInfoList_loop P (Suc (length vec)) p acc =
      ConvertCellInfoList_loop P (length vec) (snd (ReadCell P t p1)) (acc @ [Some c])"
    using r1 r2 by (cases t) (simp_all add: case_prod_beta tag_rules [OF ok] p1_def Let_def)
  with Cons.IH [OF _ r2(2), of "acc @ [Some c]"] Cons.prems(1) show ?case by (simp add: v)
qed simp

lemma observer_memberFuncMap_code:
  assumes "parcel_ok P A"
  shows "observer_memberFuncMap P (BROKER_CODE P m) = Some (case m of
      M_CALL_STATE \<Rightarrow> OnCallStateUpdatedInner | M_SIGNAL_STRENGTHS \<Rightarrow> OnSignalInfoUpdatedInner
    | M_CELL_INFO \<Rightarrow> OnCellInfoUpdatedInner | M_NETWORK_STATE \<Rightarrow> OnNetworkStateUpdatedInner
    | M_SIM_STATE \<Rightarrow> OnSimStateUpdatedInner
    | M_DATA_CONNECTION_STATE \<Rightarrow> OnCellularDataConnectStateUpdatedInner
    | M_DATA_FLOW \<Rightarrow> OnCellularDataFlowUpdatedInner | M_CFU_INDICATOR \<Rightarrow> OnCfuIndicatorUpdatedInner
    | M_VOICE_MAIL_MSG_INDICATOR \<Rightarrow> OnVoiceMailMsgIndicatorUpdatedInner
    | M_ICC_ACCOUNT \<Rightarrow> OnIccAccountUpdatedInner | M_CALL_STATE_EX \<Rightarrow> OnCallStateUpdatedExInner
    | M_CCALL_STATE \<Rightarrow> OnCCallStateUpdatedInner | M_SIM_ACTIVE_STATE \<Rightarrow> OnSimActiveStateUpdatedInner
    | M_VOIP_CALL_STATE \<Rightarrow> OnVoIPStateUpdatedInner)"
  by (cases m) (simp_all add: observer_memberFuncMap_def tag_rules [OF assms])

text \<open>The contents of a request after the interface token.\<close>

fun wire :: "('p, 'sig, 'cell, 'net) parcel_ops \<Rightarrow> ('sig, 'cell, 'net) observer_call \<Rightarrow> ('sig, 'cell, 'net) item list" where
  "wire P (OnCallStateUpdated k st number) = [IInt k, IInt st, IStr16 number]"
| "wire P (OnSignalInfoUpdated k v) = IInt k # IInt (int (length v)) # signal_items P v"
| "wire P (OnNetworkStateUpdated k v) = IInt k # (case v of None \<Rightarrow> [] | Some ns \<Rightarrow> [INetwork ns])"
| "wire P (OnCellInfoUpdated k v) = IInt k # IInt (int (length v)) # cell_items P v"
| "wire P (OnSimStateUpdated k a b c) = [IInt k, IInt a, IInt b, IInt c]"
| "wire P (OnCellularDataConnectStateUpdated k a b) = [IInt k, IInt a, IInt b]"
| "wire P (OnCellularDataFlowUpdated k a) = [IInt k, IInt a]"
| "wire P (OnCfuIndicatorUpdated k v) = [IInt k, IBool v]"
| "wire P (OnVoiceMailMsgIndicatorUpdated k v) = [IInt k, IBool v]"
| "wire P OnIccAccountUpdated = []"
| "wire P (OnCallStateUpdatedEx k a) = [IInt k, IInt a]"
| "wire P (OnCCallStateUpdated k a number) = [IInt k, IInt a, IStr16 number]"
| "wire P (OnSimActiveStateUpdated k v) = [IInt k, IBool v]"
| "wire P (OnVoIPStateUpdated info) = [IStr (voip_appName info), IStr (voip_contactName info),
     IInt (voip_callType info), IInt (voip_callState info), IBool (voip_isVoiceAnswerSupported info)]"

lemmas proxy_defs = Proxy_OnCallStateUpdated_def Proxy_OnCallStateUpdatedEx_def
  Proxy_OnSimStateUpdated_def Proxy_OnNetworkStateUpdated_def
  Proxy_OnCellularDataConnectStateUpdated_def Proxy_OnCellularDataFlowUpdated_def
  Proxy_OnCfuIndicatorUpdated_def Proxy_OnVoiceMailMsgIndicatorUpdated_def
  Proxy_OnIccAccountUpdated_def Proxy_OnCCallStateUpdated_def Proxy_OnSimActiveStateUpdated_def
  Proxy_OnVoIPStateUpdated_def SendRequest_def

lemmas inner_defs = OnCallStateUpdatedInner_def OnSignalInfoUpdatedInner_def
  OnNetworkStateUpdatedInner_def OnCellInfoUpdatedInner_def OnSimStateUpdatedInner_def
  OnCellularDataConnectStateUpdatedInner_def OnCellularDataFlowUpdatedInner_def
  OnCfuIndicatorUpdatedInner_def OnVoiceMailMsgIndicatorUpdatedInner_def OnIccAccountUpdatedInner_def
  OnCallStateUpdatedExInner_def OnCCallStateUpdatedInner_def OnSimActiveStateUpdatedInner_def
  OnVoIPStateUpdatedInner_def

definition on_wire ::
    "('p, 'sig, 'cell, 'net) parcel_ops \<Rightarrow> ('p \<Rightarrow> ('sig, 'cell, 'net) item list) \<Rightarrow>
     ('sig, 'cell, 'net) observer_call \<Rightarrow> 'p sent \<Rightarrow> bool" where
  "on_wire P A c x \<longleftrightarrow> (\<exists>q. x = Delivered q \<and> req_code q = BROKER_CODE P (kind_of_call c) \<and>
     A (req_data q) = IToken (OBSERVER_DESCRIPTOR P) # wire P c)"

lemma small_int32: "int (length vec) \<le> 100 \<Longrightarrow> is_int32 (int (length vec))"
  by (simp add: is_int32_def)

lemma proxy_signals:
  assumes ok: "parcel_ok P A" and "is_int32 k" and sig: "signals_ok P vec"
  shows "on_wire P A (OnSignalInfoUpdated k vec) (Proxy_OnSignalInfoUpdated K P True ret k vec)"
proof -
  from sig have len: "int (length vec) \<le> MAX_SIGNAL_NUM P" by (simp add: signals_ok_def)
  with tag_rules(4) [OF ok] have n: "is_int32 (int (length vec))" by (intro small_int32) simp
  from sig have nn: "list_all (\<lambda>v. v \<noteq> None) vec"
    unfolding signals_ok_def by (auto elim!: list.pred_mono_strong split: option.splits)
  let ?p = "snd (WriteInt32 P (int (length vec)) (snd (WriteInt32 P k
      (snd (WriteInterfaceToken P (OBSERVER_DESCRIPTOR P) (EmptyParcel P))))))"
  from marshal_signals [OF ok nn, of ?p] obtain p' where
    "marshal_all (MarshalSignal P) vec ?p = Some p'" "A p' = A ?p @ signal_items P vec" by blast
  with len n assms(2) show ?thesis
    by (simp add: Proxy_OnSignalInfoUpdated_def SendRequest_def case_prod_beta Let_def on_wire_def
        to_int32_id write_rules [OF ok])
qed

lemma proxy_cells:
  assumes ok: "parcel_ok P A" and "is_int32 k" and cells: "cells_ok P vec"
  shows "on_wire P A (OnCellInfoUpdated k vec) (Proxy_OnCellInfoUpdated K P True ret k vec)"
proof -
  from cells have len: "int (length vec) \<le> MAX_CELL_NUM P" "vec \<noteq> []" by (simp_all add: cells_ok_def)
  with tag_rules(5) [OF ok] have n: "is_int32 (int (length vec))" by (intro small_int32) simp
  from cells have nn: "list_all (\<lambda>v. v \<noteq> None) vec"
    unfolding cells_ok_def by (auto elim!: list.pred_mono_strong split: option.splits)
  let ?p = "snd (WriteInt32 P (int (length vec)) (snd (WriteInt32 P k
      (snd (WriteInterfaceToken P (OBSERVER_DESCRIPTOR P) (EmptyParcel P))))))"
  from marshal_cells [OF ok nn, of ?p] obtain p' where
    "marshal_all (MarshalCell P) vec ?p = Some p'" "A p' = A ?p @ cell_items P vec" by blast
  with len n assms(2) show ?thesis
    by (simp add: Proxy_OnCellInfoUpdated_def SendRequest_def case_prod_beta Let_def on_wire_def
        to_int32_id write_rules [OF ok])
qed

lemma proxy_on_wire:
  assumes ok: "parcel_ok P A" and "int32_args c" and "readable P c"
  shows "on_wire P A c (proxy_call K P True ret c)"
proof (cases "\<exists>k vec. c = OnSignalInfoUpdated k vec \<or> (\<exists>cells. c = OnCellInfoUpdated k cells)")
  case True
  with assms show ?thesis by (auto intro: proxy_signals proxy_cells)
next
  case False
  with assms(2,3) show ?thesis
    by (cases c) (auto simp: proxy_defs case_prod_beta Let_def on_wire_def write_rules [OF ok])
qed

lemma read_back:
  assumes ok: "parcel_ok P A" and "readable P c" and "A p = wire P c"
  shows "the (observer_memberFuncMap P (BROKER_CODE P (kind_of_call c))) P p = Some c"
proof (cases "\<exists>k vec. c = OnSignalInfoUpdated k vec \<or> (\<exists>cells. c = OnCellInfoUpdated k cells)")
  case False
  with assms(2,3) show ?thesis
    by (cases c) (auto simp: observer_memberFuncMap_code [OF ok] inner_defs case_prod_beta Let_def
        read_rules [OF ok])
next
  case True
  then consider (sig) k vec where "c = OnSignalInfoUpdated k vec"
    | (cell) k vec where "c = OnCellInfoUpdated k vec" by blast
  then show ?thesis
  proof cases
    case sig
    with assms(2) have "list_all (\<lambda>v. case v of None \<Rightarrow> False | Some sg \<Rightarrow>
        SignalTypeOf P sg \<in> SIGNAL_TYPE P ` {SIG_GSM, SIG_CDMA, SIG_LTE, SIG_NR, SIG_WCDMA}) vec"
      and len: "int (length vec) \<le> 100"
      using tag_rules(4) [OF ok] by (simp_all add: signals_ok_def)
    from read_signals [OF ok this(1), of "snd (ReadInt32 P (snd (ReadInt32 P p)))" "[]" "[]"]
    show ?thesis using assms(3) len
      by (simp add: sig observer_memberFuncMap_code [OF ok] inner_defs case_prod_beta Let_def
          ConvertSignalInfoList_def SIGNAL_NUM_MAX_def read_rules [OF ok])
  next
    case cell
    with assms(2) have "list_all (\<lambda>v. case v of None \<Rightarrow> False | Some c \<Rightarrow>
        CellTypeOf P c \<in> CELL_TYPE P ` {CELL_GSM, CELL_LTE, CELL_NR}) vec"
      and len: "int (length vec) \<le> 100"
      using tag_rules(5) [OF ok] by (simp_all add: cells_ok_def)
    from read_cells [OF ok this(1), of "snd (ReadInt32 P (snd (ReadInt32 P p)))" "[]" "[]"]
    show ?thesis using assms(3) len
      by (simp add: cell observer_memberFuncMap_code [OF ok] inner_defs case_prod_beta Let_def
          ConvertCellInfoList_def CELL_NUM_MAX_def read_rules [OF ok])
  qed
qed

lemma observer_round_trip_lemma:
  assumes ok: "parcel_ok P A" and "int32_args c" and "readable P c"
  shows "\<exists>q. proxy_call K P True ret c = Delivered q \<and>
    Observer_OnRemoteRequest K P dflt (req_code q) (req_data q) = (NO_ERROR P, Some c)"
proof -
  from proxy_on_wire [OF assms, of K ret] obtain q where
    q: "proxy_call K P True ret c = Delivered q" "req_code q = BROKER_CODE P (kind_of_call c)"
      "A (req_data q) = IToken (OBSERVER_DESCRIPTOR P) # wire P c"
    by (auto simp: on_wire_def)
  then have "A (snd (ReadInterfaceToken P (req_data q))) = wire P c"
    by (simp add: read_rules [OF ok])
  from read_back [OF ok assms(3) this] q show ?thesis
    by (auto simp: Observer_OnRemoteRequest_def case_prod_beta Let_def read_rules [OF ok]
        observer_memberFuncMap_code [OF ok])
qed

lemma loop_bound_signals: "length (fst (ConvertSignalInfoList_loop P n p acc)) \<le> length acc + n"
proof (induction n arbitrary: p acc)
  case (Suc n)
  have "length (fst (ConvertSignalInfoList_loop P n p' acc')) \<le> Suc (length acc + n)"
    if "length acc' \<le> Suc (length acc)" for p' acc'
    using Suc.IH [of p' acc'] that by simp
  then show ?case by (simp add: case_prod_beta Let_def ConvertLteNrSignalInfoList_def)
qed simp

lemma loop_bound_cells: "length (fst (ConvertCellInfoList_loop P n p acc)) \<le> length acc + n"
proof (induction n arbitrary: p acc)
  case (Suc n)
  have "length (fst (ConvertCellInfoList_loop P n p' acc')) \<le> Suc (length acc + n)"
    if "length acc' \<le> Suc (length acc)" for p' acc'
    using Suc.IH [of p' acc'] that by simp
  then show ?case by (simp add: case_prod_beta Let_def)
qed simp

end
