(* ===== verification/Stub.thy ===== *)
theory Stub
  imports Observer_Ipc
begin

text \<open>
  The IPC stub of the service (\<^verbatim>\<open>services/src/telephony_state_registry_stub.cpp\<close>): the table of
  handlers, the check of the interface token, the watchdog timer, the decoding of every request
  and what is written to the reply.
\<close>

section \<open>Parameters\<close>

text \<open>The names of \<^verbatim>\<open>StateNotifyInterfaceCode\<close>.\<close>

datatype notify_code =
    C_CELL_INFO | C_SIM_STATE | C_SIGNAL_INFO | C_NET_WORK_STATE | C_CALL_STATE
  | C_CALL_STATE_FOR_ID | C_CELLULAR_DATA_STATE | C_CELLULAR_DATA_FLOW | C_ADD_OBSERVER
  | C_REMOVE_OBSERVER | C_CFU_INDICATOR | C_VOICE_MAIL_MSG_INDICATOR | C_ICC_ACCOUNT_CHANGE
  | C_SIM_ACTIVR_STATE | C_VOIP_CALL_STATE

text \<open>
  The request codes, the ranges of the VoIP enumerations, the watchdog, and what the system
  knows of the caller.
\<close>

record stub_env =
  NOTIFY_CODE :: "notify_code \<Rightarrow> uint32"
  VOIP_CALL_TYPE_MIN :: int32
  VOIP_CALL_TYPE_MAX :: int32
  VOIP_CALL_STATE_MIN :: int32
  VOIP_CALL_STATE_MAX :: int32
  HICOLLIE_ENABLE :: bool
  INVALID_ID :: int32
  XCollieSetTimer :: "string \<Rightarrow> int32"
  CallingUid :: int32
  CallingTokenID :: uint32
  CallingPid :: int32
  GetBundleNameByUid :: "int32 \<Rightarrow> string"
  HapTokenUserID :: "int32 \<Rightarrow> int32"
  GetAppIdentifier :: "string \<Rightarrow> int32 \<Rightarrow> string"
  BaseOnRemoteRequest :: "uint32 \<Rightarrow> int32"

section \<open>Handlers\<close>

text \<open>The return value, the service, what was written to the reply, and the effects.\<close>

type_synonym ('sig, 'cell, 'net) stub_outcome =
  "int32 \<times> ('sig, 'cell, 'net) service \<times> int32 list \<times> ('sig, 'cell, 'net) effect list"

type_synonym ('p, 'sig, 'cell, 'net) handler =
  "build \<Rightarrow> ('sig, 'cell, 'net) world \<Rightarrow> ('p, 'sig, 'cell, 'net) parcel_ops \<Rightarrow> stub_env \<Rightarrow>
   'p \<Rightarrow> ('sig, 'cell, 'net) service \<Rightarrow> ('sig, 'cell, 'net) stub_outcome"

definition OnUpdateCallState :: "('p, 'sig, 'cell, 'net) handler" where
  "OnUpdateCallState K E P V data s =
     (let (callState, data) = ReadInt32 P data; (phoneNumber, data) = ReadString16 P data;
          (ret, s, es) = UpdateCallState K E callState phoneNumber s
      in (NO_ERROR P, s, [ret], es))"

definition OnUpdateSimState :: "('p, 'sig, 'cell, 'net) handler" where
  "OnUpdateSimState K E P V data s =
     (let (slotId, data) = ReadInt32 P data; (type, data) = ReadInt32 P data;
          (st, data) = ReadInt32 P data; (reason, data) = ReadInt32 P data;
          (ret, s, es) = UpdateSimState K E slotId type st reason s
      in (NO_ERROR P, s, [ret], es))"

definition OnUpdateCallStateForSlotId :: "('p, 'sig, 'cell, 'net) handler" where
  "OnUpdateCallStateForSlotId K E P V data s =
     (let (slotId, data) = ReadInt32 P data; (callState, data) = ReadInt32 P data;
          (incomingNumber, data) = ReadString16 P data;
          (ret, s, es) = UpdateCallStateForSlotId K E slotId callState incomingNumber s
      in (NO_ERROR P, s, [ret], es))"

definition OnUpdateCellularDataConnectState :: "('p, 'sig, 'cell, 'net) handler" where
  "OnUpdateCellularDataConnectState K E P V data s =
     (let (slotId, data) = ReadInt32 P data; (dataState, data) = ReadInt32 P data;
          (networkType, data) = ReadInt32 P data;
          (ret, s, es) = UpdateCellularDataConnectState K E slotId dataState networkType s
      in (NO_ERROR P, s, [ret], es))"

definition OnUpdateCellularDataFlow :: "('p, 'sig, 'cell, 'net) handler" where
  "OnUpdateCellularDataFlow K E P V data s =
     (let (slotId, data) = ReadInt32 P data; (flowData, data) = ReadInt32 P data;
          (ret, s, es) = UpdateCellularDataFlow K E slotId flowData s
      in (NO_ERROR P, s, [ret], es))"

definition ParseLteNrSignalInfos ::
    "('p, 'sig, 'cell, 'net) parcel_ops \<Rightarrow> int32 \<Rightarrow> 'p \<Rightarrow> 'sig option list \<Rightarrow> 'sig option list \<times> 'p" where
  "ParseLteNrSignalInfos P type data result =
     (if type = SIGNAL_TYPE P SIG_LTE
      then let (signal, data) = ReadSignal P SIG_LTE data in (result @ [Some signal], data)
      else if type = SIGNAL_TYPE P SIG_NR
      then let (signal, data) = ReadSignal P SIG_NR data in (result @ [Some signal], data)
      else (result, data))"

text \<open>\<^verbatim>\<open>parseSignalInfos\<close>, \<open>n\<close> being the iterations left.\<close>

fun parseSignalInfos ::
    "('p, 'sig, 'cell, 'net) parcel_ops \<Rightarrow> 'p \<Rightarrow> nat \<Rightarrow> 'sig option list \<Rightarrow> 'sig option list \<times> 'p" where
  "parseSignalInfos P data 0 result = (result, data)"
| "parseSignalInfos P data (Suc n) result =
     (let (type, data) = ReadInt32 P data;
          (result, data) =
            (if type = SIGNAL_TYPE P SIG_GSM
             then let (signal, data) = ReadSignal P SIG_GSM data in (result @ [Some signal], data)
             else if type = SIGNAL_TYPE P SIG_CDMA
             then let (signal, data) = ReadSignal P SIG_CDMA data in (result @ [Some signal], data)
             else if type = SIGNAL_TYPE P SIG_LTE \<or> type = SIGNAL_TYPE P SIG_NR
             then ParseLteNrSignalInfos P type data result
             else if type = SIGNAL_TYPE P SIG_WCDMA
             then let (signal, data) = ReadSignal P SIG_WCDMA data in (result @ [Some signal], data)
             else (result, data))
      in parseSignalInfos P data n result)"

definition OnUpdateSignalInfo :: "('p, 'sig, 'cell, 'net) handler" where
  "OnUpdateSignalInfo K E P V data s =
     (let (slotId, data) = ReadInt32 P data; (size, data) = ReadInt32 P data;
          size = (if size > MAX_SIGNAL_NUM P then 0 else size)
      in if size < 0 then (ERR K TELEPHONY_ERR_FAIL, s, [], [])
         else let (result, data) = parseSignalInfos P data (nat size) [];
                  (ret, s, es) = UpdateSignalInfo K E slotId result s
              in (NO_ERROR P, s, [], es))"

fun parse_cells ::
    "('p, 'sig, 'cell, 'net) parcel_ops \<Rightarrow> 'p \<Rightarrow> nat \<Rightarrow> 'cell option list \<Rightarrow> 'cell option list \<times> 'p" where
  "parse_cells P data 0 cells = (cells, data)"
| "parse_cells P data (Suc n) cells =
     (let (type, data) = ReadInt32 P data;
          (cells, data) =
            (if type = CELL_TYPE P CELL_GSM
             then let (cell, data) = ReadCell P CELL_GSM data in (cells @ [Some cell], data)
             else if type = CELL_TYPE P CELL_LTE
             then let (cell, data) = ReadCell P CELL_LTE data in (cells @ [Some cell], data)
             else if type = CELL_TYPE P CELL_NR
             then let (cell, data) = ReadCell P CELL_NR data in (cells @ [Some cell], data)
             else (cells, data))
      in parse_cells P data n cells)"

definition OnUpdateCellInfo :: "('p, 'sig, 'cell, 'net) handler" where
  "OnUpdateCellInfo K E P V data s =
     (let (slotId, data) = ReadInt32 P data; (size, data) = ReadInt32 P data;
          size = (if size > MAX_CELL_NUM P then 0 else size)
      in if size \<le> 0 then (ERR K TELEPHONY_ERR_FAIL, s, [], [])
         else let (cells, data) = parse_cells P data (nat size) [];
                  (ret, s, es) = UpdateCellInfo K E slotId cells s
              in (NO_ERROR P, s, [], es))"

definition OnUpdateNetworkState :: "('p, 'sig, 'cell, 'net) handler" where
  "OnUpdateNetworkState K E P V data s =
     (let (slotId, data) = ReadInt32 P data; (result, data) = UnmarshalNetwork P data
      in if result = None then (ERR K TELEPHONY_ERR_FAIL, s, [], [])
         else let (ret, s, es) = UpdateNetworkState K E slotId result s
              in (NO_ERROR P, s, [ret], es))"

text \<open>\<^verbatim>\<open>RegisterStateChange\<close> and \<^verbatim>\<open>UnregisterStateChange\<close> of the stub add the caller's identity.\<close>

definition Stub_RegisterStateChange ::
    "build \<Rightarrow> ('sig, 'cell, 'net) world \<Rightarrow> stub_env \<Rightarrow> observer option \<Rightarrow> int32 \<Rightarrow> uint32 \<Rightarrow> bool \<Rightarrow>
     ('sig, 'cell, 'net) service \<Rightarrow> ('sig, 'cell, 'net) outcome" where
  "Stub_RegisterStateChange K E V telephonyObserver slotId msk isUpdate s =
     (let uid = CallingUid V;
          bundleName = GetBundleNameByUid V uid;
          tokenId = sint (CallingTokenID V);
          userID = HapTokenUserID V tokenId;
          appIdentifier = GetAppIdentifier V bundleName userID
      in RegisterStateChange K E telephonyObserver slotId msk bundleName isUpdate (CallingPid V) uid
           tokenId appIdentifier s)"

definition Stub_UnregisterStateChange ::
    "build \<Rightarrow> ('sig, 'cell, 'net) world \<Rightarrow> stub_env \<Rightarrow> int32 \<Rightarrow> uint32 \<Rightarrow>
     ('sig, 'cell, 'net) service \<Rightarrow> ('sig, 'cell, 'net) outcome" where
  "Stub_UnregisterStateChange K E V slotId msk s =
     (let tokenId = sint (CallingTokenID V)
      in UnregisterStateChange K E slotId msk tokenId (CallingPid V) s)"

text \<open>The result, what it writes to the reply, and the callback.\<close>

definition ReadData ::
    "build \<Rightarrow> ('p, 'sig, 'cell, 'net) parcel_ops \<Rightarrow> 'p \<Rightarrow> int32 \<times> int32 list \<times> observer option" where
  "ReadData K P data =
     (let (remote, data) = ReadRemoteObject P data
      in case remote of
           None \<Rightarrow> (ERR K TELEPHONY_ERR_FAIL, [ERR K TELEPHONY_ERR_FAIL], None)
         | Some rem \<Rightarrow>
             (case IfaceCast P rem of
                None \<Rightarrow> (ERR K TELEPHONY_ERR_FAIL, [ERR K TELEPHONY_ERR_FAIL], None)
              | Some callback \<Rightarrow> (ERR K TELEPHONY_SUCCESS, [], Some callback)))"

definition OnRegisterStateChange :: "('p, 'sig, 'cell, 'net) handler" where
  "OnRegisterStateChange K E P V data s =
     (let (slotId, data) = ReadInt32 P data; (msk, data) = ReadInt32 P data;
          (notifyNow, data) = ReadBool P data;
          (ret, reply, callback) = ReadData K P data
      in if ret \<noteq> ERR K TELEPHONY_SUCCESS then (NO_ERROR P, s, reply @ [ret], [])
         else let (ret, s, es) =
                    Stub_RegisterStateChange K E V callback slotId (to_uint32 msk) notifyNow s
              in (NO_ERROR P, s, reply @ [ret], es))"

definition OnUnregisterStateChange :: "('p, 'sig, 'cell, 'net) handler" where
  "OnUnregisterStateChange K E P V data s =
     (let (slotId, data) = ReadInt32 P data; (msk, data) = ReadInt32 P data;
          (ret, s, es) = Stub_UnregisterStateChange K E V slotId (to_uint32 msk) s
      in (NO_ERROR P, s, [ret], es))"

definition OnUpdateCfuIndicator :: "('p, 'sig, 'cell, 'net) handler" where
  "OnUpdateCfuIndicator K E P V data s =
     (let (slotId, data) = ReadInt32 P data; (cfuResult, data) = ReadBool P data;
          (ret, s, es) = UpdateCfuIndicator K E slotId cfuResult s
      in (NO_ERROR P, s, [ret], es))"

definition OnUpdateVoiceMailMsgIndicator :: "('p, 'sig, 'cell, 'net) handler" where
  "OnUpdateVoiceMailMsgIndicator K E P V data s =
     (let (slotId, data) = ReadInt32 P data; (voiceMailMsgResult, data) = ReadBool P data;
          (ret, s, es) = UpdateVoiceMailMsgIndicator K E slotId voiceMailMsgResult s
      in (NO_ERROR P, s, [ret], es))"

definition Stub_OnIccAccountUpdated :: "('p, 'sig, 'cell, 'net) handler" where
  "Stub_OnIccAccountUpdated K E P V data s =
     (let (ret, s, es) = UpdateIccAccount K E s in (NO_ERROR P, s, [ret], es))"

definition Stub_OnSimActiveStateUpdated :: "('p, 'sig, 'cell, 'net) handler" where
  "Stub_OnSimActiveStateUpdated K E P V data s =
     (let (slotId, data) = ReadInt32 P data; (activeStateResult, data) = ReadBool P data;
          (ret, s, es) = UpdateSimActiveState K E slotId activeStateResult s
      in (NO_ERROR P, s, [ret], es))"

definition OnUpdateVoIPCallState :: "('p, 'sig, 'cell, 'net) handler" where
  "OnUpdateVoIPCallState K E P V data s =
     (let (appName, data) = ReadString P data; (contactName, data) = ReadString P data;
          (callType, data) = ReadInt32 P data; (callState, data) = ReadInt32 P data;
          (isVoiceAnswerSupported, data) = ReadBool P data
      in if callType < VOIP_CALL_TYPE_MIN V \<or> callType > VOIP_CALL_TYPE_MAX V \<or>
            callState < VOIP_CALL_STATE_MIN V \<or> callState > VOIP_CALL_STATE_MAX V
         then (ERR K TELEPHONY_ERR_ARGUMENT_INVALID, s, [ERR K TELEPHONY_ERR_ARGUMENT_INVALID], [])
         else let info = \<lparr>voip_appName = appName, voip_contactName = contactName,
                          voip_callType = callType, voip_callState = callState,
                          voip_isVoiceAnswerSupported = isVoiceAnswerSupported\<rparr>;
                  (ret, s, es) = UpdateVoIPCallState K E info s
              in (NO_ERROR P, s, [ret], es))"

section \<open>Dispatch\<close>

text \<open>The constructor: \<^verbatim>\<open>memberFuncMap_[code] = ...\<close>\<close>

definition stub_memberFuncMap :: "stub_env \<Rightarrow> uint32 \<rightharpoonup> ('p, 'sig, 'cell, 'net) handler" where
  "stub_memberFuncMap V = Map.empty(
     NOTIFY_CODE V C_CELL_INFO \<mapsto> OnUpdateCellInfo,
     NOTIFY_CODE V C_SIM_STATE \<mapsto> OnUpdateSimState,
     NOTIFY_CODE V C_SIGNAL_INFO \<mapsto> OnUpdateSignalInfo,
     NOTIFY_CODE V C_NET_WORK_STATE \<mapsto> OnUpdateNetworkState,
     NOTIFY_CODE V C_CALL_STATE \<mapsto> OnUpdateCallState,
     NOTIFY_CODE V C_CALL_STATE_FOR_ID \<mapsto> OnUpdateCallStateForSlotId,
     NOTIFY_CODE V C_CELLULAR_DATA_STATE \<mapsto> OnUpdateCellularDataConnectState,
     NOTIFY_CODE V C_CELLULAR_DATA_FLOW \<mapsto> OnUpdateCellularDataFlow,
     NOTIFY_CODE V C_ADD_OBSERVER \<mapsto> OnRegisterStateChange,
     NOTIFY_CODE V C_REMOVE_OBSERVER \<mapsto> OnUnregisterStateChange,
     NOTIFY_CODE V C_CFU_INDICATOR \<mapsto> OnUpdateCfuIndicator,
     NOTIFY_CODE V C_VOICE_MAIL_MSG_INDICATOR \<mapsto> OnUpdateVoiceMailMsgIndicator,
     NOTIFY_CODE V C_ICC_ACCOUNT_CHANGE \<mapsto> Stub_OnIccAccountUpdated,
     NOTIFY_CODE V C_SIM_ACTIVR_STATE \<mapsto> Stub_OnSimActiveStateUpdated,
     NOTIFY_CODE V C_VOIP_CALL_STATE \<mapsto> OnUpdateVoIPCallState)"

text \<open>\<^verbatim>\<open>collieCodeStringMap_\<close> of the header, and the watchdog calls made for a request.\<close>

definition collieCodeStringMap :: "stub_env \<Rightarrow> uint32 \<rightharpoonup> string" where
  "collieCodeStringMap V = [NOTIFY_CODE V C_ADD_OBSERVER \<mapsto> ''ADD_OBSERVER'']"

datatype timer_call = TimerSet string int32 | TimerCancel int32

definition SetTimer :: "stub_env \<Rightarrow> uint32 \<Rightarrow> int32 \<times> timer_call list" where
  "SetTimer V code =
     (if HICOLLIE_ENABLE V
      then case collieCodeStringMap V code of
             Some collieStr \<Rightarrow>
               let collieName = ''TelephonyStateRegistryStub: '' @ collieStr;
                   idTimer = XCollieSetTimer V collieName
               in (idTimer, [TimerSet collieName idTimer])
           | None \<Rightarrow> (INVALID_ID V, [])
      else (-1, []))"

definition CancelTimer :: "stub_env \<Rightarrow> int32 \<Rightarrow> timer_call list" where
  "CancelTimer V idTimer =
     (if HICOLLIE_ENABLE V then if idTimer = INVALID_ID V then [] else [TimerCancel idTimer] else [])"

definition Stub_OnRemoteRequest ::
    "build \<Rightarrow> ('sig, 'cell, 'net) world \<Rightarrow> ('p, 'sig, 'cell, 'net) parcel_ops \<Rightarrow> stub_env \<Rightarrow> uint32 \<Rightarrow>
     'p \<Rightarrow> ('sig, 'cell, 'net) service \<Rightarrow> ('sig, 'cell, 'net) stub_outcome \<times> timer_call list" where
  "Stub_OnRemoteRequest K E P V code data s =
     (let myToken = REGISTRY_DESCRIPTOR P; (remoteToken, data) = ReadInterfaceToken P data
      in if myToken \<noteq> remoteToken then ((ERR K TELEPHONY_ERR_DESCRIPTOR_MISMATCH, s, [], []), [])
         else case stub_memberFuncMap V code of
                Some memberFunc \<Rightarrow>
                  let (idTimer, ts) = SetTimer V code;
                      out = memberFunc K E P V data s
                  in (out, ts @ CancelTimer V idTimer)
              | None \<Rightarrow> ((BaseOnRemoteRequest V code, s, [], []), []))"

section \<open>The stub adds nothing to the service\<close>

lemmas handler_defs = OnUpdateCellInfo_def OnUpdateSimState_def OnUpdateSignalInfo_def
  OnUpdateNetworkState_def OnUpdateCallState_def OnUpdateCallStateForSlotId_def
  OnUpdateCellularDataConnectState_def OnUpdateCellularDataFlow_def OnUpdateCfuIndicator_def
  OnUpdateVoiceMailMsgIndicator_def Stub_OnIccAccountUpdated_def Stub_OnSimActiveStateUpdated_def
  OnUpdateVoIPCallState_def

lemma ParseLteNr_eq: "ParseLteNrSignalInfos = ConvertLteNrSignalInfoList"
  by (intro ext) (simp add: ParseLteNrSignalInfos_def ConvertLteNrSignalInfoList_def)

lemma parseSignalInfos_eq: "parseSignalInfos P data n result = ConvertSignalInfoList_loop P n data result"
  by (induction n arbitrary: data result) (simp_all add: ParseLteNr_eq Let_def case_prod_beta)

lemma parse_cells_eq: "parse_cells P data n cells = ConvertCellInfoList_loop P n data cells"
  by (induction n arbitrary: data cells) (simp_all add: Let_def case_prod_beta)

text \<open>
  The updates that can come out of a request: bounded lists without null elements, a network state, and
  VoIP values in range. Nothing is checked of the other numbers (call states, and the card type, SIM state
  and lock reason, which \<^verbatim>\<open>OnUpdateSimState\<close> casts to their enumerations unchecked).
\<close>

fun well_formed :: "('p, 'sig, 'cell, 'net) parcel_ops \<Rightarrow> stub_env \<Rightarrow> ('sig, 'cell, 'net) update \<Rightarrow> bool" where
  "well_formed P V (USignal k vec) =
     ((vec = [] \<or> int (length vec) \<le> MAX_SIGNAL_NUM P) \<and> None \<notin> set vec)"
| "well_formed P V (UCell k vec) = (int (length vec) \<le> MAX_CELL_NUM P \<and> None \<notin> set vec)"
| "well_formed P V (UNetwork k ns) = (ns \<noteq> None)"
| "well_formed P V (UVoIP info) =
     (VOIP_CALL_TYPE_MIN V \<le> voip_callType info \<and> voip_callType info \<le> VOIP_CALL_TYPE_MAX V \<and>
      VOIP_CALL_STATE_MIN V \<le> voip_callState info \<and> voip_callState info \<le> VOIP_CALL_STATE_MAX V)"
| "well_formed P V u = True"

text \<open>The registration and the subscription that belong to the calling process.\<close>

definition caller_registration :: "stub_env \<Rightarrow> observer \<Rightarrow> int32 \<Rightarrow> uint32 \<Rightarrow> bool \<Rightarrow> registration" where
  "caller_registration V ob slotId msk isUpdate =
     (let tokenId = sint (CallingTokenID V); bundleName = GetBundleNameByUid V (CallingUid V)
      in \<lparr>rq_observer = Some ob, rq_key = (slotId, msk, tokenId, CallingPid V), rq_bundleName = bundleName,
          rq_isUpdate = isUpdate, rq_uid = CallingUid V,
          rq_appIdentifier = GetAppIdentifier V bundleName (HapTokenUserID V tokenId)\<rparr>)"

lemma caller_observer: "rq_observer (caller_registration V ob slotId msk isUpdate) \<noteq> None"
  by (simp add: caller_registration_def Let_def)

definition caller_key :: "stub_env \<Rightarrow> int32 \<Rightarrow> uint32 \<Rightarrow> reg_key" where
  "caller_key V slotId msk = (slotId, msk, sint (CallingTokenID V), CallingPid V)"

text \<open>What a request may do to the service: nothing, or exactly one operation of it.\<close>

definition serves ::
    "build \<Rightarrow> ('sig, 'cell, 'net) world \<Rightarrow> ('p, 'sig, 'cell, 'net) parcel_ops \<Rightarrow> stub_env \<Rightarrow>
     ('sig, 'cell, 'net) service \<Rightarrow> ('sig, 'cell, 'net) stub_outcome \<Rightarrow> bool" where
  "serves K E P V s out \<longleftrightarrow>
     (fst (snd out), snd (snd (snd out))) = (s, []) \<or>
     (\<exists>u. well_formed P V u \<and> (fst (snd out), snd (snd (snd out))) = snd (run_update K E u s)) \<or>
     (\<exists>ob slotId msk isUpdate. (fst (snd out), snd (snd (snd out))) =
        snd (run_register K E (caller_registration V ob slotId msk isUpdate) s)) \<or>
     (\<exists>slotId msk. (fst (snd out), snd (snd (snd out))) = snd (run_unregister K E (caller_key V slotId msk) s))"

lemma loop_nonnull_signals:
  "None \<notin> set acc \<Longrightarrow> None \<notin> set (fst (ConvertSignalInfoList_loop P n p acc))"
  by (induction n arbitrary: p acc) (simp_all add: case_prod_beta Let_def ConvertLteNrSignalInfoList_def)

lemma loop_nonnull_cells:
  "None \<notin> set acc \<Longrightarrow> None \<notin> set (fst (ConvertCellInfoList_loop P n p acc))"
  by (induction n arbitrary: p acc) (simp_all add: case_prod_beta Let_def)

lemma serves_update:
  assumes "well_formed P V u"
  shows "serves K E P V s
    (code, fst (snd (run_update K E u s)), reply, snd (snd (run_update K E u s)))"
  using assms unfolding serves_def by (metis fst_conv snd_conv prod.collapse)

lemma serves_nothing: "serves K E P V s (code, s, reply, [])"
  by (simp add: serves_def)

lemma signals_well_formed:
  assumes "0 \<le> n" and "n \<le> MAX_SIGNAL_NUM P \<or> n = 0"
  shows "well_formed P V (USignal k (fst (parseSignalInfos P data (nat n) [])))"
  using assms loop_bound_signals [of P "nat n" data "[]"]
  by (auto simp: parseSignalInfos_eq loop_nonnull_signals)

lemma cells_well_formed:
  assumes "0 < n" and "n \<le> MAX_CELL_NUM P"
  shows "well_formed P V (UCell k (fst (parse_cells P data (nat n) [])))"
  using assms loop_bound_cells [of P "nat n" data "[]"]
  by (auto simp: parse_cells_eq loop_nonnull_cells)

lemma serves_handlers:
  "serves K E P V s (OnUpdateCallState K E P V data s)"
  "serves K E P V s (OnUpdateSimState K E P V data s)"
  "serves K E P V s (OnUpdateCallStateForSlotId K E P V data s)"
  "serves K E P V s (OnUpdateCellularDataConnectState K E P V data s)"
  "serves K E P V s (OnUpdateCellularDataFlow K E P V data s)"
  "serves K E P V s (OnUpdateCfuIndicator K E P V data s)"
  "serves K E P V s (OnUpdateVoiceMailMsgIndicator K E P V data s)"
  "serves K E P V s (Stub_OnIccAccountUpdated K E P V data s)"
  "serves K E P V s (Stub_OnSimActiveStateUpdated K E P V data s)"
  using serves_update [of P V "UCall st number" for st number]
    serves_update [of P V "USim k a b c" for k a b c]
    serves_update [of P V "UCallSlot k st number" for k st number]
    serves_update [of P V "UDataConnect k a b" for k a b]
    serves_update [of P V "UDataFlow k a" for k a]
    serves_update [of P V "UCfu k v" for k v]
    serves_update [of P V "UVoiceMail k v" for k v]
    serves_update [of P V UIccAccount]
    serves_update [of P V "USimActive k v" for k v]
  by (simp_all add: handler_defs case_prod_beta Let_def)

lemma serves_voip: "serves K E P V s (OnUpdateVoIPCallState K E P V data s)"
  using serves_update [of P V "UVoIP info" for info]
  by (simp add: OnUpdateVoIPCallState_def case_prod_beta Let_def serves_nothing not_less)

lemma serves_network: "serves K E P V s (OnUpdateNetworkState K E P V data s)"
  using serves_update [of P V "UNetwork k v" for k v]
  by (simp add: OnUpdateNetworkState_def case_prod_beta Let_def serves_nothing)

lemma serves_signal: "serves K E P V s (OnUpdateSignalInfo K E P V data s)"
proof -
  let ?k = "fst (ReadInt32 P data)" and ?data = "snd (ReadInt32 P (snd (ReadInt32 P data)))"
  define n where "n = (if fst (ReadInt32 P (snd (ReadInt32 P data))) > MAX_SIGNAL_NUM P then 0
    else fst (ReadInt32 P (snd (ReadInt32 P data))))"
  have eq: "OnUpdateSignalInfo K E P V data s =
     (if n < 0 then (ERR K TELEPHONY_ERR_FAIL, s, [], [])
      else (NO_ERROR P,
        fst (snd (run_update K E (USignal ?k (fst (parseSignalInfos P ?data (nat n) []))) s)), [],
        snd (snd (run_update K E (USignal ?k (fst (parseSignalInfos P ?data (nat n) []))) s))))"
    unfolding OnUpdateSignalInfo_def case_prod_beta Let_def n_def run_update.simps by (rule refl)
  have "n \<le> MAX_SIGNAL_NUM P \<or> n = 0" by (simp add: n_def)
  then have "0 \<le> n \<Longrightarrow> well_formed P V (USignal ?k (fst (parseSignalInfos P ?data (nat n) [])))"
    by (rule signals_well_formed [rotated])
  from serves_update [OF this] show ?thesis
    unfolding eq by (simp only: serves_nothing not_less split: if_split) simp
qed

lemma serves_cell: "serves K E P V s (OnUpdateCellInfo K E P V data s)"
proof -
  let ?k = "fst (ReadInt32 P data)" and ?data = "snd (ReadInt32 P (snd (ReadInt32 P data)))"
  define n where "n = (if fst (ReadInt32 P (snd (ReadInt32 P data))) > MAX_CELL_NUM P then 0
    else fst (ReadInt32 P (snd (ReadInt32 P data))))"
  have eq: "OnUpdateCellInfo K E P V data s =
     (if n \<le> 0 then (ERR K TELEPHONY_ERR_FAIL, s, [], [])
      else (NO_ERROR P,
        fst (snd (run_update K E (UCell ?k (fst (parse_cells P ?data (nat n) []))) s)), [],
        snd (snd (run_update K E (UCell ?k (fst (parse_cells P ?data (nat n) []))) s))))"
    unfolding OnUpdateCellInfo_def case_prod_beta Let_def n_def run_update.simps by (rule refl)
  have "0 < n \<Longrightarrow> n \<le> MAX_CELL_NUM P" by (simp add: n_def split: if_splits)
  then have "0 < n \<Longrightarrow> well_formed P V (UCell ?k (fst (parse_cells P ?data (nat n) [])))"
    by (rule cells_well_formed [rotated])
  from serves_update [OF this] show ?thesis
    unfolding eq by (simp only: serves_nothing not_le split: if_split) simp
qed

lemma stub_register_eq:
  "Stub_RegisterStateChange K E V (Some ob) slotId msk b s = run_register K E (caller_registration V ob slotId msk b) s"
  by (simp add: Stub_RegisterStateChange_def run_register_def caller_registration_def Let_def)

lemma stub_unregister_eq:
  "Stub_UnregisterStateChange K E V slotId msk s = run_unregister K E (caller_key V slotId msk) s"
  by (simp add: Stub_UnregisterStateChange_def run_unregister_def caller_key_def Let_def)

lemma serves_register_with:
  "serves K E P V s
    (code, fst (snd (Stub_RegisterStateChange K E V (Some ob) slotId msk b s)), reply,
     snd (snd (Stub_RegisterStateChange K E V (Some ob) slotId msk b s)))"
  unfolding serves_def stub_register_eq fst_conv snd_conv prod.collapse by blast

lemma ReadData_cases:
  "(ReadData K P data = (ERR K TELEPHONY_ERR_FAIL, [ERR K TELEPHONY_ERR_FAIL], None)) \<or>
   (\<exists>ob. ReadData K P data = (ERR K TELEPHONY_SUCCESS, [], Some ob))"
  by (simp add: ReadData_def case_prod_beta split: option.split)

lemma serves_register:
  assumes "codes_ok K"
  shows "serves K E P V s (OnRegisterStateChange K E P V data s)"
proof -
  let ?data = "snd (ReadBool P (snd (ReadInt32 P (snd (ReadInt32 P data)))))"
  from ReadData_cases [of K P ?data] show ?thesis
    by (auto simp: OnRegisterStateChange_def case_prod_beta Let_def serves_nothing
        codes_okD [OF assms] serves_register_with)
qed

lemma serves_unregister: "serves K E P V s (OnUnregisterStateChange K E P V data s)"
proof -
  have "\<exists>slotId msk. (fst (snd (OnUnregisterStateChange K E P V data s)),
      snd (snd (snd (OnUnregisterStateChange K E P V data s)))) = snd (run_unregister K E (caller_key V slotId msk) s)"
    by (simp add: OnUnregisterStateChange_def stub_unregister_eq case_prod_beta Let_def) blast
  then show ?thesis unfolding serves_def by blast
qed

lemma stub_serves:
  fixes P :: "('p, 'sig, 'cell, 'net) parcel_ops"
  assumes "codes_ok K"
  shows "serves K E P V s (fst (Stub_OnRemoteRequest K E P V code data s))"
proof (cases "REGISTRY_DESCRIPTOR P = fst (ReadInterfaceToken P data) \<and>
    (stub_memberFuncMap V code :: ('p, 'sig, 'cell, 'net) handler option) \<noteq> None")
  case False
  then show ?thesis
    by (auto simp: Stub_OnRemoteRequest_def case_prod_beta Let_def serves_nothing split: option.split)
next
  case True
  then obtain f :: "('p, 'sig, 'cell, 'net) handler"
    where f: "stub_memberFuncMap V code = Some f" by auto
  then have "f \<in> {OnUpdateCellInfo, OnUpdateSimState, OnUpdateSignalInfo, OnUpdateNetworkState,
      OnUpdateCallState, OnUpdateCallStateForSlotId, OnUpdateCellularDataConnectState,
      OnUpdateCellularDataFlow, OnRegisterStateChange, OnUnregisterStateChange, OnUpdateCfuIndicator,
      OnUpdateVoiceMailMsgIndicator, Stub_OnIccAccountUpdated, Stub_OnSimActiveStateUpdated,
      OnUpdateVoIPCallState}"
    by (simp add: stub_memberFuncMap_def split: if_splits)
  then have "serves K E P V s (f K E P V d s)" for d
    using serves_handlers serves_voip serves_network serves_signal serves_cell
      serves_register [OF assms] serves_unregister
    by (elim insertE) simp_all
  with True f show ?thesis by (simp add: Stub_OnRemoteRequest_def case_prod_beta Let_def)
qed

section \<open>What every request keeps\<close>

definition observers_ok :: "('sig, 'cell, 'net) service \<Rightarrow> bool" where
  "observers_ok s \<longleftrightarrow> (\<forall>r \<in> set (stateRecords_of s). telephonyObserver_of r \<noteq> None)"

lemma run_update_records: "stateRecords_of (fst (snd (run_update K E u s))) = stateRecords_of s"
  by (cases "slot_verified s u \<and> update_allowed E u")
    (simp_all add: run_update_sections run_update_rejected case_prod_beta Let_def frame_simps)

lemma observer_of_new_record [simp]: "telephonyObserver_of (new_record k x) = fst x"
  by (cases k; cases x) simp

lemma serves_keeps:
  assumes "serves K E P V s out" and "registry_ok K s \<and> observers_ok s"
  shows "registry_ok K (fst (snd out)) \<and> observers_ok (fst (snd out))"
proof -
  let ?s' = "fst (snd out)" and ?es = "snd (snd (snd out))"
  consider (nothing) "?s' = s"
    | (update) u where "(?s', ?es) = snd (run_update K E u s)"
    | (register) q where "rq_observer q \<noteq> None" "(?s', ?es) = snd (run_register K E q s)"
    | (unregister) k where "(?s', ?es) = snd (run_unregister K E k s)"
    using assms(1) unfolding serves_def by (elim disjE exE conjE) (simp, blast, metis caller_observer, blast)
  then show ?thesis
  proof cases
    case nothing
    with assms(2) show ?thesis by simp
  next
    case update
    then have "stateRecords_of ?s' = stateRecords_of s"
      using run_update_records [of K E u s] by (metis fst_conv)
    with assms(2) show ?thesis by (simp add: registry_ok_def observers_ok_def)
  next
    case register
    then have run: "run_register K E q s = (fst (run_register K E q s), ?s', ?es)" by (metis prod.collapse)
    from registry_ok_run_register [OF run] records_run_register [OF run] register(1) assms(2)
    show ?thesis by (auto simp: observers_ok_def)
  next
    case unregister
    then have run: "run_unregister K E k s = (fst (run_unregister K E k s), ?s', ?es)"
      by (metis prod.collapse)
    from registry_ok_run_unregister [OF run] records_run_unregister [OF run] assms(2)
    show ?thesis by (auto simp: observers_ok_def)
  qed
qed

text \<open>A history of requests, each with the caller and the system state of its own.\<close>

type_synonym ('p, 'sig, 'cell, 'net) call =
  "('sig, 'cell, 'net) world \<times> stub_env \<times> uint32 \<times> 'p"

definition serve_all ::
    "build \<Rightarrow> ('p, 'sig, 'cell, 'net) parcel_ops \<Rightarrow> ('p, 'sig, 'cell, 'net) call list \<Rightarrow>
     ('sig, 'cell, 'net) service \<Rightarrow> ('sig, 'cell, 'net) service" where
  "serve_all K P calls s =
     fold (\<lambda>(E, V, code, data) s. fst (snd (fst (Stub_OnRemoteRequest K E P V code data s)))) calls s"

lemma serve_all_keeps:
  assumes "codes_ok K" and "registry_ok K s \<and> observers_ok s"
  shows "registry_ok K (serve_all K P calls s) \<and> observers_ok (serve_all K P calls s)"
  using assms(2)
proof (induction calls arbitrary: s)
  case Nil
  then show ?case by (simp add: serve_all_def)
next
  case (Cons c calls)
  obtain E V code data where c: "c = (E, V, code, data)" by (cases c)
  from Cons.IH [OF serves_keeps [OF stub_serves [OF assms(1)] Cons.prems]]
  show ?case by (simp add: serve_all_def c)
qed

lemma construct_registry_ok: "registry_ok K (construct_service K) \<and> observers_ok (construct_service K)"
  by (simp add: registry_ok_def observers_ok_def)

text \<open>A watchdog timer that was set is cancelled before the request returns.\<close>

lemma stub_timers:
  "snd (Stub_OnRemoteRequest K E P V code data s) \<in>
     {[]} \<union> {[TimerSet name id, TimerCancel id] | name id. id \<noteq> INVALID_ID V} \<union>
     {[TimerSet name (INVALID_ID V)] | name. True}"
  by (auto simp: Stub_OnRemoteRequest_def SetTimer_def CancelTimer_def case_prod_beta Let_def
      split: option.split)

text \<open>
  A registration whose remote object is missing registers nothing, and the failure is written to the
  reply twice, once by the function that reads the object and once by its caller.
\<close>

lemma register_null_observer:
  assumes "codes_ok K" and "\<And>p. fst (ReadRemoteObject P p) = None"
  shows "OnRegisterStateChange K E P V data s =
    (NO_ERROR P, s, [ERR K TELEPHONY_ERR_FAIL, ERR K TELEPHONY_ERR_FAIL], [])"
  using assms codes_okD [OF assms(1), of TELEPHONY_ERR_FAIL]
  by (simp add: OnRegisterStateChange_def ReadData_def case_prod_beta Let_def)

section \<open>Every request does what it says\<close>

text \<open>The code and the contents of the request for an update, as the producers send it.\<close>

fun update_code :: "('sig, 'cell, 'net) update \<Rightarrow> notify_code" where
  "update_code (UDataConnect k st type) = C_CELLULAR_DATA_STATE"
| "update_code (UDataFlow k v) = C_CELLULAR_DATA_FLOW"
| "update_code (UCall st number) = C_CALL_STATE"
| "update_code (UCallSlot k st number) = C_CALL_STATE_FOR_ID"
| "update_code (USim k type st reason) = C_SIM_STATE"
| "update_code (USignal k v) = C_SIGNAL_INFO"
| "update_code (UCell k v) = C_CELL_INFO"
| "update_code (UNetwork k v) = C_NET_WORK_STATE"
| "update_code (UCfu k v) = C_CFU_INDICATOR"
| "update_code (UVoiceMail k v) = C_VOICE_MAIL_MSG_INDICATOR"
| "update_code (USimActive k v) = C_SIM_ACTIVR_STATE"
| "update_code UIccAccount = C_ICC_ACCOUNT_CHANGE"
| "update_code (UVoIP info) = C_VOIP_CALL_STATE"

fun update_wire ::
    "('p, 'sig, 'cell, 'net) parcel_ops \<Rightarrow> ('sig, 'cell, 'net) update \<Rightarrow> ('sig, 'cell, 'net) item list" where
  "update_wire P (UDataConnect k st type) = [IInt k, IInt st, IInt type]"
| "update_wire P (UDataFlow k v) = [IInt k, IInt v]"
| "update_wire P (UCall st number) = [IInt st, IStr16 number]"
| "update_wire P (UCallSlot k st number) = [IInt k, IInt st, IStr16 number]"
| "update_wire P (USim k type st reason) = [IInt k, IInt type, IInt st, IInt reason]"
| "update_wire P (USignal k v) = IInt k # IInt (int (length v)) # signal_items P v"
| "update_wire P (UCell k v) = IInt k # IInt (int (length v)) # cell_items P v"
| "update_wire P (UNetwork k v) = IInt k # (case v of None \<Rightarrow> [] | Some ns \<Rightarrow> [INetwork ns])"
| "update_wire P (UCfu k v) = [IInt k, IBool v]"
| "update_wire P (UVoiceMail k v) = [IInt k, IBool v]"
| "update_wire P (USimActive k v) = [IInt k, IBool v]"
| "update_wire P UIccAccount = []"
| "update_wire P (UVoIP info) = [IStr (voip_appName info), IStr (voip_contactName info),
     IInt (voip_callType info), IInt (voip_callState info), IBool (voip_isVoiceAnswerSupported info)]"

text \<open>The payloads that can be sent: as for the observer's calls.\<close>

fun sendable :: "('p, 'sig, 'cell, 'net) parcel_ops \<Rightarrow> ('sig, 'cell, 'net) update \<Rightarrow> bool" where
  "sendable P (USignal k v) = signals_ok P v"
| "sendable P (UCell k v) = cells_ok P v"
| "sendable P (UNetwork k v) = (v \<noteq> None)"
| "sendable P u = True"

fun voip_in_range :: "stub_env \<Rightarrow> ('sig, 'cell, 'net) update \<Rightarrow> bool" where
  "voip_in_range V (UVoIP info) = (voip_callType info \<in> {VOIP_CALL_TYPE_MIN V..VOIP_CALL_TYPE_MAX V} \<and>
     voip_callState info \<in> {VOIP_CALL_STATE_MIN V..VOIP_CALL_STATE_MAX V})"
| "voip_in_range V u = True"

text \<open>The handler of each code.\<close>

lemma stub_memberFuncMap_code:
  assumes "inj (NOTIFY_CODE V)"
  shows "stub_memberFuncMap V (NOTIFY_CODE V c) = Some (case c of
      C_CELL_INFO \<Rightarrow> OnUpdateCellInfo | C_SIM_STATE \<Rightarrow> OnUpdateSimState | C_SIGNAL_INFO \<Rightarrow> OnUpdateSignalInfo
    | C_NET_WORK_STATE \<Rightarrow> OnUpdateNetworkState | C_CALL_STATE \<Rightarrow> OnUpdateCallState
    | C_CALL_STATE_FOR_ID \<Rightarrow> OnUpdateCallStateForSlotId
    | C_CELLULAR_DATA_STATE \<Rightarrow> OnUpdateCellularDataConnectState
    | C_CELLULAR_DATA_FLOW \<Rightarrow> OnUpdateCellularDataFlow | C_ADD_OBSERVER \<Rightarrow> OnRegisterStateChange
    | C_REMOVE_OBSERVER \<Rightarrow> OnUnregisterStateChange | C_CFU_INDICATOR \<Rightarrow> OnUpdateCfuIndicator
    | C_VOICE_MAIL_MSG_INDICATOR \<Rightarrow> OnUpdateVoiceMailMsgIndicator
    | C_ICC_ACCOUNT_CHANGE \<Rightarrow> Stub_OnIccAccountUpdated | C_SIM_ACTIVR_STATE \<Rightarrow> Stub_OnSimActiveStateUpdated
    | C_VOIP_CALL_STATE \<Rightarrow> OnUpdateVoIPCallState)"
  by (cases c) (simp_all add: stub_memberFuncMap_def inj_eq [OF assms])

lemma stub_request:
  assumes ok: "parcel_ok P A" and codes: "inj (NOTIFY_CODE V)" and data: "A data = IToken (REGISTRY_DESCRIPTOR P) # items"
  obtains d where "A d = items"
    "fst (Stub_OnRemoteRequest K E P V (NOTIFY_CODE V c) data s) = the (stub_memberFuncMap V (NOTIFY_CODE V c)) K E P V d s"
proof -
  have "fst (ReadInterfaceToken P data) = REGISTRY_DESCRIPTOR P" "A (snd (ReadInterfaceToken P data)) = items"
    using data by (simp_all add: read_rules [OF ok])
  with that show ?thesis
    by (simp add: Stub_OnRemoteRequest_def stub_memberFuncMap_code [OF codes] case_prod_beta Let_def)
qed

lemma handler_update:
  assumes ok: "parcel_ok P A" and codes: "inj (NOTIFY_CODE V)" and d: "A d = update_wire P u" and u: "sendable P u"
  shows "the (stub_memberFuncMap V (NOTIFY_CODE V (update_code u))) K E P V d s =
    (if voip_in_range V u
     then (NO_ERROR P, fst (snd (run_update K E u s)),
           if update_code u \<in> {C_SIGNAL_INFO, C_CELL_INFO} then [] else [fst (run_update K E u s)],
           snd (snd (run_update K E u s)))
     else (ERR K TELEPHONY_ERR_ARGUMENT_INVALID, s, [ERR K TELEPHONY_ERR_ARGUMENT_INVALID], []))"
proof (cases u)
  case (USignal k v)
  have v: "int (length v) \<le> MAX_SIGNAL_NUM P" using u USignal by (simp add: signals_ok_def)
  let ?d = "snd (ReadInt32 P (snd (ReadInt32 P d)))"
  have "A ?d = signal_items P v @ []" using d USignal by (simp add: read_rules [OF ok])
  then have "fst (ConvertSignalInfoList_loop P (length v) ?d []) = v"
    using read_signals [OF ok, where vec = v and p = ?d and es = "[]" and acc = "[]"] u USignal
    by (simp add: signals_ok_def)
  with d USignal v show ?thesis
    by (simp add: stub_memberFuncMap_code [OF codes] OnUpdateSignalInfo_def parseSignalInfos_eq case_prod_beta Let_def
        read_rules [OF ok])
next
  case (UCell k v)
  have v: "int (length v) \<le> MAX_CELL_NUM P" "v \<noteq> []" using u UCell by (simp_all add: cells_ok_def)
  let ?d = "snd (ReadInt32 P (snd (ReadInt32 P d)))"
  have "A ?d = cell_items P v @ []" using d UCell by (simp add: read_rules [OF ok])
  then have "fst (ConvertCellInfoList_loop P (length v) ?d []) = v"
    using read_cells [OF ok, where vec = v and p = ?d and es = "[]" and acc = "[]"] u UCell
    by (simp add: cells_ok_def)
  with d UCell v show ?thesis
    by (simp add: stub_memberFuncMap_code [OF codes] OnUpdateCellInfo_def parse_cells_eq case_prod_beta Let_def
        read_rules [OF ok])
next
  case (UVoIP info)
  with d show ?thesis
    by (cases info) (simp add: stub_memberFuncMap_code [OF codes] OnUpdateVoIPCallState_def case_prod_beta Let_def
        read_rules [OF ok] not_le)
qed (use d u in \<open>auto simp: stub_memberFuncMap_code [OF codes] handler_defs case_prod_beta Let_def read_rules [OF ok]\<close>)

text \<open>A well-formed request for an update does this update and replies with its result.\<close>

lemma stub_update:
  assumes "parcel_ok P A" and "inj (NOTIFY_CODE V)" and "A data = IToken (REGISTRY_DESCRIPTOR P) # update_wire P u"
    and "sendable P u"
  shows "fst (Stub_OnRemoteRequest K E P V (NOTIFY_CODE V (update_code u)) data s) =
    (if voip_in_range V u
     then (NO_ERROR P, fst (snd (run_update K E u s)),
           if update_code u \<in> {C_SIGNAL_INFO, C_CELL_INFO} then [] else [fst (run_update K E u s)],
           snd (snd (run_update K E u s)))
     else (ERR K TELEPHONY_ERR_ARGUMENT_INVALID, s, [ERR K TELEPHONY_ERR_ARGUMENT_INVALID], []))"
proof -
  obtain d where "A d = update_wire P u" "fst (Stub_OnRemoteRequest K E P V (NOTIFY_CODE V (update_code u)) data s) =
      the (stub_memberFuncMap V (NOTIFY_CODE V (update_code u))) K E P V d s"
    by (rule stub_request [OF assms(1-3)])
  with handler_update [OF assms(1,2) _ assms(4)] show ?thesis by simp
qed

text \<open>A request with an observer registers it for the caller; a removal removes the caller's subscription.\<close>

lemma stub_register:
  assumes ok: "parcel_ok P A" and codes: "inj (NOTIFY_CODE V)"
    and data: "A data = [IToken (REGISTRY_DESCRIPTOR P), IInt k, IInt m, IBool b, IRemote rem]"
    and "IfaceCast P rem = Some ob"
  shows "fst (Stub_OnRemoteRequest K E P V (NOTIFY_CODE V C_ADD_OBSERVER) data s) =
    (let (ret, s', es) = run_register K E (caller_registration V ob k (to_uint32 m) b) s in (NO_ERROR P, s', [ret], es))"
proof -
  obtain d where "A d = [IInt k, IInt m, IBool b, IRemote rem]"
      "fst (Stub_OnRemoteRequest K E P V (NOTIFY_CODE V C_ADD_OBSERVER) data s) =
       the (stub_memberFuncMap V (NOTIFY_CODE V C_ADD_OBSERVER)) K E P V d s"
    by (rule stub_request [OF ok codes data])
  then show ?thesis using assms(4)
    by (simp add: stub_memberFuncMap_code [OF codes] OnRegisterStateChange_def ReadData_def case_prod_beta Let_def read_rules [OF ok] stub_register_eq)
qed

lemma stub_unregister:
  assumes ok: "parcel_ok P A" and codes: "inj (NOTIFY_CODE V)"
    and data: "A data = [IToken (REGISTRY_DESCRIPTOR P), IInt k, IInt m]"
  shows "fst (Stub_OnRemoteRequest K E P V (NOTIFY_CODE V C_REMOVE_OBSERVER) data s) =
    (let (ret, s', es) = run_unregister K E (caller_key V k (to_uint32 m)) s in (NO_ERROR P, s', [ret], es))"
proof -
  obtain d where "A d = [IInt k, IInt m]"
      "fst (Stub_OnRemoteRequest K E P V (NOTIFY_CODE V C_REMOVE_OBSERVER) data s) =
       the (stub_memberFuncMap V (NOTIFY_CODE V C_REMOVE_OBSERVER)) K E P V d s"
    by (rule stub_request [OF ok codes data])
  then show ?thesis
    by (simp add: stub_memberFuncMap_code [OF codes] OnUnregisterStateChange_def case_prod_beta Let_def read_rules [OF ok] stub_unregister_eq)
qed

end
