(* ===== verification/Client.thy ===== *)
theory Client
  imports Stub
begin

text \<open>
  The client library of an application: \<^verbatim>\<open>TelephonyObserverClient\<close> with its cached proxy and death
  recipient (\<^verbatim>\<open>frameworks/native/observer/src/telephony_observer_client.cpp\<close>) and the static
  wrapper \<^verbatim>\<open>TelephonyStateManager\<close> (\<^verbatim>\<open>telephony_state_manager.cpp\<close>).
\<close>

section \<open>Definitions\<close>

text \<open>Remote objects, proxies and death recipients are numbered; \<open>None\<close> is the null pointer.\<close>

record client =
  proxy_of :: "nat option"
  deathRecipient_of :: "nat option"

definition new_client :: client where
  "new_client = \<lparr>proxy_of = None, deathRecipient_of = None\<rparr>"

text \<open>What the system answers: the manager, the registry's remote object, the interface cast.\<close>

record client_env =
  SystemAbilityManager :: bool
  CheckSystemAbility :: "nat option"
  IsProxyObject :: "nat \<Rightarrow> bool"
  AddDeathRecipient :: "nat \<Rightarrow> bool"
  NewRecipient :: nat
  IfaceCastNotify :: "nat \<Rightarrow> nat option"
  AsObject :: "nat \<Rightarrow> nat option"

definition GetProxy :: "client_env \<Rightarrow> client \<Rightarrow> nat option \<times> client" where
  "GetProxy W c =
     (if proxy_of c \<noteq> None then (proxy_of c, c)
      else if \<not> SystemAbilityManager W then (None, c)
      else case CheckSystemAbility W of
             None \<Rightarrow> (None, c)
           | Some obj \<Rightarrow>
               let dr = NewRecipient W
               in if IsProxyObject W obj \<and> \<not> AddDeathRecipient W obj then (None, c)
                  else let c = c\<lparr>proxy_of := IfaceCastNotify W obj, deathRecipient_of := Some dr\<rparr>
                       in (proxy_of c, c))"

text \<open>The recipients removed from the remote object are the second component.\<close>

definition OnRemoteDied :: "client_env \<Rightarrow> nat option \<Rightarrow> client \<Rightarrow> client \<times> (nat \<times> nat option) list" where
  "OnRemoteDied W remote c =
     (if remote = None then (c, [])
      else case proxy_of c of
             None \<Rightarrow> (c, [])
           | Some p \<Rightarrow>
               (case AsObject W p of
                  None \<Rightarrow> (c, [])
                | Some serviceRemote \<Rightarrow>
                    if Some serviceRemote = remote
                    then (c\<lparr>proxy_of := None\<rparr>, [(serviceRemote, deathRecipient_of c)])
                    else (c, [])))"

text \<open>
  \<open>reg\<close> and \<open>unreg\<close> are the methods of the proxy the client holds; \<open>'r\<close> is the state of the
  registry behind it.
\<close>

definition Client_AddStateObserver ::
    "build \<Rightarrow> client_env \<Rightarrow> (observer option \<Rightarrow> int32 \<Rightarrow> uint32 \<Rightarrow> bool \<Rightarrow> 'r \<Rightarrow> int32 \<times> 'r) \<Rightarrow>
     observer option \<Rightarrow> int32 \<Rightarrow> uint32 \<Rightarrow> bool \<Rightarrow> client \<times> 'r \<Rightarrow> int32 \<times> client \<times> 'r" where
  "Client_AddStateObserver K W reg telephonyObserver slotId msk isUpdate = (\<lambda>(c, r).
     let (proxy, c) = GetProxy W c
     in if proxy = None then (ERR K TELEPHONY_ERR_IPC_CONNECT_STUB_FAIL, c, r)
        else let (ret, r) = reg telephonyObserver slotId msk isUpdate r in (ret, c, r))"

definition Client_RemoveStateObserver ::
    "build \<Rightarrow> client_env \<Rightarrow> (int32 \<Rightarrow> uint32 \<Rightarrow> 'r \<Rightarrow> int32 \<times> 'r) \<Rightarrow>
     int32 \<Rightarrow> uint32 \<Rightarrow> client \<times> 'r \<Rightarrow> int32 \<times> client \<times> 'r" where
  "Client_RemoveStateObserver K W unreg slotId msk = (\<lambda>(c, r).
     let (proxy, c) = GetProxy W c
     in if proxy = None then (ERR K TELEPHONY_ERR_IPC_CONNECT_STUB_FAIL, c, r)
        else let (ret, r) = unreg slotId msk r in (ret, c, r))"

text \<open>\<^verbatim>\<open>TelephonyStateManager\<close> forwards to the singleton client.\<close>

definition AddStateObserver ::
    "build \<Rightarrow> client_env \<Rightarrow> (observer option \<Rightarrow> int32 \<Rightarrow> uint32 \<Rightarrow> bool \<Rightarrow> 'r \<Rightarrow> int32 \<times> 'r) \<Rightarrow>
     observer option \<Rightarrow> int32 \<Rightarrow> uint32 \<Rightarrow> bool \<Rightarrow> client \<times> 'r \<Rightarrow> int32 \<times> client \<times> 'r" where
  "AddStateObserver K W reg telephonyObserver slotId msk notifyNow x =
     Client_AddStateObserver K W reg telephonyObserver slotId msk notifyNow x"

definition RemoveStateObserver ::
    "build \<Rightarrow> client_env \<Rightarrow> (int32 \<Rightarrow> uint32 \<Rightarrow> 'r \<Rightarrow> int32 \<times> 'r) \<Rightarrow>
     int32 \<Rightarrow> uint32 \<Rightarrow> client \<times> 'r \<Rightarrow> int32 \<times> client \<times> 'r" where
  "RemoveStateObserver K W unreg slotId msk x = Client_RemoveStateObserver K W unreg slotId msk x"

text \<open>The registry behind the proxy: the stub's entry points, for the calls of one application.\<close>

definition service_reg ::
    "build \<Rightarrow> ('sig, 'cell, 'net) world \<Rightarrow> stub_env \<Rightarrow> observer option \<Rightarrow> int32 \<Rightarrow> uint32 \<Rightarrow> bool \<Rightarrow>
     ('sig, 'cell, 'net) service \<Rightarrow> int32 \<times> ('sig, 'cell, 'net) service" where
  "service_reg K E V ob slotId msk isUpdate s =
     (let (ret, s, es) = Stub_RegisterStateChange K E V ob slotId msk isUpdate s in (ret, s))"

definition service_unreg ::
    "build \<Rightarrow> ('sig, 'cell, 'net) world \<Rightarrow> stub_env \<Rightarrow> int32 \<Rightarrow> uint32 \<Rightarrow>
     ('sig, 'cell, 'net) service \<Rightarrow> int32 \<times> ('sig, 'cell, 'net) service" where
  "service_unreg K E V slotId msk s =
     (let (ret, s, es) = Stub_UnregisterStateChange K E V slotId msk s in (ret, s))"

section \<open>Lemmas\<close>

lemma GetProxy_cached: "proxy_of c = Some p \<Longrightarrow> GetProxy W c = (Some p, c)"
  by (simp add: GetProxy_def)

lemma GetProxy_twice: "fst (GetProxy W c) = Some p \<Longrightarrow> GetProxy W' (snd (GetProxy W c)) = (Some p, snd (GetProxy W c))"
  by (auto simp: GetProxy_def Let_def split: if_splits option.splits)

lemma died_then_reconnect:
  assumes "proxy_of c = Some p" and "AsObject W p = Some obj"
  shows "proxy_of (fst (OnRemoteDied W (Some obj) c)) = None"
  using assms by (simp add: OnRemoteDied_def)

lemma other_died:
  assumes "\<And>p. proxy_of c = Some p \<Longrightarrow> AsObject W p \<noteq> remote"
  shows "OnRemoteDied W remote c = (c, [])"
  using assms by (auto simp: OnRemoteDied_def split: option.splits)

section \<open>The interface of the remote registry\<close>

text \<open>
  What the listener tables rely on: \<open>active r k m\<close> tells whether the registry holds a subscription
  of this application. A failed request changes no subscription; a successful addition adds at
  most the requested one; a successful removal deletes exactly the requested one.
\<close>

locale remote_registry =
  fixes add :: "observer option \<Rightarrow> int32 \<Rightarrow> uint32 \<Rightarrow> bool \<Rightarrow> 'x \<Rightarrow> int32 \<times> 'x"
    and rem :: "int32 \<Rightarrow> uint32 \<Rightarrow> 'x \<Rightarrow> int32 \<times> 'x"
    and active :: "'x \<Rightarrow> int32 \<Rightarrow> uint32 \<Rightarrow> bool"
    and ok :: int32
    and inv :: "'x \<Rightarrow> bool"
  assumes add_inv: "inv x \<Longrightarrow> inv (snd (add ob k m b x))"
    and rem_inv: "inv x \<Longrightarrow> inv (snd (rem k m x))"
    and add_fail: "inv x \<Longrightarrow> fst (add ob k m b x) \<noteq> ok \<Longrightarrow> active (snd (add ob k m b x)) = active x"
    and add_only: "inv x \<Longrightarrow> active (snd (add ob k m b x)) j n \<Longrightarrow> active x j n \<or> (j, n) = (k, m)"
    and add_mono: "inv x \<Longrightarrow> active x j n \<Longrightarrow> active (snd (add ob k m b x)) j n"
    and rem_fail: "inv x \<Longrightarrow> fst (rem k m x) \<noteq> ok \<Longrightarrow> active (snd (rem k m x)) = active x"
    and rem_ok: "inv x \<Longrightarrow> fst (rem k m x) = ok \<Longrightarrow>
      active (snd (rem k m x)) j n \<longleftrightarrow> active x j n \<and> (j, n) \<noteq> (k, m)"

definition service_active ::
    "stub_env \<Rightarrow> client \<times> ('sig, 'cell, 'net) service \<Rightarrow> int32 \<Rightarrow> uint32 \<Rightarrow> bool" where
  "service_active V = (\<lambda>(c, s) k m. registered s (k, m, sint (CallingTokenID V), CallingPid V) \<noteq> None)"

lemma service_reg_state:
  "snd (service_reg K E V ob k m b s) =
     register_key K E b (k, m, sint (CallingTokenID V), CallingPid V)
       (ob, GetBundleNameByUid V (CallingUid V), CallingUid V,
        GetAppIdentifier V (GetBundleNameByUid V (CallingUid V)) (HapTokenUserID V (sint (CallingTokenID V)))) s"
  by (simp add: service_reg_def Stub_RegisterStateChange_def register_key_def case_prod_beta Let_def)

lemma service_unreg_state:
  "snd (service_unreg K E V k m s) = unregister_key K E (k, m, sint (CallingTokenID V), CallingPid V) s"
  by (simp add: service_unreg_def Stub_UnregisterStateChange_def unregister_key_def case_prod_beta Let_def)

lemma service_reg_code:
  assumes "fst (service_reg K E V ob k m b s) \<noteq> ERR K TELEPHONY_SUCCESS"
  shows "\<not> may_register K E k m"
  using assms
  by (auto simp: service_reg_def Stub_RegisterStateChange_def RegisterStateChange_eq case_prod_beta Let_def
      may_register_def split: if_splits)

lemma service_unreg_code:
  assumes "codes_ok K" and "registry_ok K s"
  shows "fst (service_unreg K E V k m s) = ERR K TELEPHONY_SUCCESS \<longleftrightarrow>
    may_unregister K E m \<and> registered s (k, m, sint (CallingTokenID V), CallingPid V) \<noteq> None"
  using assms
  by (auto simp: service_unreg_def Stub_UnregisterStateChange_def UnregisterStateChange_eq Let_def
      may_unregister_def codes_okD case_prod_beta)

definition service_inv :: "build \<Rightarrow> client \<times> ('sig, 'cell, 'net) service \<Rightarrow> bool" where
  "service_inv K = (\<lambda>(c, s). codes_ok K \<and> registry_ok K s)"

lemma active_register:
  assumes "registry_ok K s"
  shows "registered (register_key K E b k x s) j \<noteq> None \<longleftrightarrow>
    registered s j \<noteq> None \<or> (j = k \<and> may_register K E (fst k) (fst (snd k)))"
  using reg.lookup_add [OF assms, where k = k and x = "(E, b, x)" and j = j] by auto

lemma active_unregister:
  assumes "registry_ok K s"
  shows "registered (unregister_key K E k s) j \<noteq> None \<longleftrightarrow>
    registered s j \<noteq> None \<and> \<not> (j = k \<and> may_unregister K E (fst (snd k)))"
  using reg.lookup_del [OF assms, where k = k and y = E and j = j] by auto

lemma AddStateObserver_eq:
  "AddStateObserver K W reg ob k m b (c, r) =
     (if fst (GetProxy W c) = None then (ERR K TELEPHONY_ERR_IPC_CONNECT_STUB_FAIL, snd (GetProxy W c), r)
      else (fst (reg ob k m b r), snd (GetProxy W c), snd (reg ob k m b r)))"
  by (simp add: AddStateObserver_def Client_AddStateObserver_def case_prod_beta Let_def)

lemma RemoveStateObserver_eq:
  "RemoveStateObserver K W unreg k m (c, r) =
     (if fst (GetProxy W c) = None then (ERR K TELEPHONY_ERR_IPC_CONNECT_STUB_FAIL, snd (GetProxy W c), r)
      else (fst (unreg k m r), snd (GetProxy W c), snd (unreg k m r)))"
  by (simp add: RemoveStateObserver_def Client_RemoveStateObserver_def case_prod_beta Let_def)

interpretation svc_remote: remote_registry
  "AddStateObserver K W (service_reg K E V)" "RemoveStateObserver K W (service_unreg K E V)"
  "service_active V" "ERR K TELEPHONY_SUCCESS" "service_inv K"
  for K W E V
proof
  fix x :: "client \<times> ('a, 'b, 'c) service" and ob k m b
  obtain c s where x: "x = (c, s)" by (cases x)
  assume inv: "service_inv K x"
  then have ok: "registry_ok K s" and codes: "codes_ok K" by (simp_all add: service_inv_def x)
  show "service_inv K (snd (AddStateObserver K W (service_reg K E V) ob k m b x))"
    using ok codes by (simp add: x AddStateObserver_eq service_inv_def service_reg_state registry_ok_register)
  show "service_inv K (snd (RemoveStateObserver K W (service_unreg K E V) k m x))"
    using ok codes
    by (simp add: x RemoveStateObserver_eq service_inv_def service_unreg_state registry_ok_unregister)
  show "service_active V (snd (AddStateObserver K W (service_reg K E V) ob k m b x)) = service_active V x"
    if "fst (AddStateObserver K W (service_reg K E V) ob k m b x) \<noteq> ERR K TELEPHONY_SUCCESS"
    using that ok service_reg_code [of K E V ob k m b s]
    by (auto simp: x AddStateObserver_eq service_active_def service_reg_state fun_eq_iff active_register
        simp del: not_None_eq split: if_splits)
  show "service_active V x j n \<or> (j, n) = (k, m)"
    if "service_active V (snd (AddStateObserver K W (service_reg K E V) ob k m b x)) j n" for j n
    using that ok
    by (auto simp: x AddStateObserver_eq service_active_def service_reg_state active_register
        simp del: not_None_eq split: if_splits)
  show "service_active V (snd (AddStateObserver K W (service_reg K E V) ob k m b x)) j n"
    if "service_active V x j n" for j n
    using that ok
    by (auto simp: x AddStateObserver_eq service_active_def service_reg_state active_register
        simp del: not_None_eq split: if_splits)
  show "service_active V (snd (RemoveStateObserver K W (service_unreg K E V) k m x)) = service_active V x"
    if "fst (RemoveStateObserver K W (service_unreg K E V) k m x) \<noteq> ERR K TELEPHONY_SUCCESS"
    using that ok service_unreg_code [OF codes ok, of E V k m]
    by (auto simp: x RemoveStateObserver_eq service_active_def service_unreg_state fun_eq_iff
        active_unregister simp del: not_None_eq split: if_splits)
  show "service_active V (snd (RemoveStateObserver K W (service_unreg K E V) k m x)) j n \<longleftrightarrow>
      service_active V x j n \<and> (j, n) \<noteq> (k, m)"
    if "fst (RemoveStateObserver K W (service_unreg K E V) k m x) = ERR K TELEPHONY_SUCCESS" for j n
    using that ok codes service_unreg_code [OF codes ok, of E V k m]
    by (auto simp: x RemoveStateObserver_eq service_active_def service_unreg_state active_unregister
        codes_okD simp del: not_None_eq split: if_splits)
qed

end
