(* ===== verification/Listener_Js.thy ===== *)
theory Listener_Js
  imports Client
begin

text \<open>
  The listeners of a JavaScript application
  (\<^verbatim>\<open>frameworks/js/napi/src/event_listener_handler.cpp\<close>, \<^verbatim>\<open>napi_telephony_observer.cpp\<close> and the native
  part of \<^verbatim>\<open>napi_state_registry.cpp\<close>): the table of listeners, which subscribes at the registry once
  per slot and event type, the queueing of an update for every listener concerned, and the work
  function that calls into JavaScript under the lock contract of the handler.
\<close>

section \<open>Data\<close>

text \<open>\<^verbatim>\<open>TelephonyUpdateEventType\<close>: \<open>None\<close> is \<^verbatim>\<open>NONE_EVENT_TYPE\<close>, the values are those of the masks.\<close>

type_synonym event_type = "observer_mask option"

definition event_value :: "build \<Rightarrow> event_type \<Rightarrow> uint32" where
  "event_value K t = (case t of None \<Rightarrow> 0 | Some m \<Rightarrow> OBSERVER_MASK K m)"

definition ENABLE_ON_DEFAULT_DATA_EVENT_SET :: "event_type list" where
  "ENABLE_ON_DEFAULT_DATA_EVENT_SET = [Some M_DATA_CONNECTION_STATE, Some M_DATA_FLOW]"

text \<open>
  \<^verbatim>\<open>struct EventListener\<close>. Environments, references and the shared \<^verbatim>\<open>isDeleting\<close> flags are numbered;
  the flag itself lives in the handler's state because the table and the queued work share it.
\<close>

record EventListener =
  l_env :: "nat option"
  l_eventType :: event_type
  l_slotId :: int32
  l_callbackRef :: "nat option"
  l_isDeleting :: "nat option"

record handler =
  listenerList_of :: "EventListener list"
  deleting :: "nat \<Rightarrow> bool"

definition new_handler :: handler where
  "new_handler = \<lparr>listenerList_of = [], deleting = (\<lambda>_. False)\<rparr>"

text \<open>
  What the code uses of Node-API, libuv and the cellular data client. \<open>EventLoop\<close> is what
  \<^verbatim>\<open>napi_get_uv_event_loop\<close> gives: whether it succeeds, and the loop.
\<close>

record napi =
  GetReferenceValue :: "nat option \<Rightarrow> nat option \<Rightarrow> nat option"
  StrictEquals :: "nat option \<Rightarrow> nat option \<Rightarrow> nat option \<Rightarrow> bool"
  EventLoop :: "nat option \<Rightarrow> bool \<times> nat option"
  QueueWork :: "EventListener \<Rightarrow> int32"
  OpenScopeOk :: bool
  OpenInnerScopeOk :: bool
  DefaultCellularDataSlotId :: int32

section \<open>The table\<close>

definition InitLoop :: "napi \<Rightarrow> nat option \<Rightarrow> bool" where
  "InitLoop N env = (let (ok, loop) = EventLoop N env in if \<not> ok then False else loop \<noteq> None)"

definition IsCallBackRegister :: "napi \<Rightarrow> nat option \<Rightarrow> nat option \<Rightarrow> nat option \<Rightarrow> bool" where
  "IsCallBackRegister N env ref registeredRef =
     (let callback = GetReferenceValue N env ref;
          existCallBack = GetReferenceValue N env registeredRef
      in StrictEquals N env callback existCallBack)"

datatype listener_flag = EVENT_LISTENER_DIFF | EVENT_LISTENER_SAME | EVENT_LISTENER_SLOTID_AND_EVENTTYPE_SAME

fun check_loop :: "napi \<Rightarrow> EventListener \<Rightarrow> listener_flag \<Rightarrow> EventListener list \<Rightarrow> listener_flag" where
  "check_loop N e flag [] = flag"
| "check_loop N e flag (listen # ls) =
     (if l_env e = l_env listen \<and> l_slotId e = l_slotId listen \<and> l_eventType e = l_eventType listen \<and>
         IsCallBackRegister N (l_env e) (l_callbackRef e) (l_callbackRef listen)
      then EVENT_LISTENER_SAME
      else check_loop N e
             (if l_slotId e = l_slotId listen \<and> l_eventType e = l_eventType listen
              then EVENT_LISTENER_SLOTID_AND_EVENTTYPE_SAME else flag) ls)"

definition CheckEventListenerRegister :: "napi \<Rightarrow> EventListener \<Rightarrow> handler \<Rightarrow> listener_flag" where
  "CheckEventListenerRegister N e h = check_loop N e EVENT_LISTENER_DIFF (listenerList_of h)"

text \<open>\<open>ob\<close> is the new \<^verbatim>\<open>NapiTelephonyObserver\<close>, \<open>add\<close> is \<^verbatim>\<open>TelephonyStateManager::AddStateObserver\<close>.\<close>

definition RegisterEventListener ::
    "build \<Rightarrow> napi \<Rightarrow> (observer option \<Rightarrow> int32 \<Rightarrow> uint32 \<Rightarrow> bool \<Rightarrow> 'x \<Rightarrow> int32 \<times> 'x) \<Rightarrow> observer \<Rightarrow>
     EventListener \<Rightarrow> handler \<times> 'x \<Rightarrow> int32 \<times> handler \<times> 'x" where
  "RegisterEventListener K N add ob e = (\<lambda>(h, x).
     let registerStatus = CheckEventListenerRegister N e h
     in if registerStatus = EVENT_LISTENER_SAME
        then (ERR K TELEPHONY_ERR_CALLBACK_ALREADY_REGISTERED, h, x)
        else let (addResult, x) =
                   (if registerStatus \<noteq> EVENT_LISTENER_SLOTID_AND_EVENTTYPE_SAME
                    then let isUpdate = (l_eventType e = Some M_CALL_STATE \<or>
                               l_eventType e = Some M_SIM_STATE \<or> l_eventType e = Some M_CALL_STATE_EX \<or>
                               l_eventType e = Some M_CCALL_STATE \<or> l_eventType e = Some M_SIM_ACTIVE_STATE)
                         in add (Some ob) (l_slotId e) (event_value K (l_eventType e)) isUpdate x
                    else (ERR K TELEPHONY_SUCCESS, x))
             in if addResult \<noteq> ERR K TELEPHONY_SUCCESS then (addResult, h, x)
                else (ERR K TELEPHONY_SUCCESS, h\<lparr>listenerList_of := listenerList_of h @ [e]\<rparr>, x))"

definition SetEventListenerDeleting :: "nat option \<Rightarrow> (nat \<Rightarrow> bool) \<Rightarrow> (nat \<Rightarrow> bool)" where
  "SetEventListenerDeleting isDeleting fl =
     (case isDeleting of None \<Rightarrow> fl | Some f \<Rightarrow> fl(f := True))"

fun exists_loop :: "int32 \<Rightarrow> event_type \<Rightarrow> EventListener list \<Rightarrow> bool" where
  "exists_loop slotId eventType [] = False"
| "exists_loop slotId eventType (listen # ls) =
     (if slotId = l_slotId listen \<and> eventType = l_eventType listen then True
      else exists_loop slotId eventType ls)"

definition CheckEventTypeExist :: "int32 \<Rightarrow> event_type \<Rightarrow> handler \<Rightarrow> bool" where
  "CheckEventTypeExist slotId eventType h = exists_loop slotId eventType (listenerList_of h)"

text \<open>\<^verbatim>\<open>std::set<int32_t>::insert\<close>, the set being the list of its elements in iteration order.\<close>

definition set_insert :: "int32 \<Rightarrow> int32 list \<Rightarrow> int32 list" where
  "set_insert k ks = (if k \<in> set ks then ks else insort k ks)"

text \<open>
  The loop that erases the listeners that satisfy \<open>sel\<close>: what is left, the flags, the removed
  listeners and the slots.
\<close>

fun erase_loop ::
    "(EventListener \<Rightarrow> bool) \<Rightarrow> EventListener list \<Rightarrow> (nat \<Rightarrow> bool) \<times> EventListener list \<times> int32 list \<Rightarrow>
     EventListener list \<times> (nat \<Rightarrow> bool) \<times> EventListener list \<times> int32 list" where
  "erase_loop sel [] acc = ([], acc)"
| "erase_loop sel (it # ls) (fl, removed, slots) =
     (if sel it
      then erase_loop sel ls
             (SetEventListenerDeleting (l_isDeleting it) fl, removed @ [it], set_insert (l_slotId it) slots)
      else let (ls', acc) = erase_loop sel ls (fl, removed, slots) in (it # ls', acc))"

definition RemoveEventListenerRegister_ref ::
    "napi \<Rightarrow> nat option \<Rightarrow> event_type \<Rightarrow> nat option \<Rightarrow> handler \<Rightarrow> handler \<times> EventListener list \<times> int32 list" where
  "RemoveEventListenerRegister_ref N env eventType ref h =
     (let (ls, fl, removed, slots) =
            erase_loop (\<lambda>it. env = l_env it \<and> eventType = l_eventType it \<and>
                             IsCallBackRegister N env ref (l_callbackRef it))
              (listenerList_of h) (deleting h, [], [])
      in (h\<lparr>listenerList_of := ls, deleting := fl\<rparr>, removed, slots))"

definition RemoveEventListenerRegister ::
    "nat option \<Rightarrow> event_type \<Rightarrow> handler \<Rightarrow> handler \<times> EventListener list \<times> int32 list" where
  "RemoveEventListenerRegister env eventType h =
     (let (ls, fl, removed, slots) =
            erase_loop (\<lambda>it. env = l_env it \<and> eventType = l_eventType it)
              (listenerList_of h) (deleting h, [], [])
      in (h\<lparr>listenerList_of := ls, deleting := fl\<rparr>, removed, slots))"

definition CheckRemoveStateObserver ::
    "build \<Rightarrow> (int32 \<Rightarrow> uint32 \<Rightarrow> 'x \<Rightarrow> int32 \<times> 'x) \<Rightarrow> handler \<Rightarrow> event_type \<Rightarrow> int32 \<Rightarrow> int32 \<times> 'x \<Rightarrow>
     int32 \<times> 'x" where
  "CheckRemoveStateObserver K rem h eventType slotId = (\<lambda>(result, x).
     if \<not> CheckEventTypeExist slotId eventType h
     then let (removeRet, x) = rem slotId (event_value K eventType) x
          in if removeRet \<noteq> ERR K TELEPHONY_SUCCESS then (removeRet, x) else (result, x)
     else (result, x))"

text \<open>The two overloads of \<^verbatim>\<open>UnregisterEventListener\<close>; the removed listeners are returned.\<close>

definition UnregisterEventListener_ref ::
    "build \<Rightarrow> napi \<Rightarrow> (int32 \<Rightarrow> uint32 \<Rightarrow> 'x \<Rightarrow> int32 \<times> 'x) \<Rightarrow> nat option \<Rightarrow> event_type \<Rightarrow> nat option \<Rightarrow>
     handler \<times> 'x \<Rightarrow> int32 \<times> EventListener list \<times> handler \<times> 'x" where
  "UnregisterEventListener_ref K N rem env eventType ref = (\<lambda>(h, x).
     if listenerList_of h = [] then (ERR K TELEPHONY_SUCCESS, [], h, x)
     else let (h, removed, slots) = RemoveEventListenerRegister_ref N env eventType ref h;
              (result, x) = for_each (CheckRemoveStateObserver K rem h eventType) slots
                              (ERR K TELEPHONY_SUCCESS, x)
          in (result, removed, h, x))"

definition UnregisterEventListener ::
    "build \<Rightarrow> (int32 \<Rightarrow> uint32 \<Rightarrow> 'x \<Rightarrow> int32 \<times> 'x) \<Rightarrow> nat option \<Rightarrow> event_type \<Rightarrow>
     handler \<times> 'x \<Rightarrow> int32 \<times> EventListener list \<times> handler \<times> 'x" where
  "UnregisterEventListener K rem env eventType = (\<lambda>(h, x).
     if listenerList_of h = [] then (ERR K TELEPHONY_SUCCESS, [], h, x)
     else let (h, removed, slots) = RemoveEventListenerRegister env eventType h;
              (result, x) = for_each (CheckRemoveStateObserver K rem h eventType) slots
                              (ERR K TELEPHONY_SUCCESS, x)
          in (result, removed, h, x))"

text \<open>
  \<^verbatim>\<open>removeTypeMap\<close> of \<^verbatim>\<open>UnRegisterAllListener\<close>, a map from slots to sets of types, as the list of
  its pairs in iteration order (by slot, then by the value of the type).
\<close>

fun type_map_insert :: "build \<Rightarrow> int32 \<Rightarrow> event_type \<Rightarrow> (int32 \<times> event_type) list \<Rightarrow> (int32 \<times> event_type) list" where
  "type_map_insert K k t [] = [(k, t)]"
| "type_map_insert K k t ((k', t') # ps) =
     (if k < k' \<or> (k = k' \<and> event_value K t < event_value K t') then (k, t) # (k', t') # ps
      else if k = k' \<and> t = t' then (k', t') # ps
      else (k', t') # type_map_insert K k t ps)"

text \<open>The predicate of \<^verbatim>\<open>remove_if\<close>, run over the list; references of removed listeners are deleted.\<close>

fun remove_env_loop ::
    "build \<Rightarrow> nat option \<Rightarrow> EventListener list \<Rightarrow>
     (nat \<Rightarrow> bool) \<times> (int32 \<times> event_type) list \<times> nat list \<Rightarrow>
     EventListener list \<times> (nat \<Rightarrow> bool) \<times> (int32 \<times> event_type) list \<times> nat list" where
  "remove_env_loop K env [] acc = ([], acc)"
| "remove_env_loop K env (listener # ls) (fl, types, refs) =
     (if l_env listener = env
      then remove_env_loop K env ls
             (SetEventListenerDeleting (l_isDeleting listener) fl,
              type_map_insert K (l_slotId listener) (l_eventType listener) types,
              (case (l_env listener, l_callbackRef listener) of
                 (Some _, Some ref) \<Rightarrow> refs @ [ref] | _ \<Rightarrow> refs))
      else let (ls', acc) = remove_env_loop K env ls (fl, types, refs) in (listener # ls', acc))"

definition UnRegisterAllListener ::
    "build \<Rightarrow> (int32 \<Rightarrow> uint32 \<Rightarrow> 'x \<Rightarrow> int32 \<times> 'x) \<Rightarrow> nat option \<Rightarrow> handler \<times> 'x \<Rightarrow>
     (handler \<times> 'x) \<times> nat list" where
  "UnRegisterAllListener K rem env = (\<lambda>(h, x).
     if listenerList_of h = [] then ((h, x), [])
     else let (ls, fl, types, refs) = remove_env_loop K env (listenerList_of h) (deleting h, [], []);
              h = h\<lparr>listenerList_of := ls, deleting := fl\<rparr>;
              (result, x) = for_each (\<lambda>(k, t). CheckRemoveStateObserver K rem h t k) types
                              (ERR K TELEPHONY_SUCCESS, x)
          in ((h, x), refs))"

section \<open>The loops of the table\<close>

lemma check_loop_eq:
  "check_loop N e flag ls =
     (if \<exists>l \<in> set ls. l_env e = l_env l \<and> l_slotId e = l_slotId l \<and> l_eventType e = l_eventType l \<and>
           IsCallBackRegister N (l_env e) (l_callbackRef e) (l_callbackRef l)
      then EVENT_LISTENER_SAME
      else if \<exists>l \<in> set ls. l_slotId e = l_slotId l \<and> l_eventType e = l_eventType l
      then EVENT_LISTENER_SLOTID_AND_EVENTTYPE_SAME else flag)"
proof (induction ls arbitrary: flag)
  case (Cons l ls)
  show ?case
    by (simp only: check_loop.simps Cons.IH list.set bex_simps if_True if_False split: if_split) blast
qed simp

lemma exists_loop_eq: "exists_loop k t ls \<longleftrightarrow> (\<exists>l \<in> set ls. l_slotId l = k \<and> l_eventType l = t)"
  by (induction ls) auto

lemma CheckEventTypeExist_eq:
  "CheckEventTypeExist k t h \<longleftrightarrow> (\<exists>l \<in> set (listenerList_of h). l_slotId l = k \<and> l_eventType l = t)"
  by (simp add: CheckEventTypeExist_def exists_loop_eq)

lemma set_set_insert [simp]: "set (set_insert k ks) = insert k (set ks)"
  by (auto simp: set_insert_def set_insort_key)

lemma set_type_map_insert [simp]: "set (type_map_insert K k t ps) = insert (k, t) (set ps)"
  by (induction K k t ps rule: type_map_insert.induct) auto

definition mark_deleting :: "EventListener list \<Rightarrow> (nat \<Rightarrow> bool) \<Rightarrow> nat \<Rightarrow> bool" where
  "mark_deleting ls fl f = (fl f \<or> Some f \<in> l_isDeleting ` set ls)"

lemma mark_deleting_simps [simp]:
  "mark_deleting [] fl = fl"
  "mark_deleting ls (SetEventListenerDeleting (l_isDeleting l) fl) = mark_deleting (l # ls) fl"
  by (auto simp: mark_deleting_def SetEventListenerDeleting_def fun_eq_iff split: option.splits)

lemma erase_loop_eq:
  "\<exists>slots'. set slots' = set slots \<union> l_slotId ` set (filter sel ls) \<and>
     erase_loop sel ls (fl, removed, slots) =
       (filter (\<lambda>l. \<not> sel l) ls, mark_deleting (filter sel ls) fl, removed @ filter sel ls, slots')"
proof (induction ls arbitrary: fl removed slots)
  case (Cons l ls)
  show ?case
  proof (cases "sel l")
    case True
    obtain slots' where
      "set slots' = insert (l_slotId l) (set slots) \<union> l_slotId ` set (filter sel ls)"
      "erase_loop sel ls (SetEventListenerDeleting (l_isDeleting l) fl, removed @ [l],
         set_insert (l_slotId l) slots) =
       (filter (\<lambda>l. \<not> sel l) ls,
        mark_deleting (filter sel ls) (SetEventListenerDeleting (l_isDeleting l) fl),
        (removed @ [l]) @ filter sel ls, slots')"
      using Cons [where fl = "SetEventListenerDeleting (l_isDeleting l) fl" and removed = "removed @ [l]"
          and slots = "set_insert (l_slotId l) slots"] by auto
    with True show ?thesis by (intro exI [of _ slots']) auto
  next
    case False
    with Cons [where fl = fl and removed = removed and slots = slots] show ?thesis by auto
  qed
qed simp

lemma remove_env_loop_eq:
  "\<exists>types' refs'. set types' = set types \<union> (\<lambda>l. (l_slotId l, l_eventType l)) ` {l \<in> set ls. l_env l = env} \<and>
     remove_env_loop K env ls (fl, types, refs) =
       (filter (\<lambda>l. l_env l \<noteq> env) ls, mark_deleting (filter (\<lambda>l. l_env l = env) ls) fl, types', refs')"
proof (induction ls arbitrary: fl types refs)
  case (Cons l ls)
  show ?case
  proof (cases "l_env l = env")
    case True
    let ?refs = "case (l_env l, l_callbackRef l) of (Some _, Some ref) \<Rightarrow> refs @ [ref] | _ \<Rightarrow> refs"
    obtain types' refs' where
      "set types' = insert (l_slotId l, l_eventType l) (set types) \<union>
        (\<lambda>l. (l_slotId l, l_eventType l)) ` {l \<in> set ls. l_env l = env}"
      "remove_env_loop K env ls (SetEventListenerDeleting (l_isDeleting l) fl,
         type_map_insert K (l_slotId l) (l_eventType l) types, ?refs) =
       (filter (\<lambda>l. l_env l \<noteq> env) ls, mark_deleting (filter (\<lambda>l. l_env l = env) ls)
         (SetEventListenerDeleting (l_isDeleting l) fl), types', refs')"
      using Cons [where fl = "SetEventListenerDeleting (l_isDeleting l) fl"
          and types = "type_map_insert K (l_slotId l) (l_eventType l) types" and refs = ?refs] by auto
    with True show ?thesis by (intro exI [of _ types'] exI [of _ refs']) auto
  next
    case False
    with Cons [where fl = fl and types = types and refs = refs] show ?thesis by auto
  qed
qed auto

section \<open>Operations on the table\<close>

lemma RegisterEventListener_table:
  "fst (snd (RegisterEventListener K N add ob e (h, x))) =
     (if fst (RegisterEventListener K N add ob e (h, x)) = ERR K TELEPHONY_SUCCESS \<and>
         CheckEventListenerRegister N e h \<noteq> EVENT_LISTENER_SAME
      then h\<lparr>listenerList_of := listenerList_of h @ [e]\<rparr> else h)"
  unfolding RegisterEventListener_def case_prod_beta Let_def fst_conv snd_conv
  by (simp only: fst_conv snd_conv split: if_split) simp

text \<open>The listeners an operation \<^verbatim>\<open>off\<close> selects, and the table and the flags after it.\<close>

definition off_select :: "napi \<Rightarrow> nat option \<Rightarrow> event_type \<Rightarrow> nat option option \<Rightarrow> EventListener \<Rightarrow> bool" where
  "off_select N env t ref l = (env = l_env l \<and> t = l_eventType l \<and>
     (case ref of None \<Rightarrow> True | Some r \<Rightarrow> IsCallBackRegister N env r (l_callbackRef l)))"

definition erase_listeners :: "(EventListener \<Rightarrow> bool) \<Rightarrow> handler \<Rightarrow> handler" where
  "erase_listeners sel h = h\<lparr>listenerList_of := filter (\<lambda>l. \<not> sel l) (listenerList_of h),
     deleting := mark_deleting (filter sel (listenerList_of h)) (deleting h)\<rparr>"

lemma erase_nothing: "listenerList_of h = [] \<Longrightarrow> erase_listeners sel h = h"
  by (simp add: erase_listeners_def)

text \<open>The removal requests of both overloads, as one loop over pairs of a slot and a type.\<close>

definition remove_requests ::
    "build \<Rightarrow> (int32 \<Rightarrow> uint32 \<Rightarrow> 'x \<Rightarrow> int32 \<times> 'x) \<Rightarrow> handler \<Rightarrow> (int32 \<times> event_type) list \<Rightarrow>
     int32 \<times> 'x \<Rightarrow> int32 \<times> 'x" where
  "remove_requests K rem h = for_each (\<lambda>(k, t). CheckRemoveStateObserver K rem h t k)"

lemma remove_requests_slots:
  "for_each (CheckRemoveStateObserver K rem h t) slots acc =
   remove_requests K rem h (map (\<lambda>k. (k, t)) slots) acc"
  by (simp add: remove_requests_def for_each_fold fold_map comp_def)

lemma erase_loopE:
  obtains slots where "set slots = l_slotId ` set (filter sel (listenerList_of h))"
    and "erase_loop sel (listenerList_of h) (deleting h, [], []) =
      (listenerList_of (erase_listeners sel h), deleting (erase_listeners sel h),
       filter sel (listenerList_of h), slots)"
  using erase_loop_eq [of "[]" sel "listenerList_of h" "deleting h" "[]"]
  by (auto simp: erase_listeners_def)

text \<open>Both overloads: they erase what they select and request the removal for the slots concerned.\<close>

lemma UnregisterEventListener_ref_eq:
  fixes N K rem env t r h x
  defines "sel \<equiv> off_select N env t (Some r)"
  obtains slots where "set slots = l_slotId ` set (filter sel (listenerList_of h))"
    and "UnregisterEventListener_ref K N rem env t r (h, x) =
      (let (res, x') = remove_requests K rem (erase_listeners sel h) (map (\<lambda>k. (k, t)) slots)
                         (ERR K TELEPHONY_SUCCESS, x)
       in (res, filter sel (listenerList_of h), erase_listeners sel h, x'))"
proof (cases "listenerList_of h = []")
  case True
  show thesis
    by (rule that [of "[]"])
      (use True in \<open>simp_all add: UnregisterEventListener_ref_def erase_nothing remove_requests_def\<close>)
next
  case False
  have sel: "sel = (\<lambda>it. env = l_env it \<and> t = l_eventType it \<and> IsCallBackRegister N env r (l_callbackRef it))"
    by (simp add: sel_def off_select_def fun_eq_iff)
  from erase_loopE obtain slots where *: "set slots = l_slotId ` set (filter sel (listenerList_of h))"
    "erase_loop sel (listenerList_of h) (deleting h, [], []) =
      (listenerList_of (erase_listeners sel h), deleting (erase_listeners sel h),
       filter sel (listenerList_of h), slots)" .
  show thesis
    by (rule that [OF * (1)])
      (use False * (2) in \<open>simp add: UnregisterEventListener_ref_def RemoveEventListenerRegister_ref_def
        sel [symmetric] remove_requests_slots erase_listeners_def Let_def\<close>)
qed

lemma UnregisterEventListener_eq:
  fixes N K rem env t h x
  defines "sel \<equiv> off_select N env t None"
  obtains slots where "set slots = l_slotId ` set (filter sel (listenerList_of h))"
    and "UnregisterEventListener K rem env t (h, x) =
      (let (res, x') = remove_requests K rem (erase_listeners sel h) (map (\<lambda>k. (k, t)) slots)
                         (ERR K TELEPHONY_SUCCESS, x)
       in (res, filter sel (listenerList_of h), erase_listeners sel h, x'))"
proof (cases "listenerList_of h = []")
  case True
  show thesis
    by (rule that [of "[]"])
      (use True in \<open>simp_all add: UnregisterEventListener_def erase_nothing remove_requests_def\<close>)
next
  case False
  have sel: "sel = (\<lambda>it. env = l_env it \<and> t = l_eventType it)"
    by (simp add: sel_def off_select_def fun_eq_iff)
  from erase_loopE obtain slots where *: "set slots = l_slotId ` set (filter sel (listenerList_of h))"
    "erase_loop sel (listenerList_of h) (deleting h, [], []) =
      (listenerList_of (erase_listeners sel h), deleting (erase_listeners sel h),
       filter sel (listenerList_of h), slots)" .
  show thesis
    by (rule that [OF * (1)])
      (use False * (2) in \<open>simp add: UnregisterEventListener_def RemoveEventListenerRegister_def
        sel [symmetric] remove_requests_slots erase_listeners_def Let_def\<close>)
qed

lemma UnRegisterAllListener_eq:
  obtains types where
    "set types = (\<lambda>l. (l_slotId l, l_eventType l)) ` {l \<in> set (listenerList_of h). l_env l = env}"
    and "fst (UnRegisterAllListener K rem env (h, x)) =
      (erase_listeners (\<lambda>l. l_env l = env) h,
       snd (remove_requests K rem (erase_listeners (\<lambda>l. l_env l = env) h) types (ERR K TELEPHONY_SUCCESS, x)))"
proof (cases "listenerList_of h = []")
  case True
  show thesis
    by (rule that [of "[]"])
      (use True in \<open>simp_all add: UnRegisterAllListener_def erase_nothing remove_requests_def\<close>)
next
  case False
  obtain types refs where
    *: "set types = (\<lambda>l. (l_slotId l, l_eventType l)) ` {l \<in> set (listenerList_of h). l_env l = env}"
    "remove_env_loop K env (listenerList_of h) (deleting h, [], []) =
      (filter (\<lambda>l. l_env l \<noteq> env) (listenerList_of h),
       mark_deleting (filter (\<lambda>l. l_env l = env) (listenerList_of h)) (deleting h), types, refs)"
    using remove_env_loop_eq [of "[]" "listenerList_of h" env K "deleting h" "[]"] by auto
  show thesis
    by (rule that [OF * (1)])
      (use False * (2) in \<open>simp add: UnRegisterAllListener_def remove_requests_def erase_listeners_def
        Let_def case_prod_beta\<close>)
qed

section \<open>Runs of the table\<close>

text \<open>
  What an application does with the table: \<^verbatim>\<open>on\<close>, \<^verbatim>\<open>off\<close> with or without a callback, and the end of an
  environment. \<open>js_op\<close> is one such request, \<open>js_do\<close> runs it; the code is the one returned, and
  success for the end of an environment, which returns nothing.
\<close>

datatype js_op =
    On observer EventListener
  | OffRef "nat option" event_type "nat option"
  | Off "nat option" event_type
  | EnvGone "nat option"

fun js_do ::
    "build \<Rightarrow> napi \<Rightarrow> (observer option \<Rightarrow> int32 \<Rightarrow> uint32 \<Rightarrow> bool \<Rightarrow> 'x \<Rightarrow> int32 \<times> 'x) \<Rightarrow>
     (int32 \<Rightarrow> uint32 \<Rightarrow> 'x \<Rightarrow> int32 \<times> 'x) \<Rightarrow> js_op \<Rightarrow> handler \<times> 'x \<Rightarrow> int32 \<times> handler \<times> 'x" where
  "js_do K N add rem (On ob e) hx = RegisterEventListener K N add ob e hx"
| "js_do K N add rem (OffRef env t r) hx =
     (let (res, removed, hx) = UnregisterEventListener_ref K N rem env t r hx in (res, hx))"
| "js_do K N add rem (Off env t) hx =
     (let (res, removed, hx) = UnregisterEventListener K rem env t hx in (res, hx))"
| "js_do K N add rem (EnvGone env) hx = (ERR K TELEPHONY_SUCCESS, fst (UnRegisterAllListener K rem env hx))"

definition js_run where
  "js_run K N add rem ops hx = fold (\<lambda>op hx. snd (js_do K N add rem op hx)) ops hx"

text \<open>What each request does to the table alone.\<close>

fun op_select :: "napi \<Rightarrow> js_op \<Rightarrow> EventListener \<Rightarrow> bool" where
  "op_select N (On ob e) = (\<lambda>l. False)"
| "op_select N (OffRef env t r) = off_select N env t (Some r)"
| "op_select N (Off env t) = off_select N env t None"
| "op_select N (EnvGone env) = (\<lambda>l. l_env l = env)"

lemma js_do_off:
  assumes "\<And>ob e. op \<noteq> On ob e"
  shows "fst (snd (js_do K N add rem op (h, x))) = erase_listeners (op_select N op) h"
proof (cases op)
  case (OffRef env t r)
  then show ?thesis
    by (auto intro: UnregisterEventListener_ref_eq [where K = K and N = N and rem = rem and env = env
          and t = t and r = r and h = h and x = x] simp: case_prod_beta Let_def)
next
  case (Off env t)
  then show ?thesis
    by (auto intro: UnregisterEventListener_eq [where K = K and N = N and rem = rem and env = env
          and t = t and h = h and x = x] simp: case_prod_beta Let_def)
next
  case (EnvGone env)
  then show ?thesis
    by (auto intro: UnRegisterAllListener_eq [where K = K and rem = rem and env = env and h = h and x = x])
qed (use assms in auto)

lemma js_do_table:
  "fst (snd (js_do K N add rem op (h, x))) =
     (case op of
        On ob e \<Rightarrow>
          if fst (js_do K N add rem op (h, x)) = ERR K TELEPHONY_SUCCESS \<and>
             CheckEventListenerRegister N e h \<noteq> EVENT_LISTENER_SAME
          then h\<lparr>listenerList_of := listenerList_of h @ [e]\<rparr> else h
      | _ \<Rightarrow> erase_listeners (op_select N op) h)"
  by (cases op) (simp_all only: js_op.case js_do.simps(1) RegisterEventListener_table js_do_off js_op.distinct
      not_False_eq_True simp_thms)

lemma js_do_mono: "deleting h f \<Longrightarrow> deleting (fst (snd (js_do K N add rem op (h, x)))) f"
  by (simp add: js_do_table erase_listeners_def mark_deleting_def split: js_op.split)

lemma js_run_mono: "deleting (fst hx) f \<Longrightarrow> deleting (fst (js_run K N add rem ops hx)) f"
proof (induction ops arbitrary: hx)
  case (Cons op ops)
  obtain h x where "hx = (h, x)" by (cases hx)
  with Cons show ?case by (simp add: js_run_def js_do_mono)
qed (simp add: js_run_def)

lemma js_do_marks:
  assumes "l \<in> set (listenerList_of h)" and "op_select N op l" and "l_isDeleting l = Some f"
  shows "deleting (fst (snd (js_do K N add rem op (h, x)))) f"
  using assms unfolding js_do_table
  by (auto simp: erase_listeners_def mark_deleting_def rev_image_eqI split: js_op.splits)

text \<open>
  A listener gets a flag of its own when it is created: the flag is set for no other listener of
  the table, and it is not set while the listener is in the table.
\<close>

definition flags_ok :: "handler \<Rightarrow> bool" where
  "flags_ok h = (distinct (map l_isDeleting (listenerList_of h)) \<and>
     (\<forall>l \<in> set (listenerList_of h). \<exists>f. l_isDeleting l = Some f \<and> \<not> deleting h f))"

definition fresh_flag :: "handler \<Rightarrow> EventListener \<Rightarrow> bool" where
  "fresh_flag h e = (\<exists>f. l_isDeleting e = Some f \<and> \<not> deleting h f \<and>
     (\<forall>l \<in> set (listenerList_of h). l_isDeleting l \<noteq> Some f))"

lemma flags_ok_erase:
  assumes "flags_ok h"
  shows "flags_ok (erase_listeners sel h)"
proof -
  have inj: "inj_on l_isDeleting (set (listenerList_of h))" and d: "distinct (map l_isDeleting (listenerList_of h))"
    using assms by (simp_all add: flags_ok_def distinct_map)
  have "distinct (map l_isDeleting (filter (\<lambda>l. \<not> sel l) (listenerList_of h)))"
    using d by (rule distinct_map_filter)
  moreover have "\<exists>f. l_isDeleting l = Some f \<and> \<not> deleting (erase_listeners sel h) f"
    if l: "l \<in> set (listenerList_of h)" "\<not> sel l" for l
  proof -
    obtain f where f: "l_isDeleting l = Some f" "\<not> deleting h f"
      using assms l by (auto simp: flags_ok_def)
    have "Some f \<notin> l_isDeleting ` set (filter sel (listenerList_of h))"
    proof
      assume "Some f \<in> l_isDeleting ` set (filter sel (listenerList_of h))"
      then obtain l' where "l' \<in> set (listenerList_of h)" "sel l'" "l_isDeleting l' = l_isDeleting l"
        using f by auto
      with inj l show False by (metis inj_onD)
    qed
    with f show ?thesis by (simp add: erase_listeners_def mark_deleting_def)
  qed
  ultimately show ?thesis by (simp add: flags_ok_def erase_listeners_def)
qed

lemma flags_ok_js_do:
  assumes "flags_ok h" and "\<And>ob e. op = On ob e \<Longrightarrow> fresh_flag h e"
  shows "flags_ok (fst (snd (js_do K N add rem op (h, x))))"
proof (cases op)
  case (On ob e)
  with assms have "fresh_flag h e" by blast
  with assms(1) show ?thesis
    unfolding js_do_table On by (auto simp: flags_ok_def fresh_flag_def)
qed (simp_all only: js_do_table js_op.case flags_ok_erase [OF assms(1)])

section \<open>The table and the registry\<close>

text \<open>
  The table on top of any registry that keeps the contract \<^verbatim>\<open>remote_registry\<close>. \<open>covered\<close>: the
  registry holds a subscription of this application only for a slot and a type that some listener
  of the table has.
\<close>

definition covered :: "build \<Rightarrow> ('x \<Rightarrow> int32 \<Rightarrow> uint32 \<Rightarrow> bool) \<Rightarrow> handler \<Rightarrow> 'x \<Rightarrow> bool" where
  "covered K active h x = (\<forall>k m. active x k m \<longrightarrow>
     (\<exists>l \<in> set (listenerList_of h). l_slotId l = k \<and> event_value K (l_eventType l) = m))"

text \<open>
  A request that reports its outcome: a registration in any case, an \<^verbatim>\<open>off\<close> when it reports success;
  the end of an environment drops the outcome of its removals. \<open>good_run\<close>: all requests of a run.
\<close>

definition good_step where
  "good_step K N add rem op hx = (case op of On ob e \<Rightarrow> True | EnvGone env \<Rightarrow> False
     | _ \<Rightarrow> fst (js_do K N add rem op hx) = ERR K TELEPHONY_SUCCESS)"

fun good_run ::
    "build \<Rightarrow> napi \<Rightarrow> (observer option \<Rightarrow> int32 \<Rightarrow> uint32 \<Rightarrow> bool \<Rightarrow> 'x \<Rightarrow> int32 \<times> 'x) \<Rightarrow>
     (int32 \<Rightarrow> uint32 \<Rightarrow> 'x \<Rightarrow> int32 \<times> 'x) \<Rightarrow> js_op list \<Rightarrow> handler \<times> 'x \<Rightarrow> bool" where
  "good_run K N add rem [] hx = True"
| "good_run K N add rem (op # ops) hx =
     (good_step K N add rem op hx \<and> good_run K N add rem ops (snd (js_do K N add rem op hx)))"

locale js_remote = remote_registry add rem active "ERR K TELEPHONY_SUCCESS" inv
  for add :: "observer option \<Rightarrow> int32 \<Rightarrow> uint32 \<Rightarrow> bool \<Rightarrow> 'x \<Rightarrow> int32 \<times> 'x"
    and rem :: "int32 \<Rightarrow> uint32 \<Rightarrow> 'x \<Rightarrow> int32 \<times> 'x"
    and active :: "'x \<Rightarrow> int32 \<Rightarrow> uint32 \<Rightarrow> bool"
    and K :: build
    and inv :: "'x \<Rightarrow> bool"
begin

lemma register_inv: "inv x \<Longrightarrow> inv (snd (snd (RegisterEventListener K N add ob e (h, x))))"
  by (simp add: RegisterEventListener_def case_prod_beta Let_def add_inv)

text \<open>Whatever the registry answers, a registration keeps the table ahead of the registry.\<close>

lemma register_covered:
  assumes "inv x" and "covered K active h x"
  shows "covered K active (fst (snd (RegisterEventListener K N add ob e (h, x))))
    (snd (snd (RegisterEventListener K N add ob e (h, x))))"
proof -
  define b where "b = (l_eventType e = Some M_CALL_STATE \<or> l_eventType e = Some M_SIM_STATE \<or>
    l_eventType e = Some M_CALL_STATE_EX \<or> l_eventType e = Some M_CCALL_STATE \<or>
    l_eventType e = Some M_SIM_ACTIVE_STATE)"
  obtain r x' where a: "add (Some ob) (l_slotId e) (event_value K (l_eventType e)) b x = (r, x')"
    by (cases "add (Some ob) (l_slotId e) (event_value K (l_eventType e)) b x")
  note def = RegisterEventListener_def [of K N add ob e, folded b_def]
  have fail: "r \<noteq> ERR K TELEPHONY_SUCCESS \<Longrightarrow> active x' = active x"
    using add_fail [OF assms(1), of "Some ob" "l_slotId e" "event_value K (l_eventType e)" b] a by simp
  have only: "active x' j n \<Longrightarrow> active x j n \<or> (j, n) = (l_slotId e, event_value K (l_eventType e))" for j n
    using add_only [OF assms(1), of "Some ob" "l_slotId e" "event_value K (l_eventType e)" b j n] a by simp
  have appended: "covered K active (h\<lparr>listenerList_of := listenerList_of h @ [e]\<rparr>) x'"
    "covered K active (h\<lparr>listenerList_of := listenerList_of h @ [e]\<rparr>) x"
    using assms(2) only by (fastforce simp: covered_def)+
  have "covered K active h x'" if "r \<noteq> ERR K TELEPHONY_SUCCESS"
    using assms(2) fail [OF that] by (simp add: covered_def)
  with appended assms(2) show ?thesis by (simp add: def a Let_def)
qed

text \<open>Removals: they add no subscription, and when all succeed the uncovered ones are gone.\<close>

lemma check_remove:
  assumes "inv x"
  shows "inv (snd (CheckRemoveStateObserver K rem h t k (r, x)))"
    and "active (snd (CheckRemoveStateObserver K rem h t k (r, x))) j n \<Longrightarrow> active x j n"
    and "fst (CheckRemoveStateObserver K rem h t k (r, x)) = ERR K TELEPHONY_SUCCESS \<Longrightarrow>
      r = ERR K TELEPHONY_SUCCESS \<and>
      (active (snd (CheckRemoveStateObserver K rem h t k (r, x))) j n \<longleftrightarrow>
       active x j n \<and> (CheckEventTypeExist k t h \<or> (j, n) \<noteq> (k, event_value K t)))"
  using assms rem_inv [OF assms, of k "event_value K t"] rem_fail [OF assms, of k "event_value K t"]
    rem_ok [OF assms, of k "event_value K t" j n]
  by (auto simp: CheckRemoveStateObserver_def case_prod_beta Let_def split: if_splits)

lemma requests_frame:
  assumes "inv x"
  shows "inv (snd (remove_requests K rem h ps (r, x)))"
    and "active (snd (remove_requests K rem h ps (r, x))) j n \<Longrightarrow> active x j n"
proof -
  have "inv (snd (remove_requests K rem h ps (r, x))) \<and>
    (active (snd (remove_requests K rem h ps (r, x))) j n \<longrightarrow> active x j n)"
    using assms
  proof (induction ps arbitrary: r x)
    case (Cons p ps)
    obtain k t where p: "p = (k, t)" by (cases p)
    obtain r' x' where rx: "CheckRemoveStateObserver K rem h t k (r, x) = (r', x')"
      by (cases "CheckRemoveStateObserver K rem h t k (r, x)")
    from Cons.IH [of x' r'] check_remove(1,2) [OF Cons.prems, of h t k r] show ?case
      by (auto simp: remove_requests_def p rx)
  qed (simp add: remove_requests_def)
  then show "inv (snd (remove_requests K rem h ps (r, x)))"
    and "active (snd (remove_requests K rem h ps (r, x))) j n \<Longrightarrow> active x j n" by simp_all
qed

lemma requests_done:
  assumes "inv x" and "fst (remove_requests K rem h ps (r, x)) = ERR K TELEPHONY_SUCCESS"
  shows "r = ERR K TELEPHONY_SUCCESS \<and>
    (active (snd (remove_requests K rem h ps (r, x))) j n \<longleftrightarrow>
     active x j n \<and> (\<forall>(k, t) \<in> set ps. CheckEventTypeExist k t h \<or> (j, n) \<noteq> (k, event_value K t)))"
  using assms
proof (induction ps arbitrary: r x)
  case (Cons p ps)
  obtain k t where p: "p = (k, t)" by (cases p)
  obtain r' x' where rx: "CheckRemoveStateObserver K rem h t k (r, x) = (r', x')"
    by (cases "CheckRemoveStateObserver K rem h t k (r, x)")
  note step = check_remove(1) [OF Cons.prems(1), of h t k r, unfolded rx snd_conv]
    check_remove(3) [OF Cons.prems(1), where h = h and t = t and k = k and r = r and j = j and n = n,
      unfolded rx fst_conv snd_conv]
  have eq: "remove_requests K rem h (p # ps) (r, x) = remove_requests K rem h ps (r', x')"
    by (simp add: remove_requests_def p rx)
  from Cons.prems(2) have "fst (remove_requests K rem h ps (r', x')) = ERR K TELEPHONY_SUCCESS"
    unfolding eq .
  note IH = Cons.IH [OF step(1) this]
  from step(2) IH show ?case unfolding eq by (simp add: p) blast
qed (simp add: remove_requests_def)

lemma erase_covered:
  assumes inv: "inv x" and cov: "covered K active h x"
    and good: "fst (remove_requests K rem (erase_listeners sel h) ps (r, x)) = ERR K TELEPHONY_SUCCESS"
    and ps: "set ps = (\<lambda>l. (l_slotId l, l_eventType l)) ` set (filter sel (listenerList_of h))"
  shows "covered K active (erase_listeners sel h) (snd (remove_requests K rem (erase_listeners sel h) ps (r, x)))"
  unfolding covered_def
proof (intro allI impI)
  fix k m
  let ?h = "erase_listeners sel h"
  assume "active (snd (remove_requests K rem ?h ps (r, x))) k m"
  with requests_done [OF inv good, of k m]
  have act: "active x k m" and
    left: "\<forall>(k', t) \<in> set ps. CheckEventTypeExist k' t ?h \<or> (k, m) \<noteq> (k', event_value K t)" by auto
  from cov act obtain l where l: "l \<in> set (listenerList_of h)" "l_slotId l = k"
    "event_value K (l_eventType l) = m" by (auto simp: covered_def)
  show "\<exists>l \<in> set (listenerList_of ?h). l_slotId l = k \<and> event_value K (l_eventType l) = m"
  proof (cases "sel l")
    case True
    with l ps have "(k, l_eventType l) \<in> set ps" by (auto intro!: rev_image_eqI)
    with left l have "CheckEventTypeExist k (l_eventType l) ?h" by auto
    with l show ?thesis by (auto simp: CheckEventTypeExist_eq)
  next
    case False
    with l show ?thesis by (auto simp: erase_listeners_def)
  qed
qed

text \<open>A request that reports success keeps the table and the registry consistent.\<close>

lemma do_covered:
  assumes inv: "inv x" and cov: "covered K active h x" and good: "good_step K N add rem op (h, x)"
  shows "covered K active (fst (snd (js_do K N add rem op (h, x)))) (snd (snd (js_do K N add rem op (h, x))))"
proof (cases op)
  case (On ob e)
  with register_covered [OF inv cov] show ?thesis by simp
next
  case (OffRef env t r)
  obtain slots where s: "set slots = l_slotId ` set (filter (off_select N env t (Some r)) (listenerList_of h))"
    and eq: "UnregisterEventListener_ref K N rem env t r (h, x) =
      (let (res, x') = remove_requests K rem (erase_listeners (off_select N env t (Some r)) h)
           (map (\<lambda>k. (k, t)) slots) (ERR K TELEPHONY_SUCCESS, x)
       in (res, filter (off_select N env t (Some r)) (listenerList_of h),
           erase_listeners (off_select N env t (Some r)) h, x'))"
    by (rule UnregisterEventListener_ref_eq)
  have "set (map (\<lambda>k. (k, t)) slots) =
      (\<lambda>l. (l_slotId l, l_eventType l)) ` set (filter (off_select N env t (Some r)) (listenerList_of h))"
    by (auto simp: s off_select_def image_iff)
  from erase_covered [OF inv cov _ this] good show ?thesis
    by (simp add: OffRef eq good_step_def case_prod_beta Let_def)
next
  case (Off env t)
  obtain slots where s: "set slots = l_slotId ` set (filter (off_select N env t None) (listenerList_of h))"
    and eq: "UnregisterEventListener K rem env t (h, x) =
      (let (res, x') = remove_requests K rem (erase_listeners (off_select N env t None) h)
           (map (\<lambda>k. (k, t)) slots) (ERR K TELEPHONY_SUCCESS, x)
       in (res, filter (off_select N env t None) (listenerList_of h),
           erase_listeners (off_select N env t None) h, x'))"
    by (rule UnregisterEventListener_eq)
  have "set (map (\<lambda>k. (k, t)) slots) =
      (\<lambda>l. (l_slotId l, l_eventType l)) ` set (filter (off_select N env t None) (listenerList_of h))"
    by (auto simp: s off_select_def image_iff)
  from erase_covered [OF inv cov _ this] good show ?thesis
    by (simp add: Off eq good_step_def case_prod_beta Let_def)
qed (use good in \<open>simp add: good_step_def\<close>)

lemma do_inv:
  assumes "inv x"
  shows "inv (snd (snd (js_do K N add rem op (h, x))))"
proof (cases op)
  case (On ob e)
  with assms show ?thesis by (simp add: register_inv)
next
  case (OffRef env t r)
  show ?thesis
    by (rule UnregisterEventListener_ref_eq [where K = K and N = N and rem = rem and env = env and t = t
          and r = r and h = h and x = x])
      (use assms in \<open>simp add: OffRef case_prod_beta Let_def requests_frame(1)\<close>)
next
  case (Off env t)
  show ?thesis
    by (rule UnregisterEventListener_eq [where K = K and N = N and rem = rem and env = env and t = t
          and h = h and x = x])
      (use assms in \<open>simp add: Off case_prod_beta Let_def requests_frame(1)\<close>)
next
  case (EnvGone env)
  show ?thesis
    by (rule UnRegisterAllListener_eq [where K = K and rem = rem and env = env and h = h and x = x])
      (use assms in \<open>simp add: EnvGone requests_frame(1)\<close>)
qed

text \<open>A run in which every \<^verbatim>\<open>off\<close> reports success, started from a consistent table, stays consistent.\<close>

lemma run_covered:
  assumes "inv x" and "covered K active h x" and "good_run K N add rem ops (h, x)"
  shows "covered K active (fst (js_run K N add rem ops (h, x))) (snd (js_run K N add rem ops (h, x)))"
  using assms
proof (induction ops arbitrary: h x)
  case (Cons op ops)
  obtain h' x' where hx: "snd (js_do K N add rem op (h, x)) = (h', x')"
    by (cases "snd (js_do K N add rem op (h, x))")
  from Cons.prems(3) have ok: "good_step K N add rem op (h, x)" and rest: "good_run K N add rem ops (h', x')"
    by (simp_all add: hx del: js_do.simps)
  have "covered K active h' x'" using do_covered [OF Cons.prems(1,2) ok] by (simp add: hx)
  moreover have "inv x'" using do_inv [OF Cons.prems(1), of N op h] by (simp add: hx)
  ultimately have "covered K active (fst (js_run K N add rem ops (h', x'))) (snd (js_run K N add rem ops (h', x')))"
    using rest Cons.IH by blast
  then show ?case by (simp add: js_run_def hx del: js_do.simps)
qed (simp add: js_run_def)

end

interpretation js: js_remote
  "AddStateObserver K W (service_reg K E V)" "RemoveStateObserver K W (service_unreg K E V)"
  "service_active V" K "service_inv K"
  for K W E V
  by (rule js_remote.intro) (rule svc_remote.remote_registry_axioms)

end
