(* ===== verification/Dispatch_Js.thy ===== *)
theory Dispatch_Js
  imports Listener_Js
begin

text \<open>
  From an observer callback to a JavaScript call: \<^verbatim>\<open>NapiTelephonyObserver\<close> turns a callback into an
  event, the handler queues one piece of work per listener concerned, and the work function
  builds the JavaScript value and calls the listener
  (\<^verbatim>\<open>frameworks/js/napi/src/napi_telephony_observer.cpp\<close>, \<^verbatim>\<open>event_listener_handler.cpp\<close>). The value
  conversions are shared in the source with the Cangjie binding, except where that theory says
  otherwise.
\<close>

section \<open>Conversions\<close>

text \<open>\<^verbatim>\<open>enum class CallState\<close> and \<^verbatim>\<open>enum class TelCallState\<close> of \<^verbatim>\<open>napi_state_registry.h\<close>.\<close>

datatype CallState =
    CALL_STATE_UNKNOWN | CALL_STATE_IDLE | CALL_STATE_RINGING | CALL_STATE_OFFHOOK | CALL_STATE_ANSWERED

fun CallState_value :: "CallState \<Rightarrow> int32" where
  "CallState_value CALL_STATE_UNKNOWN = -1"
| "CallState_value CALL_STATE_IDLE = 0"
| "CallState_value CALL_STATE_RINGING = 1"
| "CallState_value CALL_STATE_OFFHOOK = 2"
| "CallState_value CALL_STATE_ANSWERED = 3"

datatype TelCallState =
    TEL_CALL_STATE_UNKNOWN | TEL_CALL_STATE_IDLE | TEL_CALL_STATE_RINGING | TEL_CALL_STATE_OFFHOOK
  | TEL_CALL_STATE_ANSWERED | TEL_CALL_STATE_CONNECTED

fun TelCallState_value :: "TelCallState \<Rightarrow> int32" where
  "TelCallState_value TEL_CALL_STATE_UNKNOWN = -1"
| "TelCallState_value TEL_CALL_STATE_IDLE = 0"
| "TelCallState_value TEL_CALL_STATE_RINGING = 1"
| "TelCallState_value TEL_CALL_STATE_OFFHOOK = 2"
| "TelCallState_value TEL_CALL_STATE_ANSWERED = 3"
| "TelCallState_value TEL_CALL_STATE_CONNECTED = 4"

definition WrapCallState :: "int32 \<Rightarrow> int32" where
  "WrapCallState callState =
     (if callState = CallStatus_value CALL_STATUS_ACTIVE \<or>
         callState = CallStatus_value CALL_STATUS_HOLDING \<or>
         callState = CallStatus_value CALL_STATUS_DIALING \<or>
         callState = CallStatus_value CALL_STATUS_ALERTING
      then CallState_value CALL_STATE_OFFHOOK
      else if callState = CallStatus_value CALL_STATUS_WAITING \<or>
              callState = CallStatus_value CALL_STATUS_INCOMING
      then CallState_value CALL_STATE_RINGING
      else if callState = CallStatus_value CALL_STATUS_DISCONNECTING \<or>
              callState = CallStatus_value CALL_STATUS_DISCONNECTED \<or>
              callState = CallStatus_value CALL_STATUS_IDLE
      then CallState_value CALL_STATE_IDLE
      else if callState = CallStatus_value CALL_STATUS_ANSWERED
      then CallState_value CALL_STATE_ANSWERED
      else CallState_value CALL_STATE_UNKNOWN)"

definition WrapCallStateEx :: "int32 \<Rightarrow> int32" where
  "WrapCallStateEx callState =
     (if callState = CallStatus_value CALL_STATUS_ACTIVE \<or>
         callState = CallStatus_value CALL_STATUS_HOLDING
      then TelCallState_value TEL_CALL_STATE_CONNECTED
      else if callState = CallStatus_value CALL_STATUS_DIALING \<or>
              callState = CallStatus_value CALL_STATUS_ALERTING
      then TelCallState_value TEL_CALL_STATE_OFFHOOK
      else if callState = CallStatus_value CALL_STATUS_WAITING \<or>
              callState = CallStatus_value CALL_STATUS_INCOMING
      then TelCallState_value TEL_CALL_STATE_RINGING
      else if callState = CallStatus_value CALL_STATUS_DISCONNECTING \<or>
              callState = CallStatus_value CALL_STATUS_DISCONNECTED \<or>
              callState = CallStatus_value CALL_STATUS_IDLE
      then TelCallState_value TEL_CALL_STATE_IDLE
      else if callState = CallStatus_value CALL_STATUS_ANSWERED
      then TelCallState_value TEL_CALL_STATE_ANSWERED
      else TelCallState_value TEL_CALL_STATE_UNKNOWN)"

text \<open>
  The enumerations of the core service's headers, by name, and the accessors of the payload
  objects. \<open>RT_UNKNOWN\<close> and \<open>NT_UNKNOWN\<close> are the values for an unknown technology or type.
\<close>

datatype reg_service_state = RS_NO_SERVICE | RS_SEARCH | RS_IN_SERVICE | RS_EMERGENCY_ONLY | RS_UNKNOWN

datatype reg_status = REG_NO_SERVICE | REG_IN_SERVICE | REG_EMERGENCY_CALL_ONLY | REG_POWER_OFF

datatype native_network = NN_GSM | NN_CDMA | NN_LTE | NN_TDSCDMA | NN_WCDMA | NN_NR

datatype network_type = NT_UNKNOWN | NT_GSM | NT_CDMA | NT_LTE | NT_TDSCDMA | NT_WCDMA

datatype rat =
    RT_UNKNOWN | RT_GSM | RT_LTE | RT_WCDMA | RT_1XRTT | RT_HSPA | RT_HSPAP | RT_TD_SCDMA | RT_EVDO | RT_EHRPD | RT_LTE_CA | RT_IWLAN | RT_NR | RT_NR_ENHANCED

datatype cell_kind = CK_GSM | CK_LTE | CK_WCDMA | CK_NR

text \<open>JavaScript values, as far as the code builds them.\<close>

datatype js_value = JInt int | JBool bool | JStr string | JObj "(string \<times> js_value) list" | JArr "js_value list"

text \<open>\<open>cell_field\<close> is an accessor of a cell object, with the value that ends up in the property.\<close>

record ('sig, 'cell, 'net) payload =
  REG_SERVICE_STATE :: "reg_service_state \<Rightarrow> int32"
  REG_STATUS :: "reg_status \<Rightarrow> int32"
  NATIVE_NETWORK :: "native_network \<Rightarrow> int32"
  NETWORK_TYPE :: "network_type \<Rightarrow> int32"
  RADIO_TECH :: "rat \<Rightarrow> int32"
  RAT_TYPE :: "rat \<Rightarrow> int32"
  CELL_KIND :: "cell_kind \<Rightarrow> int32"
  sig_NetworkType :: "'sig \<Rightarrow> int32"
  sig_SignalLevel :: "'sig \<Rightarrow> int32"
  sig_SignalIntensity :: "'sig \<Rightarrow> int32"
  net_LongOperatorName :: "'net \<Rightarrow> string"
  net_ShortOperatorName :: "'net \<Rightarrow> string"
  net_PlmnNumeric :: "'net \<Rightarrow> string"
  net_IsRoaming :: "'net \<Rightarrow> bool"
  net_RegStatus :: "'net \<Rightarrow> int32"
  net_IsEmergency :: "'net \<Rightarrow> bool"
  net_CfgTech :: "'net \<Rightarrow> int32"
  net_NrState :: "'net \<Rightarrow> int32"
  cell_NetworkType :: "'cell \<Rightarrow> int32"
  cell_IsCamped :: "'cell \<Rightarrow> bool"
  cell_TimeStamp :: "'cell \<Rightarrow> int64"
  cell_SignalLevel :: "'cell \<Rightarrow> int32"
  cell_SignalIntensity :: "'cell \<Rightarrow> int32"
  cell_field :: "string \<Rightarrow> 'cell \<Rightarrow> js_value"
  ToUtf8 :: "string16 \<Rightarrow> string"

definition WrapRegState :: "('sig, 'cell, 'net) payload \<Rightarrow> int32 \<Rightarrow> int32" where
  "WrapRegState L nativeState =
     (if nativeState = REG_SERVICE_STATE L RS_NO_SERVICE \<or> nativeState = REG_SERVICE_STATE L RS_SEARCH
      then REG_STATUS L REG_NO_SERVICE
      else if nativeState = REG_SERVICE_STATE L RS_IN_SERVICE then REG_STATUS L REG_IN_SERVICE
      else if nativeState = REG_SERVICE_STATE L RS_EMERGENCY_ONLY
      then REG_STATUS L REG_EMERGENCY_CALL_ONLY
      else if nativeState = REG_SERVICE_STATE L RS_UNKNOWN then REG_STATUS L REG_POWER_OFF
      else REG_STATUS L REG_POWER_OFF)"

definition WrapNetworkType :: "('sig, 'cell, 'net) payload \<Rightarrow> int32 \<Rightarrow> int32" where
  "WrapNetworkType L nativeNetworkType =
     (if nativeNetworkType = NATIVE_NETWORK L NN_GSM then NETWORK_TYPE L NT_GSM
      else if nativeNetworkType = NATIVE_NETWORK L NN_CDMA then NETWORK_TYPE L NT_CDMA
      else if nativeNetworkType = NATIVE_NETWORK L NN_LTE then NETWORK_TYPE L NT_LTE
      else if nativeNetworkType = NATIVE_NETWORK L NN_TDSCDMA then NETWORK_TYPE L NT_TDSCDMA
      else if nativeNetworkType = NATIVE_NETWORK L NN_WCDMA then NETWORK_TYPE L NT_WCDMA
      else NETWORK_TYPE L NT_UNKNOWN)"

definition WrapRadioTech :: "('sig, 'cell, 'net) payload \<Rightarrow> int32 \<Rightarrow> int32" where
  "WrapRadioTech L radioTechType =
     (if radioTechType = RADIO_TECH L RT_GSM then RAT_TYPE L RT_GSM
      else if radioTechType = RADIO_TECH L RT_LTE then RAT_TYPE L RT_LTE
      else if radioTechType = RADIO_TECH L RT_WCDMA then RAT_TYPE L RT_WCDMA
      else if radioTechType = RADIO_TECH L RT_1XRTT then RAT_TYPE L RT_1XRTT
      else if radioTechType = RADIO_TECH L RT_HSPA then RAT_TYPE L RT_HSPA
      else if radioTechType = RADIO_TECH L RT_HSPAP then RAT_TYPE L RT_HSPAP
      else if radioTechType = RADIO_TECH L RT_TD_SCDMA then RAT_TYPE L RT_TD_SCDMA
      else if radioTechType = RADIO_TECH L RT_EVDO then RAT_TYPE L RT_EVDO
      else if radioTechType = RADIO_TECH L RT_EHRPD then RAT_TYPE L RT_EHRPD
      else if radioTechType = RADIO_TECH L RT_LTE_CA then RAT_TYPE L RT_LTE_CA
      else if radioTechType = RADIO_TECH L RT_IWLAN then RAT_TYPE L RT_IWLAN
      else if radioTechType = RADIO_TECH L RT_NR then RAT_TYPE L RT_NR
      else RAT_TYPE L RT_UNKNOWN)"

section \<open>Conversion of payload objects\<close>

definition SignalInfoConversion :: "int32 \<Rightarrow> int32 \<Rightarrow> int32 \<Rightarrow> js_value" where
  "SignalInfoConversion type level signalIntensity =
     JObj [(''signalType'', JInt type), (''signalLevel'', JInt level), (''dBm'', JInt signalIntensity)]"

text \<open>The four overloads of \<^verbatim>\<open>DataOfNetworkConversion\<close>: the property names and the accessors.\<close>

definition fields :: "('sig, 'cell, 'net) payload \<Rightarrow> 'cell \<Rightarrow> (string \<times> string) list \<Rightarrow> (string \<times> js_value) list" where
  "fields L info ps = map (\<lambda>(name, getter). (name, cell_field L getter info)) ps"

definition DataOfNetworkConversion ::
    "('sig, 'cell, 'net) payload \<Rightarrow> cell_kind \<Rightarrow> 'cell \<Rightarrow> js_value" where
  "DataOfNetworkConversion L kind info = JObj (case kind of
       CK_GSM \<Rightarrow> fields L info [(''lac'', ''GetLac''), (''cellId'', ''GetCellId''),
         (''arfcn'', ''GetArfcn''), (''basic'', ''GetBsic''), (''mcc'', ''GetMcc''), (''mnc'', ''GetMnc'')]
     | CK_LTE \<Rightarrow> fields L info [(''cgi'', ''GetCellId''), (''pci'', ''GetPci''), (''tac'', ''GetTac''),
         (''earfcn'', ''GetArfcn'')] @ [(''bandwith'', JInt 0)] @
         fields L info [(''mcc'', ''GetMcc''), (''mnc'', ''GetMnc'')] @ [(''isSupportEndc'', JBool False)]
     | CK_WCDMA \<Rightarrow> fields L info [(''lac'', ''GetLac''), (''cellId'', ''GetCellId''),
         (''psc'', ''GetPsc''), (''uarfcn'', ''GetArfcn''), (''mcc'', ''GetMcc''), (''mnc'', ''GetMnc'')]
     | CK_NR \<Rightarrow> fields L info [(''nrArfcn'', ''GetArfcn''), (''pci'', ''GetPci''), (''tac'', ''GetTac''),
         (''nci'', ''GetNci''), (''mcc'', ''GetMcc''), (''mnc'', ''GetMnc'')])"

definition CellInfoConversion :: "('sig, 'cell, 'net) payload \<Rightarrow> 'cell \<Rightarrow> js_value" where
  "CellInfoConversion L info =
     (let networkType = cell_NetworkType L info;
          base = [(''networkType'', JInt networkType), (''isCamped'', JBool (cell_IsCamped L info)),
                  (''timeStamp'', JInt (cell_TimeStamp L info)),
                  (''signalInformation'',
                   SignalInfoConversion networkType (cell_SignalLevel L info) (cell_SignalIntensity L info))]
      in JObj (base @
           (if networkType = CELL_KIND L CK_GSM then [(''data'', DataOfNetworkConversion L CK_GSM info)]
            else if networkType = CELL_KIND L CK_LTE then [(''data'', DataOfNetworkConversion L CK_LTE info)]
            else if networkType = CELL_KIND L CK_WCDMA then [(''data'', DataOfNetworkConversion L CK_WCDMA info)]
            else if networkType = CELL_KIND L CK_NR then [(''data'', DataOfNetworkConversion L CK_NR info)]
            else [])))"

section \<open>From the observer to the event\<close>

text \<open>The names of \<^verbatim>\<open>TelephonyCallbackEventId\<close>, and the structures of \<^verbatim>\<open>update_infos.h\<close>.\<close>

datatype TelephonyCallbackEventId =
    EVENT_ON_CALL_STATE_UPDATE | EVENT_ON_SIGNAL_INFO_UPDATE | EVENT_ON_NETWORK_STATE_UPDATE
  | EVENT_ON_SIM_STATE_UPDATE | EVENT_ON_CELL_INFOMATION_UPDATE
  | EVENT_ON_CELLULAR_DATA_CONNECTION_UPDATE | EVENT_ON_CELLULAR_DATA_FLOW_UPDATE
  | EVENT_ON_CFU_INDICATOR_UPDATE | EVENT_ON_VOICE_MAIL_MSG_INDICATOR_UPDATE
  | EVENT_ON_ICC_ACCOUNT_UPDATE | EVENT_ON_CALL_STATE_EX_UPDATE | EVENT_ON_CCALL_STATE_UPDATE
  | EVENT_ON_SIM_ACTIVE_STATE_UPDATE | EVENT_ON_VOIP_CALL_STATE_UPDATE

datatype ('sig, 'cell, 'net) update_info =
    CallStateUpdateInfo (info_slotId: int32) int32 string16
  | CallStateExUpdateInfo (info_slotId: int32) int32
  | SignalUpdateInfo (info_slotId: int32) "'sig option list"
  | NetworkStateUpdateInfo (info_slotId: int32) "'net option"
  | SimStateUpdateInfo (info_slotId: int32) int32 int32 int32
  | CellInfomationUpdate (info_slotId: int32) "'cell option list"
  | CellularDataConnectState (info_slotId: int32) int32 int32
  | CellularDataFlowUpdate (info_slotId: int32) int32
  | CfuIndicatorUpdate (info_slotId: int32) bool
  | VoiceMailMsgIndicatorUpdate (info_slotId: int32) bool
  | SimActiveStateUpdate (info_slotId: int32) bool
  | VoIPCallStateUpdateInfo (info_slotId: int32) VoIPCallStateInfo

text \<open>The methods of \<^verbatim>\<open>NapiTelephonyObserver\<close>: the event sent to the handler, with its object.\<close>

fun NapiTelephonyObserver ::
    "('sig, 'cell, 'net) observer_call \<Rightarrow> TelephonyCallbackEventId \<times> ('sig, 'cell, 'net) update_info option" where
  "NapiTelephonyObserver (OnCallStateUpdated k st number) =
     (EVENT_ON_CALL_STATE_UPDATE, Some (CallStateUpdateInfo k st number))"
| "NapiTelephonyObserver (OnCallStateUpdatedEx k st) =
     (EVENT_ON_CALL_STATE_EX_UPDATE, Some (CallStateExUpdateInfo k st))"
| "NapiTelephonyObserver (OnSignalInfoUpdated k vec) =
     (EVENT_ON_SIGNAL_INFO_UPDATE, Some (SignalUpdateInfo k vec))"
| "NapiTelephonyObserver (OnNetworkStateUpdated k ns) =
     (EVENT_ON_NETWORK_STATE_UPDATE, Some (NetworkStateUpdateInfo k ns))"
| "NapiTelephonyObserver (OnSimStateUpdated k type st reason) =
     (EVENT_ON_SIM_STATE_UPDATE, Some (SimStateUpdateInfo k type st reason))"
| "NapiTelephonyObserver (OnCellInfoUpdated k vec) =
     (EVENT_ON_CELL_INFOMATION_UPDATE, Some (CellInfomationUpdate k vec))"
| "NapiTelephonyObserver (OnCellularDataConnectStateUpdated k st type) =
     (EVENT_ON_CELLULAR_DATA_CONNECTION_UPDATE, Some (CellularDataConnectState k st type))"
| "NapiTelephonyObserver (OnCellularDataFlowUpdated k v) =
     (EVENT_ON_CELLULAR_DATA_FLOW_UPDATE, Some (CellularDataFlowUpdate k v))"
| "NapiTelephonyObserver (OnCfuIndicatorUpdated k v) =
     (EVENT_ON_CFU_INDICATOR_UPDATE, Some (CfuIndicatorUpdate k v))"
| "NapiTelephonyObserver OnIccAccountUpdated = (EVENT_ON_ICC_ACCOUNT_UPDATE, None)"
| "NapiTelephonyObserver (OnVoiceMailMsgIndicatorUpdated k v) =
     (EVENT_ON_VOICE_MAIL_MSG_INDICATOR_UPDATE, Some (VoiceMailMsgIndicatorUpdate k v))"
| "NapiTelephonyObserver (OnCCallStateUpdated k st number) =
     (EVENT_ON_CCALL_STATE_UPDATE, Some (CallStateUpdateInfo k st number))"
| "NapiTelephonyObserver (OnSimActiveStateUpdated k v) =
     (EVENT_ON_SIM_ACTIVE_STATE_UPDATE, Some (SimActiveStateUpdate k v))"
| "NapiTelephonyObserver (OnVoIPStateUpdated info) =
     (EVENT_ON_VOIP_CALL_STATE_UPDATE, Some (VoIPCallStateUpdateInfo (-1) info))"

section \<open>From the event to the queued work\<close>

definition IsNeedHandleCallbackUpdate :: "napi \<Rightarrow> event_type \<Rightarrow> event_type \<Rightarrow> int32 \<Rightarrow> int32 \<Rightarrow> bool" where
  "IsNeedHandleCallbackUpdate N eventType curEventType eventSlotId curSlotId =
     (if eventType \<noteq> curEventType then False
      else if eventSlotId = curSlotId then True
      else if eventType \<in> set ENABLE_ON_DEFAULT_DATA_EVENT_SET \<and> eventSlotId = DEFAULT_CONN_SLOT
      then (let defaultSlotId = DefaultCellularDataSlotId N
            in if curSlotId = defaultSlotId then True else False)
      else False)"

text \<open>
  One iteration per listener; \<^verbatim>\<open>break\<close> when there is no loop, \<^verbatim>\<open>return\<close> when the work cannot be queued.
  The result is the work queued: the copy of the listener with the object.
\<close>

fun HandleCallbackInfoUpdate ::
    "napi \<Rightarrow> event_type \<Rightarrow> ('sig, 'cell, 'net) update_info \<Rightarrow> EventListener list \<Rightarrow>
     (EventListener \<times> ('sig, 'cell, 'net) update_info option) list" where
  "HandleCallbackInfoUpdate N eventType info [] = []"
| "HandleCallbackInfoUpdate N eventType info (listen # ls) =
     (if \<not> IsNeedHandleCallbackUpdate N (l_eventType listen) eventType (l_slotId listen) (info_slotId info)
      then HandleCallbackInfoUpdate N eventType info ls
      else if \<not> InitLoop N (l_env listen) then []
      else if QueueWork N listen \<noteq> 0 then []
      else (listen, Some info) # HandleCallbackInfoUpdate N eventType info ls)"

fun HandleCallbackVoidUpdate ::
    "napi \<Rightarrow> event_type \<Rightarrow> EventListener list \<Rightarrow>
     (EventListener \<times> ('sig, 'cell, 'net) update_info option) list" where
  "HandleCallbackVoidUpdate N eventType [] = []"
| "HandleCallbackVoidUpdate N eventType (listen # ls) =
     (if l_eventType listen = eventType
      then if \<not> InitLoop N (l_env listen) then []
           else if QueueWork N listen \<noteq> 0 then []
           else (listen, None) # HandleCallbackVoidUpdate N eventType ls
      else HandleCallbackVoidUpdate N eventType ls)"

text \<open>\<^verbatim>\<open>handleFuncMap_\<close>: the event type of each event, and which handler runs.\<close>

fun handle_type :: "TelephonyCallbackEventId \<Rightarrow> event_type" where
  "handle_type EVENT_ON_CALL_STATE_UPDATE = Some M_CALL_STATE"
| "handle_type EVENT_ON_SIM_STATE_UPDATE = Some M_SIM_STATE"
| "handle_type EVENT_ON_CELLULAR_DATA_CONNECTION_UPDATE = Some M_DATA_CONNECTION_STATE"
| "handle_type EVENT_ON_CELLULAR_DATA_FLOW_UPDATE = Some M_DATA_FLOW"
| "handle_type EVENT_ON_CFU_INDICATOR_UPDATE = Some M_CFU_INDICATOR"
| "handle_type EVENT_ON_VOICE_MAIL_MSG_INDICATOR_UPDATE = Some M_VOICE_MAIL_MSG_INDICATOR"
| "handle_type EVENT_ON_ICC_ACCOUNT_UPDATE = Some M_ICC_ACCOUNT"
| "handle_type EVENT_ON_CALL_STATE_EX_UPDATE = Some M_CALL_STATE_EX"
| "handle_type EVENT_ON_CCALL_STATE_UPDATE = Some M_CCALL_STATE"
| "handle_type EVENT_ON_SIM_ACTIVE_STATE_UPDATE = Some M_SIM_ACTIVE_STATE"
| "handle_type EVENT_ON_VOIP_CALL_STATE_UPDATE = Some M_VOIP_CALL_STATE"
| "handle_type EVENT_ON_SIGNAL_INFO_UPDATE = Some M_SIGNAL_STRENGTHS"
| "handle_type EVENT_ON_NETWORK_STATE_UPDATE = Some M_NETWORK_STATE"
| "handle_type EVENT_ON_CELL_INFOMATION_UPDATE = Some M_CELL_INFO"

definition ProcessEvent ::
    "napi \<Rightarrow> TelephonyCallbackEventId \<times> ('sig, 'cell, 'net) update_info option \<Rightarrow> handler \<Rightarrow>
     (EventListener \<times> ('sig, 'cell, 'net) update_info option) list" where
  "ProcessEvent N = (\<lambda>(eventId, obj) h.
     if eventId = EVENT_ON_ICC_ACCOUNT_UPDATE
     then HandleCallbackVoidUpdate N (handle_type eventId) (listenerList_of h)
     else case obj of
            None \<Rightarrow> []
          | Some info \<Rightarrow> HandleCallbackInfoUpdate N (handle_type eventId) info (listenerList_of h))"

section \<open>The work function\<close>

text \<open>
  What a piece of work does on the JavaScript thread, in order. It starts with the handler's
  mutex locked.
\<close>

datatype napi_event = OpenScope | CloseScope | UnlockMutex | CallFunction nat js_value | NullCrash

definition NapiReturnToJS :: "napi \<Rightarrow> nat option \<Rightarrow> nat option \<Rightarrow> js_value \<Rightarrow> napi_event list" where
  "NapiReturnToJS N env callbackRef callbackVal =
     (if \<not> OpenInnerScopeOk N then [UnlockMutex]
      else if callbackRef = None then [OpenScope, CloseScope, UnlockMutex]
      else case GetReferenceValue N env callbackRef of
             None \<Rightarrow> [OpenScope, CloseScope, UnlockMutex]
           | Some callbackFunc \<Rightarrow>
               [OpenScope, UnlockMutex, CallFunction callbackFunc callbackVal, CloseScope])"

text \<open>
  The frame of every work function: open a scope (or unlock and return), build the value, return
  it to JavaScript, close the scope. \<open>None\<close> as the value is the dereference of a null element.
\<close>

definition work_frame :: "napi \<Rightarrow> EventListener \<Rightarrow> js_value option \<Rightarrow> napi_event list" where
  "work_frame N l v =
     (if \<not> OpenScopeOk N then [UnlockMutex]
      else OpenScope #
        (case v of None \<Rightarrow> [NullCrash]
         | Some callbackValue \<Rightarrow>
             NapiReturnToJS N (l_env l) (l_callbackRef l) callbackValue @ [CloseScope]))"

definition all_some :: "('a \<Rightarrow> 'b) \<Rightarrow> 'a option list \<Rightarrow> 'b list option" where
  "all_some f vec = (if None \<in> set vec then None else Some (map (f \<circ> the) vec))"

definition WorkCallStateUpdated where
  "WorkCallStateUpdated N L l callState phoneNumber = work_frame N l (Some (JObj
     [(''state'', JInt (WrapCallState callState)), (''number'', JStr (ToUtf8 L phoneNumber))]))"

definition WorkCallStateExUpdated where
  "WorkCallStateExUpdated N l callStateEx =
     work_frame N l (Some (JObj [(''state'', JInt (WrapCallStateEx callStateEx))]))"

definition WorkSignalUpdated where
  "WorkSignalUpdated N L l vec = work_frame N l (map_option JArr (all_some (\<lambda>infoItem. JObj
     [(''signalType'', JInt (WrapNetworkType L (sig_NetworkType L infoItem))),
      (''signalLevel'', JInt (sig_SignalLevel L infoItem)),
      (''dBm'', JInt (sig_SignalIntensity L infoItem))]) vec))"

definition network_value :: "('sig, 'cell, 'net) payload \<Rightarrow> 'net \<Rightarrow> js_value" where
  "network_value L ns = JObj
     [(''longOperatorName'', JStr (net_LongOperatorName L ns)),
      (''shortOperatorName'', JStr (net_ShortOperatorName L ns)),
      (''plmnNumeric'', JStr (net_PlmnNumeric L ns)), (''isRoaming'', JBool (net_IsRoaming L ns)),
      (''regState'', JInt (WrapRegState L (net_RegStatus L ns))),
      (''isEmergency'', JBool (net_IsEmergency L ns)),
      (''cfgTech'', JInt (WrapRadioTech L (net_CfgTech L ns))),
      (''nsaState'', JInt (net_NrState L ns)), (''isCaActive'', JBool False)]"

text \<open>A null network state is returned from with the mutex unlocked and the scope left open.\<close>

definition WorkNetworkStateUpdated where
  "WorkNetworkStateUpdated N L l networkState =
     (if \<not> OpenScopeOk N then [UnlockMutex]
      else OpenScope #
        (case networkState of None \<Rightarrow> [UnlockMutex]
         | Some ns \<Rightarrow> NapiReturnToJS N (l_env l) (l_callbackRef l) (network_value L ns) @ [CloseScope]))"

definition WorkSimStateUpdated where
  "WorkSimStateUpdated N l cardType simState lockReason = work_frame N l (Some (JObj
     [(''type'', JInt cardType), (''state'', JInt simState), (''reason'', JInt lockReason)]))"

definition WorkCellInfomationUpdated where
  "WorkCellInfomationUpdated N L l vec =
     work_frame N l (map_option JArr (all_some (CellInfoConversion L) vec))"

definition WorkCellularDataConnectStateUpdated where
  "WorkCellularDataConnectStateUpdated N l dataState networkType = work_frame N l (Some (JObj
     [(''state'', JInt dataState), (''network'', JInt networkType)]))"

definition WorkCellularDataFlowUpdated where
  "WorkCellularDataFlowUpdated N l flowType = work_frame N l (Some (JInt flowType))"

definition WorkCfuIndicatorUpdated where
  "WorkCfuIndicatorUpdated N l cfuResult = work_frame N l (Some (JBool cfuResult))"

definition WorkVoiceMailMsgIndicatorUpdated where
  "WorkVoiceMailMsgIndicatorUpdated N l voiceMailMsgResult = work_frame N l (Some (JBool voiceMailMsgResult))"

definition WorkIccAccountUpdated where
  "WorkIccAccountUpdated N l = work_frame N l (Some (JObj []))"

definition WorkSimActiveUpdated where
  "WorkSimActiveUpdated N l isActive = work_frame N l (Some (JBool isActive))"

definition WorkCCallStateUpdated where
  "WorkCCallStateUpdated N L l callState phoneNumber = work_frame N l (Some (JObj
     [(''state'', JInt callState), (''teleNumber'', JStr (ToUtf8 L phoneNumber))]))"

definition WorkVoIPStateUpdated where
  "WorkVoIPStateUpdated N l info = work_frame N l (Some (JObj
     [(''appName'', JStr (voip_appName info)), (''contactName'', JStr (voip_contactName info)),
      (''callType'', JInt (voip_callType info)), (''callState'', JInt (voip_callState info)),
      (''isVoiceAnswerSupported'', JBool (voip_isVoiceAnswerSupported info))]))"

text \<open>
  \<^verbatim>\<open>workFuncMap_\<close>: the work function of an event type, on the object queued with it. The event type
  decides which function casts the object; an object of another structure cannot be queued.
\<close>

definition work_func ::
    "napi \<Rightarrow> ('sig, 'cell, 'net) payload \<Rightarrow> event_type \<Rightarrow> EventListener \<Rightarrow>
     ('sig, 'cell, 'net) update_info option \<Rightarrow> napi_event list option" where
  "work_func N L t l obj = (case t of None \<Rightarrow> None | Some m \<Rightarrow> (case m of
     M_CALL_STATE \<Rightarrow>
         (case obj of Some (CallStateUpdateInfo k st number) \<Rightarrow> Some (WorkCallStateUpdated N L l st number)
          | _ \<Rightarrow> None)
     | M_CCALL_STATE \<Rightarrow>
         (case obj of Some (CallStateUpdateInfo k st number) \<Rightarrow> Some (WorkCCallStateUpdated N L l st number)
          | _ \<Rightarrow> None)
     | M_CALL_STATE_EX \<Rightarrow>
         (case obj of Some (CallStateExUpdateInfo k st) \<Rightarrow> Some (WorkCallStateExUpdated N l st)
          | _ \<Rightarrow> None)
     | M_SIGNAL_STRENGTHS \<Rightarrow>
         (case obj of Some (SignalUpdateInfo k vec) \<Rightarrow> Some (WorkSignalUpdated N L l vec)
          | _ \<Rightarrow> None)
     | M_NETWORK_STATE \<Rightarrow>
         (case obj of Some (NetworkStateUpdateInfo k ns) \<Rightarrow> Some (WorkNetworkStateUpdated N L l ns)
          | _ \<Rightarrow> None)
     | M_SIM_STATE \<Rightarrow>
         (case obj of Some (SimStateUpdateInfo k type st reason) \<Rightarrow> Some (WorkSimStateUpdated N l type st reason)
          | _ \<Rightarrow> None)
     | M_CELL_INFO \<Rightarrow>
         (case obj of Some (CellInfomationUpdate k vec) \<Rightarrow> Some (WorkCellInfomationUpdated N L l vec)
          | _ \<Rightarrow> None)
     | M_DATA_CONNECTION_STATE \<Rightarrow>
         (case obj of Some (CellularDataConnectState k st type) \<Rightarrow> Some (WorkCellularDataConnectStateUpdated N l st type)
          | _ \<Rightarrow> None)
     | M_DATA_FLOW \<Rightarrow>
         (case obj of Some (CellularDataFlowUpdate k v) \<Rightarrow> Some (WorkCellularDataFlowUpdated N l v)
          | _ \<Rightarrow> None)
     | M_CFU_INDICATOR \<Rightarrow>
         (case obj of Some (CfuIndicatorUpdate k v) \<Rightarrow> Some (WorkCfuIndicatorUpdated N l v)
          | _ \<Rightarrow> None)
     | M_VOICE_MAIL_MSG_INDICATOR \<Rightarrow>
         (case obj of Some (VoiceMailMsgIndicatorUpdate k v) \<Rightarrow> Some (WorkVoiceMailMsgIndicatorUpdated N l v)
          | _ \<Rightarrow> None)
     | M_ICC_ACCOUNT \<Rightarrow> Some (WorkIccAccountUpdated N l)
     | M_SIM_ACTIVE_STATE \<Rightarrow>
         (case obj of Some (SimActiveStateUpdate k v) \<Rightarrow> Some (WorkSimActiveUpdated N l v)
          | _ \<Rightarrow> None)
     | M_VOIP_CALL_STATE \<Rightarrow>
         (case obj of Some (VoIPCallStateUpdateInfo k info) \<Rightarrow> Some (WorkVoIPStateUpdated N l info)
          | _ \<Rightarrow> None)))"

text \<open>
  \<^verbatim>\<open>WorkUpdated\<close>, run later on the JavaScript thread: the flag is read from the state at that time.
  On the early returns the lock is released by its destructor.
\<close>

definition WorkUpdated ::
    "napi \<Rightarrow> ('sig, 'cell, 'net) payload \<Rightarrow> handler \<Rightarrow>
     EventListener \<times> ('sig, 'cell, 'net) update_info option \<Rightarrow> napi_event list" where
  "WorkUpdated N L h = (\<lambda>(listener, obj).
     if (case l_isDeleting listener of None \<Rightarrow> True | Some f \<Rightarrow> deleting h f) then [UnlockMutex]
     else case work_func N L (l_eventType listener) listener obj of
            None \<Rightarrow> [UnlockMutex]
          | Some es \<Rightarrow> es)"

section \<open>Which listeners are served\<close>

text \<open>Work is queued for the listeners concerned, in the order of the table, up to the first failure.\<close>

lemma HandleCallbackInfoUpdate_eq:
  "HandleCallbackInfoUpdate N t info ls =
     map (\<lambda>l. (l, Some info)) (takeWhile (\<lambda>l. InitLoop N (l_env l) \<and> QueueWork N l = 0)
       (filter (\<lambda>l. IsNeedHandleCallbackUpdate N (l_eventType l) t (l_slotId l) (info_slotId info)) ls))"
  by (induction ls) auto

lemma HandleCallbackVoidUpdate_eq:
  "HandleCallbackVoidUpdate N t ls =
     map (\<lambda>l. (l, None)) (takeWhile (\<lambda>l. InitLoop N (l_env l) \<and> QueueWork N l = 0)
       (filter (\<lambda>l. l_eventType l = t) ls))"
  by (induction ls) auto

text \<open>
  The specification: a listener hears a call when it asked for this kind of event and the slot
  matches; a listener of the default connection slot hears the data events of the slot in use.
\<close>

definition hears :: "napi \<Rightarrow> EventListener \<Rightarrow> ('sig, 'cell, 'net) observer_call \<Rightarrow> bool" where
  "hears N l c \<longleftrightarrow> l_eventType l = Some (kind_of_call c) \<and>
     (case slot_of_call c of
        None \<Rightarrow> kind_of_call c = M_ICC_ACCOUNT \<or> l_slotId l = -1
      | Some k \<Rightarrow> l_slotId l = k \<or>
          (l_slotId l = DEFAULT_CONN_SLOT \<and> k = DefaultCellularDataSlotId N \<and>
           kind_of_call c \<in> {M_DATA_CONNECTION_STATE, M_DATA_FLOW}))"

definition payload_of :: "('sig, 'cell, 'net) observer_call \<Rightarrow> ('sig, 'cell, 'net) update_info option" where
  "payload_of c = snd (NapiTelephonyObserver c)"

lemma ProcessEvent_eq:
  "ProcessEvent N (NapiTelephonyObserver c) h =
     map (\<lambda>l. (l, payload_of c)) (takeWhile (\<lambda>l. InitLoop N (l_env l) \<and> QueueWork N l = 0)
       (filter (\<lambda>l. hears N l c) (listenerList_of h)))"
proof -
  have "filter (\<lambda>l. IsNeedHandleCallbackUpdate N (l_eventType l) (Some (kind_of_call c)) (l_slotId l) k)
      (listenerList_of h) = filter (\<lambda>l. hears N l c) (listenerList_of h)"
    if "slot_of_call c = Some k \<or> (slot_of_call c = None \<and> k = -1 \<and> kind_of_call c \<noteq> M_ICC_ACCOUNT \<and>
      kind_of_call c \<notin> {M_DATA_CONNECTION_STATE, M_DATA_FLOW})" for k
    using that
    by (intro filter_cong)
      (auto simp: IsNeedHandleCallbackUpdate_def hears_def ENABLE_ON_DEFAULT_DATA_EVENT_SET_def)
  then show ?thesis
    by (cases c) (simp_all add: ProcessEvent_def HandleCallbackInfoUpdate_eq HandleCallbackVoidUpdate_eq
        hears_def payload_of_def)
qed

section \<open>The work function\<close>

text \<open>
  The JavaScript value of a call: the fields of the API object in their order, the enumerations through the
  binding's own conversions; \<open>None\<close> for a null object inside it.
\<close>

fun js_image :: "('sig, 'cell, 'net) payload \<Rightarrow> ('sig, 'cell, 'net) observer_call \<Rightarrow> js_value option" where
  "js_image L (OnCallStateUpdated k st n) =
     Some (JObj [(''state'', JInt (WrapCallState st)), (''number'', JStr (ToUtf8 L n))])"
| "js_image L (OnCallStateUpdatedEx k st) = Some (JObj [(''state'', JInt (WrapCallStateEx st))])"
| "js_image L (OnSignalInfoUpdated k vec) = map_option JArr (all_some (\<lambda>s. SignalInfoConversion
     (WrapNetworkType L (sig_NetworkType L s)) (sig_SignalLevel L s) (sig_SignalIntensity L s)) vec)"
| "js_image L (OnNetworkStateUpdated k ns) = map_option (network_value L) ns"
| "js_image L (OnSimStateUpdated k type st reason) =
     Some (JObj [(''type'', JInt type), (''state'', JInt st), (''reason'', JInt reason)])"
| "js_image L (OnCellInfoUpdated k vec) = map_option JArr (all_some (CellInfoConversion L) vec)"
| "js_image L (OnCellularDataConnectStateUpdated k st type) =
     Some (JObj [(''state'', JInt st), (''network'', JInt type)])"
| "js_image L (OnCellularDataFlowUpdated k v) = Some (JInt v)"
| "js_image L (OnCfuIndicatorUpdated k v) = Some (JBool v)"
| "js_image L (OnVoiceMailMsgIndicatorUpdated k v) = Some (JBool v)"
| "js_image L OnIccAccountUpdated = Some (JObj [])"
| "js_image L (OnCCallStateUpdated k st n) =
     Some (JObj [(''state'', JInt st), (''teleNumber'', JStr (ToUtf8 L n))])"
| "js_image L (OnSimActiveStateUpdated k v) = Some (JBool v)"
| "js_image L (OnVoIPStateUpdated info) = Some (JObj
     [(''appName'', JStr (voip_appName info)), (''contactName'', JStr (voip_contactName info)),
      (''callType'', JInt (voip_callType info)), (''callState'', JInt (voip_callState info)),
      (''isVoiceAnswerSupported'', JBool (voip_isVoiceAnswerSupported info))])"

lemma work_func_eq:
  assumes "js_image L c = Some v"
  shows "work_func N L (Some (kind_of_call c)) l (payload_of c) = Some (work_frame N l (Some v))"
  using assms
  by (cases c) (auto simp: work_func_def payload_of_def work_frame_def WorkCallStateUpdated_def
      WorkCallStateExUpdated_def WorkSignalUpdated_def SignalInfoConversion_def WorkNetworkStateUpdated_def
      WorkSimStateUpdated_def WorkCellInfomationUpdated_def WorkCellularDataConnectStateUpdated_def
      WorkCellularDataFlowUpdated_def WorkCfuIndicatorUpdated_def WorkVoiceMailMsgIndicatorUpdated_def
      WorkIccAccountUpdated_def WorkSimActiveUpdated_def WorkCCallStateUpdated_def WorkVoIPStateUpdated_def)

text \<open>
  The lock contract of a piece of work, which starts with the mutex held: the mutex is released
  exactly once and never held while JavaScript runs, and every scope opened is closed.
\<close>

fun holds_lock :: "bool \<Rightarrow> napi_event list \<Rightarrow> bool option" where
  "holds_lock locked [] = Some locked"
| "holds_lock locked (UnlockMutex # es) = (if locked then holds_lock False es else None)"
| "holds_lock locked (CallFunction f v # es) = (if locked then None else holds_lock locked es)"
| "holds_lock locked (NullCrash # es) = None"
| "holds_lock locked (OpenScope # es) = holds_lock locked es"
| "holds_lock locked (CloseScope # es) = holds_lock locked es"

fun open_scopes :: "nat \<Rightarrow> napi_event list \<Rightarrow> nat option" where
  "open_scopes n [] = Some n"
| "open_scopes n (OpenScope # es) = open_scopes (Suc n) es"
| "open_scopes n (CloseScope # es) = (case n of 0 \<Rightarrow> None | Suc m \<Rightarrow> open_scopes m es)"
| "open_scopes n (UnlockMutex # es) = open_scopes n es"
| "open_scopes n (CallFunction f v # es) = open_scopes n es"
| "open_scopes n (NullCrash # es) = open_scopes n es"

lemma work_frame_contract:
  "holds_lock True (work_frame N l (Some v)) = Some False"
  "open_scopes 0 (work_frame N l (Some v)) = Some 0"
  by (auto simp: work_frame_def NapiReturnToJS_def split: option.splits)

definition calls_of :: "napi_event list \<Rightarrow> (nat \<times> js_value) list" where
  "calls_of es = concat (map (\<lambda>e. case e of CallFunction f v \<Rightarrow> [(f, v)] | _ \<Rightarrow> []) es)"

lemma calls_of_frame:
  "calls_of (work_frame N l (Some v)) =
     (if OpenScopeOk N \<and> OpenInnerScopeOk N \<and> l_callbackRef l \<noteq> None
      then (case GetReferenceValue N (l_env l) (l_callbackRef l) of None \<Rightarrow> [] | Some f \<Rightarrow> [(f, v)])
      else [])"
  by (auto simp: calls_of_def work_frame_def NapiReturnToJS_def split: option.splits)

lemma WorkUpdated_deleting:
  "(case l_isDeleting l of None \<Rightarrow> True | Some f \<Rightarrow> deleting h f) \<Longrightarrow> WorkUpdated N L h (l, obj) = [UnlockMutex]"
  by (simp add: WorkUpdated_def)

lemma WorkUpdated_live:
  assumes "l_isDeleting l = Some f" and "\<not> deleting h f" and "l_eventType l = Some (kind_of_call c)"
    and "js_image L c = Some v"
  shows "WorkUpdated N L h (l, payload_of c) = work_frame N l (Some v)"
  using assms by (simp add: WorkUpdated_def work_func_eq)

text \<open>A call with a null object inside: no function is called; a null network state leaves its scope open.\<close>

lemma WorkUpdated_null:
  assumes "l_isDeleting l = Some f" and "\<not> deleting h f" and "l_eventType l = Some (kind_of_call c)"
    and "js_image L c = None"
  shows "WorkUpdated N L h (l, payload_of c) =
    (if \<not> OpenScopeOk N then [UnlockMutex]
     else if kind_of_call c = M_NETWORK_STATE then [OpenScope, UnlockMutex] else [OpenScope, NullCrash])"
  using assms
  by (cases c) (auto simp: WorkUpdated_def work_func_def payload_of_def work_frame_def WorkSignalUpdated_def
      SignalInfoConversion_def WorkNetworkStateUpdated_def WorkCellInfomationUpdated_def all_some_def split: if_splits)

end
