(* ===== verification/Listener_Cj.thy ===== *)
theory Listener_Cj
  imports Dispatch_Js "HOL-Library.Countable"
begin

text \<open>
  The Cangjie binding (\<^verbatim>\<open>frameworks/cj/src\<close>): the listener table of
  \<^verbatim>\<open>observer_event_handler.cpp\<close>, the entry points and error codes of \<^verbatim>\<open>telephony_observer_impl.cpp\<close>,
  and the dispatch of an event, which calls the listeners of a snapshot without a lock. The
  conversions of call, registration and signal states are the same switches as in the JavaScript
  binding; the conversion of the radio technology has one case more.
\<close>

section \<open>The table\<close>

record CjListener =
  cj_eventType :: event_type
  cj_slotId :: int32
  cj_funcId :: int64
  cj_callbackRef :: bool
  cj_isDeleting :: "nat option"

record cj_handler =
  cj_listenerList :: "CjListener list"
  cj_deleting :: "nat \<Rightarrow> bool"

fun check_loop_cj :: "CjListener \<Rightarrow> listener_flag \<Rightarrow> CjListener list \<Rightarrow> listener_flag" where
  "check_loop_cj e flag [] = flag"
| "check_loop_cj e flag (listen # ls) =
     (if cj_slotId e = cj_slotId listen \<and> cj_eventType e = cj_eventType listen \<and>
         cj_funcId e = cj_funcId listen
      then EVENT_LISTENER_SAME
      else check_loop_cj e
             (if cj_slotId e = cj_slotId listen \<and> cj_eventType e = cj_eventType listen
              then EVENT_LISTENER_SLOTID_AND_EVENTTYPE_SAME else flag) ls)"

definition CheckEventListenerRegister_cj :: "CjListener \<Rightarrow> cj_handler \<Rightarrow> listener_flag" where
  "CheckEventListenerRegister_cj e h = check_loop_cj e EVENT_LISTENER_DIFF (cj_listenerList h)"

definition RegisterEventListener_cj ::
    "build \<Rightarrow> (observer option \<Rightarrow> int32 \<Rightarrow> uint32 \<Rightarrow> bool \<Rightarrow> 'x \<Rightarrow> int32 \<times> 'x) \<Rightarrow> observer \<Rightarrow>
     CjListener \<Rightarrow> cj_handler \<times> 'x \<Rightarrow> int32 \<times> cj_handler \<times> 'x" where
  "RegisterEventListener_cj K add ob e = (\<lambda>(h, x).
     let registerStatus = CheckEventListenerRegister_cj e h
     in if registerStatus = EVENT_LISTENER_SAME
        then (ERR K TELEPHONY_ERR_CALLBACK_ALREADY_REGISTERED, h, x)
        else let (addResult, x) =
                   (if registerStatus \<noteq> EVENT_LISTENER_SLOTID_AND_EVENTTYPE_SAME
                    then add (Some ob) (cj_slotId e) (event_value K (cj_eventType e))
                           (cj_eventType e = Some M_CALL_STATE) x
                    else (ERR K TELEPHONY_SUCCESS, x))
             in if addResult \<noteq> ERR K TELEPHONY_SUCCESS then (addResult, h, x)
                else (ERR K TELEPHONY_SUCCESS, h\<lparr>cj_listenerList := cj_listenerList h @ [e]\<rparr>, x))"

fun erase_loop_cj ::
    "(CjListener \<Rightarrow> bool) \<Rightarrow> CjListener list \<Rightarrow> (nat \<Rightarrow> bool) \<times> int32 list \<Rightarrow>
     CjListener list \<times> (nat \<Rightarrow> bool) \<times> int32 list" where
  "erase_loop_cj sel [] acc = ([], acc)"
| "erase_loop_cj sel (it # ls) (fl, slots) =
     (if sel it
      then erase_loop_cj sel ls
             (SetEventListenerDeleting (cj_isDeleting it) fl, set_insert (cj_slotId it) slots)
      else let (ls', acc) = erase_loop_cj sel ls (fl, slots) in (it # ls', acc))"

definition RemoveEventListenerRegister_cj ::
    "event_type \<Rightarrow> int64 \<Rightarrow> cj_handler \<Rightarrow> cj_handler \<times> int32 list" where
  "RemoveEventListenerRegister_cj eventType funcId h =
     (let (ls, fl, slots) =
            erase_loop_cj (\<lambda>it. eventType = cj_eventType it \<and> (cj_funcId it = funcId \<or> funcId = -1))
              (cj_listenerList h) (cj_deleting h, [])
      in (h\<lparr>cj_listenerList := ls, cj_deleting := fl\<rparr>, slots))"

fun exists_loop_cj :: "int32 \<Rightarrow> event_type \<Rightarrow> CjListener list \<Rightarrow> bool" where
  "exists_loop_cj slotId eventType [] = False"
| "exists_loop_cj slotId eventType (listen # ls) =
     (if slotId = cj_slotId listen \<and> eventType = cj_eventType listen then True
      else exists_loop_cj slotId eventType ls)"

definition CheckEventTypeExist_cj :: "int32 \<Rightarrow> event_type \<Rightarrow> cj_handler \<Rightarrow> bool" where
  "CheckEventTypeExist_cj slotId eventType h = exists_loop_cj slotId eventType (cj_listenerList h)"

definition CheckRemoveStateObserver_cj ::
    "build \<Rightarrow> (int32 \<Rightarrow> uint32 \<Rightarrow> 'x \<Rightarrow> int32 \<times> 'x) \<Rightarrow> cj_handler \<Rightarrow> event_type \<Rightarrow> int32 \<Rightarrow>
     int32 \<times> 'x \<Rightarrow> int32 \<times> 'x" where
  "CheckRemoveStateObserver_cj K rem h eventType slotId = (\<lambda>(result, x).
     if \<not> CheckEventTypeExist_cj slotId eventType h
     then let (removeRet, x) = rem slotId (event_value K eventType) x
          in if removeRet \<noteq> ERR K TELEPHONY_SUCCESS then (removeRet, x) else (result, x)
     else (result, x))"

definition UnregisterEventListener_cj ::
    "build \<Rightarrow> (int32 \<Rightarrow> uint32 \<Rightarrow> 'x \<Rightarrow> int32 \<times> 'x) \<Rightarrow> event_type \<Rightarrow> int64 \<Rightarrow>
     cj_handler \<times> 'x \<Rightarrow> int32 \<times> cj_handler \<times> 'x" where
  "UnregisterEventListener_cj K rem eventType funcId = (\<lambda>(h, x).
     if cj_listenerList h = [] then (ERR K TELEPHONY_SUCCESS, h, x)
     else let (h, slots) = RemoveEventListenerRegister_cj eventType funcId h;
              (result, x) = for_each (CheckRemoveStateObserver_cj K rem h eventType) slots
                              (ERR K TELEPHONY_SUCCESS, x)
          in (result, h, x))"

section \<open>Entry points\<close>

definition GetEventType_cj :: "string \<Rightarrow> event_type" where
  "GetEventType_cj event = map_of
     [(''networkStateChange'', M_NETWORK_STATE), (''callStateChange'', M_CALL_STATE),
      (''signalInfoChange'', M_SIGNAL_STRENGTHS), (''simStateChange'', M_SIM_STATE),
      (''cellInfoChange'', M_CELL_INFO), (''cellularDataConnectionStateChange'', M_DATA_CONNECTION_STATE),
      (''cellularDataFlowChange'', M_DATA_FLOW), (''cfuIndicatorChange'', M_CFU_INDICATOR),
      (''voiceMailMsgIndicatorChange'', M_VOICE_MAIL_MSG_INDICATOR),
      (''iccAccountInfoChange'', M_ICC_ACCOUNT)] event"

text \<open>The error codes of the Cangjie API.\<close>

datatype cj_error =
    CJ_ERROR_TELEPHONY_ARGUMENT_ERROR | CJ_ERROR_TELEPHONY_SERVICE_ERROR
  | CJ_ERROR_TELEPHONY_SYSTEM_ERROR | CJ_ERROR_TELEPHONY_NO_SIM_CARD
  | CJ_ERROR_TELEPHONY_AIRPLANE_MODE_ON | CJ_ERROR_TELEPHONY_NETWORK_NOT_IN_SERVICE
  | CJ_ERROR_TELEPHONY_PERMISSION_DENIED | CJ_ERROR_ILLEGAL_USE_OF_SYSTEM_API

fun cj_error_value :: "cj_error \<Rightarrow> int32" where
  "cj_error_value CJ_ERROR_TELEPHONY_ARGUMENT_ERROR = 8300001"
| "cj_error_value CJ_ERROR_TELEPHONY_SERVICE_ERROR = 8300002"
| "cj_error_value CJ_ERROR_TELEPHONY_SYSTEM_ERROR = 8300003"
| "cj_error_value CJ_ERROR_TELEPHONY_NO_SIM_CARD = 8300004"
| "cj_error_value CJ_ERROR_TELEPHONY_AIRPLANE_MODE_ON = 8300005"
| "cj_error_value CJ_ERROR_TELEPHONY_NETWORK_NOT_IN_SERVICE = 8300006"
| "cj_error_value CJ_ERROR_TELEPHONY_PERMISSION_DENIED = 201"
| "cj_error_value CJ_ERROR_ILLEGAL_USE_OF_SYSTEM_API = 202"

text \<open>
  The cases of the switch of \<^verbatim>\<open>ConvertCJErrCode\<close>, in its order, as the code returns them. In the last one the comment of
  the source says 202, and the code returns the permission error, 201.
\<close>

definition cj_error_cases :: "(err_name list \<times> cj_error) list" where
  "cj_error_cases =
     [([TELEPHONY_ERR_ARGUMENT_MISMATCH, TELEPHONY_ERR_ARGUMENT_INVALID, TELEPHONY_ERR_ARGUMENT_NULL,
        TELEPHONY_ERR_SLOTID_INVALID, ERROR_SLOT_ID_INVALID], CJ_ERROR_TELEPHONY_ARGUMENT_ERROR),
      ([TELEPHONY_ERR_DESCRIPTOR_MISMATCH, TELEPHONY_ERR_WRITE_DESCRIPTOR_TOKEN_FAIL,
        TELEPHONY_ERR_WRITE_DATA_FAIL, TELEPHONY_ERR_READ_DATA_FAIL, TELEPHONY_ERR_WRITE_REPLY_FAIL,
        TELEPHONY_ERR_IPC_CONNECT_STUB_FAIL, TELEPHONY_ERR_REGISTER_CALLBACK_FAIL,
        TELEPHONY_ERR_CALLBACK_ALREADY_REGISTERED, TELEPHONY_ERR_UNINIT,
        TELEPHONY_ERR_UNREGISTER_CALLBACK_FAIL], CJ_ERROR_TELEPHONY_SERVICE_ERROR),
      ([TELEPHONY_ERR_VCARD_FILE_INVALID, TELEPHONY_ERR_FAIL, TELEPHONY_ERR_MEMCPY_FAIL,
        TELEPHONY_ERR_MEMSET_FAIL, TELEPHONY_ERR_STRCPY_FAIL, TELEPHONY_ERR_LOCAL_PTR_NULL,
        TELEPHONY_ERR_SUBSCRIBE_BROADCAST_FAIL, TELEPHONY_ERR_PUBLISH_BROADCAST_FAIL,
        TELEPHONY_ERR_STRTOINT_FAIL, TELEPHONY_ERR_ADD_DEATH_RECIPIENT_FAIL, TELEPHONY_ERR_RIL_CMD_FAIL,
        TELEPHONY_ERR_DATABASE_WRITE_FAIL, TELEPHONY_ERR_DATABASE_READ_FAIL,
        TELEPHONY_ERR_UNKNOWN_NETWORK_TYPE], CJ_ERROR_TELEPHONY_SYSTEM_ERROR),
      ([TELEPHONY_ERR_NO_SIM_CARD], CJ_ERROR_TELEPHONY_NO_SIM_CARD),
      ([TELEPHONY_ERR_AIRPLANE_MODE_ON], CJ_ERROR_TELEPHONY_AIRPLANE_MODE_ON),
      ([TELEPHONY_ERR_NETWORK_NOT_IN_SERVICE], CJ_ERROR_TELEPHONY_NETWORK_NOT_IN_SERVICE),
      ([TELEPHONY_ERR_PERMISSION_ERR], CJ_ERROR_TELEPHONY_PERMISSION_DENIED),
      ([TELEPHONY_ERR_ILLEGAL_USE_OF_SYSTEM_API], CJ_ERROR_TELEPHONY_PERMISSION_DENIED)]"

definition ConvertCJErrCode :: "build \<Rightarrow> int32 \<Rightarrow> int32" where
  "ConvertCJErrCode K errCode =
     (case find (\<lambda>(ns, c). errCode \<in> ERR K ` set ns) cj_error_cases of
        None \<Rightarrow> errCode | Some (ns, c) \<Rightarrow> cj_error_value c)"

definition IsValidSlotIdEx_cj :: "build \<Rightarrow> event_type \<Rightarrow> int32 \<Rightarrow> bool" where
  "IsValidSlotIdEx_cj K eventType slotId =
     (let defaultSlotId = (if eventType = Some M_CALL_STATE then -1 else DEFAULT_SIM_SLOT_ID K)
      in slotId \<ge> defaultSlotId \<and> slotId < SIM_SLOT_COUNT K + 1)"

text \<open>The two static functions in front of the handler's singleton (\<open>G\<close>: it exists).\<close>

definition RegisterEventListener_impl where
  "RegisterEventListener_impl K G add ob e = (\<lambda>(h, x).
     if \<not> G then (ERR K TELEPHONY_ERR_LOCAL_PTR_NULL, h, x)
     else RegisterEventListener_cj K add ob e (h, x))"

definition UnregisterEventListener_impl where
  "UnregisterEventListener_impl K G rem eventType funcId = (\<lambda>(h, x).
     if \<not> G then (ERR K TELEPHONY_ERR_LOCAL_PTR_NULL, h, x)
     else UnregisterEventListener_cj K rem eventType funcId (h, x))"

definition NativeOn_cj where
  "NativeOn_cj K G add ob listener = (\<lambda>(h, x).
     if SIM_SLOT_COUNT K = 0 then (ERR K TELEPHONY_SUCCESS, h, x)
     else if \<not> IsValidSlotIdEx_cj K (cj_eventType listener) (cj_slotId listener)
     then (ERR K ERROR_SLOT_ID_INVALID, h, x)
     else RegisterEventListener_impl K G add ob listener (h, x))"

text \<open>\<open>f\<close> is the new flag; \<open>created\<close> tells whether a callback could be made of \<open>funcId\<close>.\<close>

definition On_cj where
  "On_cj K G add ob f created event slotId funcId = (\<lambda>(h, x).
     if \<not> created then (ERR K TELEPHONY_ERR_ARGUMENT_NULL, h, x)
     else let listener = \<lparr>cj_eventType = GetEventType_cj event, cj_slotId = slotId, cj_funcId = funcId,
                          cj_callbackRef = created, cj_isDeleting = Some f\<rparr>;
              (errCode, h, x) =
                (if cj_eventType listener \<noteq> None then NativeOn_cj K G add ob listener (h, x)
                 else (ERR K TELEPHONY_ERR_ARGUMENT_INVALID, h, x))
          in (if errCode = ERR K TELEPHONY_STATE_REGISTRY_PERMISSION_DENIED
              then ERR K TELEPHONY_ERR_PERMISSION_ERR else errCode, h, x))"

text \<open>\<^verbatim>\<open>Off\<close> drops the result of the removal.\<close>

definition Off_cj where
  "Off_cj K G rem event funcId = (\<lambda>(h, x).
     let eventType = GetEventType_cj event;
         (errCode, h, x) =
           (if eventType \<noteq> None
            then let (dropped, h, x) = UnregisterEventListener_impl K G rem eventType funcId (h, x)
                 in (ERR K TELEPHONY_SUCCESS, h, x)
            else (ERR K TELEPHONY_ERR_ARGUMENT_INVALID, h, x))
     in (if errCode = ERR K TELEPHONY_STATE_REGISTRY_PERMISSION_DENIED
         then ERR K TELEPHONY_ERR_PERMISSION_ERR else errCode, h, x))"

text \<open>
  The methods of \<^verbatim>\<open>TelephonyObserverImpl\<close>, three per event: the event is the only difference. An
  \<^verbatim>\<open>OffAll\<close> method leaves the function to its default.
\<close>

datatype cj_event =
    NetworkState | SignalInfo | CallState_cj | CellularDataConnectionState | CellularDataFlow | SimState
  | IccAccountInfo

fun event_name :: "cj_event \<Rightarrow> string" where
  "event_name NetworkState = ''networkStateChange''"
| "event_name SignalInfo = ''signalInfoChange''"
| "event_name CallState_cj = ''callStateChange''"
| "event_name CellularDataConnectionState = ''cellularDataConnectionStateChange''"
| "event_name CellularDataFlow = ''cellularDataFlowChange''"
| "event_name SimState = ''simStateChange''"
| "event_name IccAccountInfo = ''iccAccountInfoChange''"

definition Impl_On where
  "Impl_On K G add ob f created ev slotId funcId hx =
     (let (errCode, hx) = On_cj K G add ob f created (event_name ev) slotId funcId hx
      in (ConvertCJErrCode K errCode, hx))"

definition Impl_Off where
  "Impl_Off K G rem ev funcId hx =
     (let (errCode, hx) = Off_cj K G rem (event_name ev) funcId hx in (ConvertCJErrCode K errCode, hx))"

definition Impl_OffAll where
  "Impl_OffAll K G rem ev hx = Impl_Off K G rem ev (-1) hx"

text \<open>
  The C functions of \<^verbatim>\<open>telephony_observer_ffi.cpp\<close> forward to these methods; the one for account changes
  takes no slot and uses the default of \<^verbatim>\<open>ObserverOptions\<close>.
\<close>

definition Ffi_On where
  "Ffi_On K G add ob f created ev slotId funcId hx =
     Impl_On K G add ob f created ev (if ev = IccAccountInfo then 0 else slotId) funcId hx"

definition Ffi_Off where
  "Ffi_Off K G rem ev funcId hx = Impl_Off K G rem ev funcId hx"

definition Ffi_OffAll where
  "Ffi_OffAll K G rem ev hx = Impl_OffAll K G rem ev hx"

section \<open>Dispatch\<close>

text \<open>
  The C structures handed to a callback, with the \<^verbatim>\<open>char*\<close> members as the string they point to or \<open>None\<close>;
  \<open>C_null\<close> is the null argument.
\<close>

datatype cj_value =
    CNetworkState "string option" "string option" "string option" bool int32 int32 int32 bool bool
  | CArraySignalInformation "(int32 \<times> int32 \<times> int32) list"
  | CCallStateInfo int32 "string option"
  | CDataConnectionStateInfo int32 int32
  | CSimStateData int32 int32 int32
  | C_int32 int32
  | C_null

text \<open>\<^verbatim>\<open>MallocCString\<close> copies a string; an empty one gives the null pointer. \<open>alloc\<close> tells whether memory can be allocated.\<close>

definition MallocCString :: "bool \<Rightarrow> string \<Rightarrow> string option" where
  "MallocCString alloc origin = (if origin = [] then None else if \<not> alloc then None else Some origin)"

definition WrapRegState_cj :: "('sig, 'cell, 'net) payload \<Rightarrow> int32 \<Rightarrow> int32" where
  "WrapRegState_cj L nativeState =
     (if nativeState = REG_SERVICE_STATE L RS_NO_SERVICE \<or> nativeState = REG_SERVICE_STATE L RS_SEARCH
      then REG_STATUS L REG_NO_SERVICE
      else if nativeState = REG_SERVICE_STATE L RS_IN_SERVICE then REG_STATUS L REG_IN_SERVICE
      else if nativeState = REG_SERVICE_STATE L RS_EMERGENCY_ONLY
      then REG_STATUS L REG_EMERGENCY_CALL_ONLY
      else if nativeState = REG_SERVICE_STATE L RS_UNKNOWN then REG_STATUS L REG_POWER_OFF
      else REG_STATUS L REG_POWER_OFF)"

definition WrapCallState_cj :: "int32 \<Rightarrow> int32" where
  "WrapCallState_cj callState =
     (if callState \<in> CallStatus_value ` {CALL_STATUS_ACTIVE, CALL_STATUS_HOLDING, CALL_STATUS_DIALING,
           CALL_STATUS_ALERTING} then CallState_value CALL_STATE_OFFHOOK
      else if callState \<in> CallStatus_value ` {CALL_STATUS_WAITING, CALL_STATUS_INCOMING}
      then CallState_value CALL_STATE_RINGING
      else if callState \<in> CallStatus_value ` {CALL_STATUS_DISCONNECTING, CALL_STATUS_DISCONNECTED, CALL_STATUS_IDLE}
      then CallState_value CALL_STATE_IDLE
      else if callState = CallStatus_value CALL_STATUS_ANSWERED then CallState_value CALL_STATE_ANSWERED
      else CallState_value CALL_STATE_UNKNOWN)"

definition WrapNetworkType_cj :: "('sig, 'cell, 'net) payload \<Rightarrow> int32 \<Rightarrow> int32" where
  "WrapNetworkType_cj L nativeNetworkType =
     (if nativeNetworkType = NATIVE_NETWORK L NN_GSM then NETWORK_TYPE L NT_GSM
      else if nativeNetworkType = NATIVE_NETWORK L NN_CDMA then NETWORK_TYPE L NT_CDMA
      else if nativeNetworkType = NATIVE_NETWORK L NN_LTE then NETWORK_TYPE L NT_LTE
      else if nativeNetworkType = NATIVE_NETWORK L NN_TDSCDMA then NETWORK_TYPE L NT_TDSCDMA
      else if nativeNetworkType = NATIVE_NETWORK L NN_WCDMA then NETWORK_TYPE L NT_WCDMA
      else NETWORK_TYPE L NT_UNKNOWN)"

definition WrapRadioTech_cj :: "('sig, 'cell, 'net) payload \<Rightarrow> int32 \<Rightarrow> int32" where
  "WrapRadioTech_cj L radioTechType =
     (if radioTechType = RADIO_TECH L RT_GSM then RAT_TYPE L RT_GSM
      else if radioTechType = RADIO_TECH L RT_LTE then RAT_TYPE L RT_LTE
      else if radioTechType = RADIO_TECH L RT_WCDMA then RAT_TYPE L RT_WCDMA
      else if radioTechType = RADIO_TECH L RT_1XRTT then RAT_TYPE L RT_1XRTT
      else if radioTechType = RADIO_TECH L RT_HSPA then RAT_TYPE L RT_HSPA
      else if radioTechType = RADIO_TECH L RT_HSPAP then RAT_TYPE L RT_HSPAP
      else if radioTechType = RADIO_TECH L RT_TD_SCDMA then RAT_TYPE L RT_TD_SCDMA
      else if radioTechType = RADIO_TECH L RT_EVDO then RAT_TYPE L RT_EVDO
      else if radioTechType = RADIO_TECH L RT_EHRPD then RAT_TYPE L RT_EHRPD
      else if radioTechType = RADIO_TECH L RT_LTE_CA then RAT_TYPE L RT_LTE_CA
      else if radioTechType = RADIO_TECH L RT_IWLAN then RAT_TYPE L RT_IWLAN
      else if radioTechType = RADIO_TECH L RT_NR then RAT_TYPE L RT_NR
      else if radioTechType = RADIO_TECH L RT_NR_ENHANCED then RAT_TYPE L RT_NR_ENHANCED
      else RAT_TYPE L RT_UNKNOWN)"

text \<open>The methods \<^verbatim>\<open>FfiTelephonyObserver\<close> overrides; the others do nothing.\<close>

fun FfiTelephonyObserver ::
    "('sig, 'cell, 'net) observer_call \<Rightarrow>
     (TelephonyCallbackEventId \<times> ('sig, 'cell, 'net) update_info option) option" where
  "FfiTelephonyObserver (OnCallStateUpdated k st number) =
     Some (EVENT_ON_CALL_STATE_UPDATE, Some (CallStateUpdateInfo k st number))"
| "FfiTelephonyObserver (OnSignalInfoUpdated k vec) =
     Some (EVENT_ON_SIGNAL_INFO_UPDATE, Some (SignalUpdateInfo k vec))"
| "FfiTelephonyObserver (OnNetworkStateUpdated k ns) =
     (if ns = None then None
      else Some (EVENT_ON_NETWORK_STATE_UPDATE, Some (NetworkStateUpdateInfo k ns)))"
| "FfiTelephonyObserver (OnSimStateUpdated k type st reason) =
     Some (EVENT_ON_SIM_STATE_UPDATE, Some (SimStateUpdateInfo k type st reason))"
| "FfiTelephonyObserver (OnCellInfoUpdated k vec) =
     Some (EVENT_ON_CELL_INFOMATION_UPDATE, Some (CellInfomationUpdate k vec))"
| "FfiTelephonyObserver (OnCellularDataConnectStateUpdated k st type) =
     Some (EVENT_ON_CELLULAR_DATA_CONNECTION_UPDATE, Some (CellularDataConnectState k st type))"
| "FfiTelephonyObserver (OnCellularDataFlowUpdated k v) =
     Some (EVENT_ON_CELLULAR_DATA_FLOW_UPDATE, Some (CellularDataFlowUpdate k v))"
| "FfiTelephonyObserver (OnCfuIndicatorUpdated k v) =
     Some (EVENT_ON_CFU_INDICATOR_UPDATE, Some (CfuIndicatorUpdate k v))"
| "FfiTelephonyObserver OnIccAccountUpdated = Some (EVENT_ON_ICC_ACCOUNT_UPDATE, None)"
| "FfiTelephonyObserver (OnVoiceMailMsgIndicatorUpdated k v) =
     Some (EVENT_ON_VOICE_MAIL_MSG_INDICATOR_UPDATE, Some (VoiceMailMsgIndicatorUpdate k v))"
| "FfiTelephonyObserver _ = None"

text \<open>
  The work functions: the value the callback is called with, \<open>None\<close> when it is not called. The data
  of another structure than the one a work function casts to cannot reach it.
\<close>

definition WorkCallStateUpdated_cj ::
    "('sig, 'cell, 'net) payload \<Rightarrow> bool \<Rightarrow> CjListener \<Rightarrow> ('sig, 'cell, 'net) update_info option \<Rightarrow> cj_value option" where
  "WorkCallStateUpdated_cj L alloc l data = (case data of
       Some (CallStateUpdateInfo k st number) \<Rightarrow>
         (if \<not> cj_callbackRef l then None
          else Some (CCallStateInfo (WrapCallState_cj st) (MallocCString alloc (ToUtf8 L number))))
     | _ \<Rightarrow> None)"

definition WorkSignalUpdated_cj ::
    "('sig, 'cell, 'net) payload \<Rightarrow> bool \<Rightarrow> CjListener \<Rightarrow> ('sig, 'cell, 'net) update_info option \<Rightarrow> cj_value option" where
  "WorkSignalUpdated_cj L alloc l data = (case data of
       Some (SignalUpdateInfo k vec) \<Rightarrow>
         (if \<not> cj_callbackRef l then None
          else if length vec \<le> 0 then None
          else if \<not> alloc then None
          else Some (CArraySignalInformation
                 (concat (map (\<lambda>i. case i of None \<Rightarrow> [] | Some infoItem \<Rightarrow>
                    [(WrapNetworkType_cj L (sig_NetworkType L infoItem), sig_SignalLevel L infoItem,
                      sig_SignalIntensity L infoItem)]) vec))))
     | _ \<Rightarrow> None)"

definition WorkNetworkStateUpdated_cj ::
    "('sig, 'cell, 'net) payload \<Rightarrow> bool \<Rightarrow> CjListener \<Rightarrow> ('sig, 'cell, 'net) update_info option \<Rightarrow> cj_value option" where
  "WorkNetworkStateUpdated_cj L alloc l data = (case data of
       Some (NetworkStateUpdateInfo k networkState) \<Rightarrow>
         (if \<not> cj_callbackRef l then None
          else case networkState of None \<Rightarrow> None | Some ns \<Rightarrow>
            Some (CNetworkState (MallocCString alloc (net_LongOperatorName L ns))
                    (MallocCString alloc (net_ShortOperatorName L ns)) (MallocCString alloc (net_PlmnNumeric L ns))
                    (net_IsRoaming L ns) (WrapRegState_cj L (net_RegStatus L ns))
                    (WrapRadioTech_cj L (net_CfgTech L ns)) (net_NrState L ns) False (net_IsEmergency L ns)))
     | _ \<Rightarrow> None)"

definition WorkSimStateUpdated_cj ::
    "CjListener \<Rightarrow> ('sig, 'cell, 'net) update_info option \<Rightarrow> cj_value option" where
  "WorkSimStateUpdated_cj l data = (case data of
       Some (SimStateUpdateInfo k type st reason) \<Rightarrow>
         (if \<not> cj_callbackRef l then None else Some (CSimStateData type st reason))
     | _ \<Rightarrow> None)"

definition WorkCellularDataConnectStateUpdated_cj ::
    "CjListener \<Rightarrow> ('sig, 'cell, 'net) update_info option \<Rightarrow> cj_value option" where
  "WorkCellularDataConnectStateUpdated_cj l data = (case data of
       Some (CellularDataConnectState k st type) \<Rightarrow>
         (if \<not> cj_callbackRef l then None else Some (CDataConnectionStateInfo st type))
     | _ \<Rightarrow> None)"

definition WorkCellularDataFlowUpdated_cj ::
    "CjListener \<Rightarrow> ('sig, 'cell, 'net) update_info option \<Rightarrow> cj_value option" where
  "WorkCellularDataFlowUpdated_cj l data = (case data of
       Some (CellularDataFlowUpdate k v) \<Rightarrow> (if \<not> cj_callbackRef l then None else Some (C_int32 v))
     | _ \<Rightarrow> None)"

text \<open>The work functions for cells, CFU and voice mail look at their argument and call nothing.\<close>

definition WorkCellInfomationUpdated_cj ::
    "CjListener \<Rightarrow> ('sig, 'cell, 'net) update_info option \<Rightarrow> cj_value option" where
  "WorkCellInfomationUpdated_cj l data = None"

definition WorkCfuIndicatorUpdated_cj ::
    "CjListener \<Rightarrow> ('sig, 'cell, 'net) update_info option \<Rightarrow> cj_value option" where
  "WorkCfuIndicatorUpdated_cj l data = None"

definition WorkVoiceMailMsgIndicatorUpdated_cj ::
    "CjListener \<Rightarrow> ('sig, 'cell, 'net) update_info option \<Rightarrow> cj_value option" where
  "WorkVoiceMailMsgIndicatorUpdated_cj l data = None"

definition WorkIccAccountUpdated_cj ::
    "CjListener \<Rightarrow> ('sig, 'cell, 'net) update_info option \<Rightarrow> cj_value option" where
  "WorkIccAccountUpdated_cj l data = (if \<not> cj_callbackRef l then None else Some C_null)"

lemmas work_cj_defs =
  WorkCallStateUpdated_cj_def WorkSignalUpdated_cj_def WorkNetworkStateUpdated_cj_def WorkSimStateUpdated_cj_def
  WorkCellularDataConnectStateUpdated_cj_def WorkCellularDataFlowUpdated_cj_def WorkCellInfomationUpdated_cj_def
  WorkCfuIndicatorUpdated_cj_def WorkVoiceMailMsgIndicatorUpdated_cj_def WorkIccAccountUpdated_cj_def

definition WorkUpdated_cj ::
    "('sig, 'cell, 'net) payload \<Rightarrow> bool \<Rightarrow> (nat \<Rightarrow> bool) \<Rightarrow> CjListener \<Rightarrow>
     ('sig, 'cell, 'net) update_info option \<Rightarrow> cj_value option" where
  "WorkUpdated_cj L alloc fl l data =
     (if (case cj_isDeleting l of None \<Rightarrow> True | Some f \<Rightarrow> fl f) then None
      else case cj_eventType l of
        Some M_CALL_STATE \<Rightarrow> WorkCallStateUpdated_cj L alloc l data
      | Some M_SIGNAL_STRENGTHS \<Rightarrow> WorkSignalUpdated_cj L alloc l data
      | Some M_NETWORK_STATE \<Rightarrow> WorkNetworkStateUpdated_cj L alloc l data
      | Some M_SIM_STATE \<Rightarrow> WorkSimStateUpdated_cj l data
      | Some M_CELL_INFO \<Rightarrow> WorkCellInfomationUpdated_cj l data
      | Some M_DATA_CONNECTION_STATE \<Rightarrow> WorkCellularDataConnectStateUpdated_cj l data
      | Some M_DATA_FLOW \<Rightarrow> WorkCellularDataFlowUpdated_cj l data
      | Some M_CFU_INDICATOR \<Rightarrow> WorkCfuIndicatorUpdated_cj l data
      | Some M_VOICE_MAIL_MSG_INDICATOR \<Rightarrow> WorkVoiceMailMsgIndicatorUpdated_cj l data
      | Some M_ICC_ACCOUNT \<Rightarrow> WorkIccAccountUpdated_cj l data
      | _ \<Rightarrow> None)"

text \<open>
  The loop over the snapshot, which runs without the lock. A callback may use the binding again:
  \<open>cb\<close> is what the callback of a function does to the state \<open>'s\<close>, \<open>flags\<close> reads the shared flags of
  that state. Other threads use the binding at the same time: \<open>oth n\<close> is what they do at the \<open>n\<close>-th point
  of the loop, once before each flag is read and once between the flag and the callback. The log has each callback with the
  state in which its flag was read and the state in which it was called.
\<close>

fun work_loop_cj ::
    "('sig, 'cell, 'net) payload \<Rightarrow> bool \<Rightarrow> ('s \<Rightarrow> nat \<Rightarrow> bool) \<Rightarrow> (int64 \<Rightarrow> cj_value \<Rightarrow> 's \<Rightarrow> 's) \<Rightarrow> (nat \<Rightarrow> 's \<Rightarrow> 's) \<Rightarrow>
     ('sig, 'cell, 'net) update_info option \<Rightarrow> nat \<Rightarrow> CjListener list \<Rightarrow> 's \<Rightarrow>
     's \<times> (CjListener \<times> cj_value \<times> 's \<times> 's) list" where
  "work_loop_cj L alloc flags cb oth data n [] s = (s, [])"
| "work_loop_cj L alloc flags cb oth data n (l # ls) s =
     (let s = oth n s
      in if data \<noteq> None \<and> \<not> alloc then work_loop_cj L alloc flags cb oth data (n + 2) ls s
         else case WorkUpdated_cj L alloc (flags s) l data of
                None \<Rightarrow> work_loop_cj L alloc flags cb oth data (n + 2) ls s
              | Some v \<Rightarrow>
                  let t = oth (n + 1) s;
                      (s', log) = work_loop_cj L alloc flags cb oth data (n + 2) ls (cb (cj_funcId l) v t)
                  in (s', (l, v, s, t) # log))"

text \<open>\<^verbatim>\<open>ProcessEvent\<close>: the event type of an event, and the snapshot of the table.\<close>

fun cj_type :: "TelephonyCallbackEventId \<Rightarrow> event_type" where
  "cj_type EVENT_ON_CALL_STATE_UPDATE = Some M_CALL_STATE"
| "cj_type EVENT_ON_SIM_STATE_UPDATE = Some M_SIM_STATE"
| "cj_type EVENT_ON_CELLULAR_DATA_CONNECTION_UPDATE = Some M_DATA_CONNECTION_STATE"
| "cj_type EVENT_ON_CELLULAR_DATA_FLOW_UPDATE = Some M_DATA_FLOW"
| "cj_type EVENT_ON_CFU_INDICATOR_UPDATE = Some M_CFU_INDICATOR"
| "cj_type EVENT_ON_VOICE_MAIL_MSG_INDICATOR_UPDATE = Some M_VOICE_MAIL_MSG_INDICATOR"
| "cj_type EVENT_ON_ICC_ACCOUNT_UPDATE = Some M_ICC_ACCOUNT"
| "cj_type EVENT_ON_SIGNAL_INFO_UPDATE = Some M_SIGNAL_STRENGTHS"
| "cj_type EVENT_ON_NETWORK_STATE_UPDATE = Some M_NETWORK_STATE"
| "cj_type EVENT_ON_CELL_INFOMATION_UPDATE = Some M_CELL_INFO"
| "cj_type _ = None"

definition snapshot_cj ::
    "TelephonyCallbackEventId \<times> ('sig, 'cell, 'net) update_info option \<Rightarrow> cj_handler \<Rightarrow> CjListener list" where
  "snapshot_cj = (\<lambda>(eventId, obj) h.
     case cj_type eventId of
       None \<Rightarrow> []
     | Some t \<Rightarrow>
         if eventId = EVENT_ON_ICC_ACCOUNT_UPDATE
         then filter (\<lambda>listen. cj_eventType listen = Some t) (cj_listenerList h)
         else case obj of
                None \<Rightarrow> []
              | Some info \<Rightarrow> filter (\<lambda>listen. cj_eventType listen = Some t \<and> cj_slotId listen = info_slotId info)
                               (cj_listenerList h))"

definition ProcessEvent_cj where
  "ProcessEvent_cj L alloc flags cb oth table ev s =
     work_loop_cj L alloc flags cb oth (snd ev) 0 (snapshot_cj ev (table s)) s"

text \<open>A call of the observer: the event it posts, if any, is processed.\<close>

definition Ffi_dispatch where
  "Ffi_dispatch L alloc flags cb oth table c s =
     (case FfiTelephonyObserver c of None \<Rightarrow> (s, []) | Some ev \<Rightarrow> ProcessEvent_cj L alloc flags cb oth table ev s)"

section \<open>The table refines the JavaScript table\<close>

text \<open>
  A Cangjie listener is a JavaScript listener of the null environment whose reference is the
  number of the function, under a Node-API in which a reference is its value.
\<close>

definition strict_napi :: napi where
  "strict_napi = \<lparr>GetReferenceValue = (\<lambda>env ref. ref), StrictEquals = (\<lambda>env a b. a = b),
     EventLoop = (\<lambda>_. (True, Some 0)), QueueWork = (\<lambda>_. 0), OpenScopeOk = True, OpenInnerScopeOk = True,
     DefaultCellularDataSlotId = 0\<rparr>"

definition js_listener :: "CjListener \<Rightarrow> EventListener" where
  "js_listener l = \<lparr>l_env = None, l_eventType = cj_eventType l, l_slotId = cj_slotId l,
     l_callbackRef = Some (int_encode (cj_funcId l)), l_isDeleting = cj_isDeleting l\<rparr>"

definition js_handler :: "cj_handler \<Rightarrow> handler" where
  "js_handler h = \<lparr>listenerList_of = map js_listener (cj_listenerList h), deleting = cj_deleting h\<rparr>"

text \<open>The Cangjie table asks for the current state of calls only.\<close>

definition calls_now where
  "calls_now K add ob k m b = add ob k m (m = event_value K (Some M_CALL_STATE))"

lemma js_listener_sel [simp]:
  "l_env (js_listener l) = None" "l_eventType (js_listener l) = cj_eventType l"
  "l_slotId (js_listener l) = cj_slotId l" "l_callbackRef (js_listener l) = Some (int_encode (cj_funcId l))"
  "l_isDeleting (js_listener l) = cj_isDeleting l"
  by (simp_all add: js_listener_def)

lemma js_handler_sel [simp]:
  "listenerList_of (js_handler h) = map js_listener (cj_listenerList h)" "deleting (js_handler h) = cj_deleting h"
  by (simp_all add: js_handler_def)

lemma strict_callback [simp]: "IsCallBackRegister strict_napi env a b \<longleftrightarrow> a = b"
  by (simp add: IsCallBackRegister_def strict_napi_def)

lemma check_loop_js: "check_loop strict_napi (js_listener e) flag (map js_listener ls) = check_loop_cj e flag ls"
  by (induction ls arbitrary: flag) (auto simp: int_encode_eq)

lemma exists_loop_js: "exists_loop k t (map js_listener ls) = exists_loop_cj k t ls"
  by (induction ls) auto

lemma CheckRemove_js: "CheckRemoveStateObserver K rem (js_handler h) t = CheckRemoveStateObserver_cj K rem h t"
  by (simp add: CheckRemoveStateObserver_def CheckRemoveStateObserver_cj_def CheckEventTypeExist_def
      CheckEventTypeExist_cj_def exists_loop_js fun_eq_iff)

lemma erase_loop_js:
  assumes "\<And>l. sel_js (js_listener l) = sel l"
  shows "erase_loop sel_js (map js_listener ls) (fl, removed, slots) =
    (let (ls', fl', slots') = erase_loop_cj sel ls (fl, slots)
     in (map js_listener ls', fl', removed @ map js_listener (filter sel ls), slots'))"
  by (induction ls arbitrary: fl removed slots) (auto simp: assms Let_def case_prod_beta)

lemma event_value_calls:
  assumes "masks_ok K"
  shows "event_value K t = event_value K (Some M_CALL_STATE) \<longleftrightarrow> t = Some M_CALL_STATE"
proof (cases t)
  case None
  have "OBSERVER_MASK K M_CALL_STATE \<noteq> 0"
    using masks_okD [OF assms, of M_CALL_STATE M_CALL_STATE] by auto
  with None show ?thesis by (simp add: event_value_def)
next
  case (Some m)
  with masks_ok_inj [OF assms, of m M_CALL_STATE] show ?thesis by (simp add: event_value_def)
qed

lemma Register_js:
  assumes "masks_ok K"
  shows "RegisterEventListener K strict_napi (calls_now K add) ob (js_listener e) (js_handler h, x) =
    (let (r, h', x') = RegisterEventListener_cj K add ob e (h, x) in (r, js_handler h', x'))"
  by (simp add: RegisterEventListener_def RegisterEventListener_cj_def CheckEventListenerRegister_def
      CheckEventListenerRegister_cj_def check_loop_js calls_now_def event_value_calls [OF assms]
      case_prod_beta Let_def js_handler_def)

lemma Unregister_js:
  "(if funcId = -1 then js_do K strict_napi add rem (Off None t) (js_handler h, x)
    else js_do K strict_napi add rem (OffRef None t (Some (int_encode funcId))) (js_handler h, x)) =
   (let (r, h', x') = UnregisterEventListener_cj K rem t funcId (h, x) in (r, js_handler h', x'))"
proof -
  let ?sel = "\<lambda>it. t = cj_eventType it \<and> (cj_funcId it = funcId \<or> funcId = -1)"
  have all: "erase_loop (\<lambda>it. None = l_env it \<and> t = l_eventType it) (map js_listener (cj_listenerList h))
      (cj_deleting h, [], []) =
    (let (ls', fl', slots') = erase_loop_cj ?sel (cj_listenerList h) (cj_deleting h, [])
     in (map js_listener ls', fl', map js_listener (filter ?sel (cj_listenerList h)), slots'))"
    if "funcId = -1"
    using that by (subst erase_loop_js [where sel = ?sel]) auto
  have one: "erase_loop (\<lambda>it. None = l_env it \<and> t = l_eventType it \<and>
        IsCallBackRegister strict_napi None (Some (int_encode funcId)) (l_callbackRef it))
      (map js_listener (cj_listenerList h)) (cj_deleting h, [], []) =
    (let (ls', fl', slots') = erase_loop_cj ?sel (cj_listenerList h) (cj_deleting h, [])
     in (map js_listener ls', fl', map js_listener (filter ?sel (cj_listenerList h)), slots'))"
    if "funcId \<noteq> -1"
    using that by (subst erase_loop_js [where sel = ?sel]) (auto simp: int_encode_eq)
  have h': "(js_handler h)\<lparr>listenerList_of := map js_listener ls, deleting := fl\<rparr> =
    js_handler (h\<lparr>cj_listenerList := ls, cj_deleting := fl\<rparr>)" for ls fl
    by (simp add: js_handler_def)
  obtain ls fl slots where e: "erase_loop_cj ?sel (cj_listenerList h) (cj_deleting h, []) = (ls, fl, slots)"
    by (metis prod_cases3)
  show ?thesis
    using all one
    by (simp add: UnregisterEventListener_def UnregisterEventListener_ref_def UnregisterEventListener_cj_def
        RemoveEventListenerRegister_def RemoveEventListenerRegister_ref_def RemoveEventListenerRegister_cj_def
        e h' CheckRemove_js case_prod_beta Let_def del: strict_callback)
qed

section \<open>Calls of a dispatch\<close>

text \<open>
  A callback is called only for a listener that is not being deleted when its flag is read; so a callback
  that removes a later listener of the snapshot prevents its call. What other threads do between the flag and the
  callback comes too late.
\<close>

lemma WorkUpdated_cj_live:
  "WorkUpdated_cj L alloc fl l data = Some v \<Longrightarrow> \<exists>f. cj_isDeleting l = Some f \<and> \<not> fl f"
  by (auto simp: WorkUpdated_cj_def split: option.splits if_splits)

lemma work_loop_live:
  assumes "(l, v, s, t) \<in> set (snd (work_loop_cj L alloc flags cb oth data n ls s0))"
  shows "l \<in> set ls \<and> (\<exists>f. cj_isDeleting l = Some f \<and> \<not> flags s f) \<and> (\<exists>i. t = oth i s)"
  using assms
proof (induction ls arbitrary: s0 n)
  case (Cons x ls)
  let ?s = "oth n s0"
  show ?case
  proof (cases "data \<noteq> None \<and> \<not> alloc \<or> WorkUpdated_cj L alloc (flags ?s) x data = None")
    case True
    then have "work_loop_cj L alloc flags cb oth data n (x # ls) s0 = work_loop_cj L alloc flags cb oth data (n + 2) ls ?s"
      by (auto simp: Let_def)
    with Cons.prems Cons.IH [of "n + 2" ?s] show ?thesis by auto
  next
    case False
    then obtain w where w: "WorkUpdated_cj L alloc (flags ?s) x data = Some w" by auto
    let ?t = "oth (n + 1) ?s"
    from w False Cons.prems have "(l, v, s, t) = (x, w, ?s, ?t) \<or>
        (l, v, s, t) \<in> set (snd (work_loop_cj L alloc flags cb oth data (n + 2) ls (cb (cj_funcId x) w ?t)))"
      by (auto simp: case_prod_beta Let_def)
    then show ?thesis
    proof
      assume "(l, v, s, t) = (x, w, ?s, ?t)"
      with WorkUpdated_cj_live [OF w] show ?thesis by auto
    next
      assume "(l, v, s, t) \<in> set (snd (work_loop_cj L alloc flags cb oth data (n + 2) ls (cb (cj_funcId x) w ?t)))"
      from Cons.IH [OF this] show ?thesis by auto
    qed
  qed
qed simp

text \<open>While nobody changes the flags, exactly the listeners of the snapshot are called, in order.\<close>

lemma work_loop_all:
  assumes "alloc" and "\<And>n v s. flags (cb n v s) = flags s" and "\<And>n s. flags (oth n s) = flags s"
  shows "map (\<lambda>(l, v, s). (l, v)) (snd (work_loop_cj L alloc flags cb oth data n ls s0)) =
    concat (map (\<lambda>l. case WorkUpdated_cj L alloc (flags s0) l data of None \<Rightarrow> [] | Some v \<Rightarrow> [(l, v)]) ls)"
proof (induction ls arbitrary: s0 n)
  case (Cons x ls)
  show ?case
  proof (cases "WorkUpdated_cj L alloc (flags s0) x data")
    case None
    with assms(1,3) Cons [of "n + 2" "oth n s0"] show ?thesis by (simp add: Let_def)
  next
    case (Some w)
    have step: "work_loop_cj L alloc flags cb oth data n (x # ls) s0 =
        (let t = oth (n + 1) (oth n s0); (s', log) = work_loop_cj L alloc flags cb oth data (n + 2) ls (cb (cj_funcId x) w t)
         in (s', (x, w, oth n s0, t) # log))"
      using Some assms(1,3) by (simp add: Let_def)
    show ?thesis
      unfolding step using Some Cons [of "n + 2" "cb (cj_funcId x) w (oth (n + 1) (oth n s0))"]
      by (simp add: case_prod_beta Let_def assms(2,3))
  qed
qed simp

section \<open>Error codes\<close>

text \<open>The use of a system interface by another application is reported as a missing permission.\<close>

lemma ConvertCJErrCode_illegal:
  assumes "inj (ERR K)"
  shows "ConvertCJErrCode K (ERR K TELEPHONY_ERR_ILLEGAL_USE_OF_SYSTEM_API) =
    ConvertCJErrCode K (ERR K TELEPHONY_ERR_PERMISSION_ERR)"
  using assms by (simp add: ConvertCJErrCode_def cj_error_cases_def inj_eq)

lemma event_name_known: "GetEventType_cj (event_name ev) \<noteq> None"
  by (cases ev) (simp_all add: GetEventType_cj_def)

text \<open>
  Removing listeners through the Cangjie interface always reports success, whatever the registry
  answers, because the result of the removal is dropped.
\<close>

lemma Impl_Off_success:
  assumes "codes_ok K"
  shows "fst (Impl_Off K G rem ev funcId (h, x)) = ConvertCJErrCode K (ERR K TELEPHONY_SUCCESS)"
  using event_name_known [of ev] codes_okD' [OF assms]
  by (simp add: Impl_Off_def Off_cj_def case_prod_beta Let_def)

section \<open>Sequences of requests\<close>

text \<open>A sequence of requests, with the list of what they return.\<close>

fun run_all :: "('op \<Rightarrow> 's \<Rightarrow> 'r \<times> 's) \<Rightarrow> 'op list \<Rightarrow> 's \<Rightarrow> 'r list \<times> 's" where
  "run_all f [] s = ([], s)"
| "run_all f (op # ops) s = (let (r, s) = f op s; (rs, s) = run_all f ops s in (r # rs, s))"

text \<open>
  A table that another one implements: each request to it, seen through \<open>abs\<close>, is a request to the
  other one with the same result. Then so is every sequence of requests. \<open>sound\<close> is what the parameters
  have to satisfy.
\<close>

locale table_refinement =
  fixes concrete :: "'c \<Rightarrow> 's \<times> 'x \<Rightarrow> 'r \<times> 's \<times> 'x"
    and abstract :: "'a \<Rightarrow> 't \<times> 'x \<Rightarrow> 'r \<times> 't \<times> 'x"
    and op_abs :: "'c \<Rightarrow> 'a"
    and abs :: "'s \<Rightarrow> 't"
    and sound :: bool
  assumes step: "sound \<Longrightarrow> abstract (op_abs op) (abs h, x) = (let (r, h', x') = concrete op (h, x) in (r, abs h', x'))"
begin

lemma run_refines:
  "sound \<Longrightarrow> run_all abstract (map op_abs ops) (abs h, x) =
     (let (rs, h', x') = run_all concrete ops (h, x) in (rs, abs h', x'))"
  by (induction ops arbitrary: h x) (simp_all add: step case_prod_beta Let_def)

end

text \<open>The requests of a Cangjie application, and the requests of the JavaScript table they are.\<close>

datatype cj_op = CjOn observer CjListener | CjOff event_type int64

fun cj_do ::
    "build \<Rightarrow> (observer option \<Rightarrow> int32 \<Rightarrow> uint32 \<Rightarrow> bool \<Rightarrow> 'x \<Rightarrow> int32 \<times> 'x) \<Rightarrow>
     (int32 \<Rightarrow> uint32 \<Rightarrow> 'x \<Rightarrow> int32 \<times> 'x) \<Rightarrow> cj_op \<Rightarrow> cj_handler \<times> 'x \<Rightarrow> int32 \<times> cj_handler \<times> 'x" where
  "cj_do K add rem (CjOn ob e) hx = RegisterEventListener_cj K add ob e hx"
| "cj_do K add rem (CjOff t funcId) hx = UnregisterEventListener_cj K rem t funcId hx"

fun cj_js_op :: "cj_op \<Rightarrow> js_op" where
  "cj_js_op (CjOn ob e) = On ob (js_listener e)"
| "cj_js_op (CjOff t funcId) =
     (if funcId = -1 then Off None t else OffRef None t (Some (int_encode funcId)))"

lemma cj_do_js:
  assumes "masks_ok K"
  shows "js_do K strict_napi (calls_now K add) rem (cj_js_op op) (js_handler h, x) =
    (let (r, h', x') = cj_do K add rem op (h, x) in (r, js_handler h', x'))"
proof (cases op)
  case (CjOn ob e)
  with Register_js [OF assms] show ?thesis by simp
next
  case (CjOff t funcId)
  with Unregister_js [of funcId K "calls_now K add" rem t h x] show ?thesis
    by (simp add: if_distrib [of "\<lambda>op. js_do K strict_napi (calls_now K add) rem op (js_handler h, x)"]
        del: js_do.simps)
qed

interpretation cj: table_refinement
  "cj_do K add rem" "js_do K strict_napi (calls_now K add) rem" cj_js_op js_handler "masks_ok K"
  for K add rem
  by unfold_locales (rule cj_do_js)

section \<open>From the observer to the callbacks\<close>

text \<open>The value of a call in the Cangjie interface; \<open>None\<close> where the binding calls nothing.\<close>

fun cj_image :: "('sig, 'cell, 'net) payload \<Rightarrow> ('sig, 'cell, 'net) observer_call \<Rightarrow> cj_value option" where
  "cj_image L (OnCallStateUpdated k st number) =
     Some (CCallStateInfo (WrapCallState st) (MallocCString True (ToUtf8 L number)))"
| "cj_image L (OnSignalInfoUpdated k vec) =
     (if vec = [] then None else Some (CArraySignalInformation (map (\<lambda>i. (WrapNetworkType L (sig_NetworkType L i),
        sig_SignalLevel L i, sig_SignalIntensity L i)) (List.map_filter id vec))))"
| "cj_image L (OnNetworkStateUpdated k ns) = map_option (\<lambda>n.
     CNetworkState (MallocCString True (net_LongOperatorName L n)) (MallocCString True (net_ShortOperatorName L n))
       (MallocCString True (net_PlmnNumeric L n)) (net_IsRoaming L n) (WrapRegState L (net_RegStatus L n))
       (WrapRadioTech_cj L (net_CfgTech L n)) (net_NrState L n) False (net_IsEmergency L n)) ns"
| "cj_image L (OnSimStateUpdated k type st reason) = Some (CSimStateData type st reason)"
| "cj_image L (OnCellularDataConnectStateUpdated k st type) = Some (CDataConnectionStateInfo st type)"
| "cj_image L (OnCellularDataFlowUpdated k v) = Some (C_int32 v)"
| "cj_image L OnIccAccountUpdated = Some C_null"
| "cj_image L _ = None"

definition cj_hears :: "('sig, 'cell, 'net) observer_call \<Rightarrow> CjListener \<Rightarrow> bool" where
  "cj_hears c l \<longleftrightarrow> cj_eventType l = Some (kind_of_call c) \<and>
     (case slot_of_call c of None \<Rightarrow> True | Some k \<Rightarrow> cj_slotId l = k)"

definition cj_live :: "(nat \<Rightarrow> bool) \<Rightarrow> CjListener \<Rightarrow> bool" where
  "cj_live fl l \<longleftrightarrow> (\<exists>f. cj_isDeleting l = Some f \<and> \<not> fl f) \<and> cj_callbackRef l"

lemma concat_map_filter: "concat (map (\<lambda>i. case i of None \<Rightarrow> [] | Some x \<Rightarrow> [f x]) vec) = map f (List.map_filter id vec)"
  by (induction vec) (auto simp: List.map_filter_simps split: option.split)

lemma wrap_cj:
  "WrapCallState_cj = WrapCallState" "WrapNetworkType_cj L = WrapNetworkType L" "WrapRegState_cj L = WrapRegState L"
  by (auto simp: fun_eq_iff WrapCallState_cj_def WrapCallState_def WrapNetworkType_cj_def WrapNetworkType_def
      WrapRegState_cj_def WrapRegState_def)

lemma work_image:
  assumes "cj_image L c = Some v" and "FfiTelephonyObserver c = Some ev" and "cj_eventType l = Some (kind_of_call c)"
  shows "WorkUpdated_cj L True fl l (snd ev) = (if cj_live fl l then Some v else None)"
  using assms
  by (cases c) (auto simp: WorkUpdated_cj_def work_cj_defs cj_live_def wrap_cj concat_map_filter split: if_splits option.splits)

lemma snapshot_hears:
  assumes "FfiTelephonyObserver c = Some ev"
  shows "snapshot_cj ev h = filter (cj_hears c) (cj_listenerList h)"
  using assms by (cases c) (auto simp: snapshot_cj_def cj_hears_def split: if_splits intro!: filter_cong)

lemma image_event:
  assumes "cj_image L c = Some v"
  obtains ev where "FfiTelephonyObserver c = Some ev"
  using assms by (cases c) auto

lemma work_no_image:
  assumes "cj_image L c = None" and "FfiTelephonyObserver c = Some ev" and "cj_eventType l = Some (kind_of_call c)"
  shows "WorkUpdated_cj L alloc fl l (snd ev) = None"
  using assms by (cases c) (auto simp: WorkUpdated_cj_def work_cj_defs split: if_splits option.splits)

text \<open>
  A call reaches exactly the live listeners of its kind and slot, once each, with the value of the call; where
  the binding has no value for it, nobody.
\<close>

lemma cj_dispatch:
  assumes "\<And>n v s. flags (cb n v s) = flags s" and "\<And>n s. flags (oth n s) = flags s"
  shows "map (\<lambda>(l, v, s). (l, v)) (snd (Ffi_dispatch L True flags cb oth table c s0)) =
    (case cj_image L c of None \<Rightarrow> [] | Some v \<Rightarrow>
       map (\<lambda>l. (l, v)) (filter (\<lambda>l. cj_hears c l \<and> cj_live (flags s0) l) (cj_listenerList (table s0))))"
proof (cases "FfiTelephonyObserver c")
  case None
  then have "cj_image L c = None" using image_event [of L c] by (cases "cj_image L c") auto
  with None show ?thesis by (simp add: Ffi_dispatch_def)
next
  case (Some ev)
  let ?call = "\<lambda>l. case WorkUpdated_cj L True (flags s0) l (snd ev) of None \<Rightarrow> [] | Some v \<Rightarrow> [(l, v)]"
  have "concat (map ?call (filter (cj_hears c) ls)) = (case cj_image L c of None \<Rightarrow> [] | Some v \<Rightarrow>
      map (\<lambda>l. (l, v)) (filter (\<lambda>l. cj_hears c l \<and> cj_live (flags s0) l) ls))" for ls
    by (induction ls)
      (auto simp: cj_hears_def work_image [OF _ Some] work_no_image [OF _ Some] split: option.split)
  moreover have "map (\<lambda>(l, v, s). (l, v)) (snd (ProcessEvent_cj L True flags cb oth table ev s0)) =
      concat (map ?call (snapshot_cj ev (table s0)))"
    unfolding ProcessEvent_cj_def by (rule work_loop_all) (simp_all add: assms)
  ultimately show ?thesis by (simp add: Ffi_dispatch_def Some snapshot_hears [OF Some])
qed

text \<open>The calls the binding has no value for.\<close>

lemma cj_image_None:
  assumes "readable P c"
  shows "cj_image L c = None \<longleftrightarrow> kind_of_call c \<in> {M_CELL_INFO, M_CFU_INDICATOR, M_VOICE_MAIL_MSG_INDICATOR,
      M_CALL_STATE_EX, M_CCALL_STATE, M_SIM_ACTIVE_STATE, M_VOIP_CALL_STATE} \<or> (\<exists>k. c = OnSignalInfoUpdated k [])"
  using assms by (cases c) auto

end
