(* ===== verification/Listener_Ani.thy ===== *)
theory Listener_Ani
  imports Listener_Cj
begin

text \<open>
  The ArkTS binding (\<^verbatim>\<open>frameworks/ets/ani/observer\<close>): the C++ observer and glue of
  \<^verbatim>\<open>observer_ani.cpp\<close>, the table of listeners and the dispatch of \<^verbatim>\<open>register.rs\<close>, the conversions of
  \<^verbatim>\<open>bridge.rs\<close> and \<^verbatim>\<open>wrapper.rs\<close>, and the entry points of \<^verbatim>\<open>observer.rs\<close>. The table runs the
  callbacks itself, under its mutex, so its listeners carry no deletion flag. The lemmas show that
  the table does what the JavaScript table does to the registry, and which callbacks an observer
  call runs.
\<close>

section \<open>Events and listeners\<close>

text \<open>\<^verbatim>\<open>TelephonyUpdateEventType::to_u32\<close>: the values are written out in the Rust source.\<close>

fun to_u32 :: "event_type \<Rightarrow> uint32" where
  "to_u32 None = 0"
| "to_u32 (Some M_NETWORK_STATE) = 0x1"
| "to_u32 (Some M_CALL_STATE_EX) = 0x2"
| "to_u32 (Some M_CALL_STATE) = 0x4"
| "to_u32 (Some M_CELL_INFO) = 0x8"
| "to_u32 (Some M_SIGNAL_STRENGTHS) = 0x10"
| "to_u32 (Some M_SIM_STATE) = 0x20"
| "to_u32 (Some M_DATA_CONNECTION_STATE) = 0x40"
| "to_u32 (Some M_DATA_FLOW) = 0x80"
| "to_u32 (Some M_CFU_INDICATOR) = 0x100"
| "to_u32 (Some M_VOICE_MAIL_MSG_INDICATOR) = 0x200"
| "to_u32 (Some M_ICC_ACCOUNT) = 0x400"
| "to_u32 (Some M_CCALL_STATE) = 0x800"
| "to_u32 (Some M_SIM_ACTIVE_STATE) = 0x1000"
| "to_u32 (Some M_VOIP_CALL_STATE) = 0"

text \<open>
  The Rust enumeration has no VoIP event; no entry point makes one. The values it writes out are
  meant to be the masks of the broker's interface.
\<close>

definition ani_masks_ok :: "build \<Rightarrow> bool" where
  "ani_masks_ok K \<longleftrightarrow> (\<forall>m. m \<noteq> M_VOIP_CALL_STATE \<longrightarrow> OBSERVER_MASK K m = to_u32 (Some m))"

text \<open>A callback is the number of the function object; the variant says what it expects.\<close>

datatype CallbackFlavor =
    CellularDataFlowChange (callback: nat) | IccAccountInfoChange (callback: nat)
  | SimStateChange (callback: nat) | SignalInfoChange (callback: nat) | CellInfoChange (callback: nat)
  | CellularDataConnectionStateChange (callback: nat) | NetworkStateChange (callback: nat)
  | CallStateChange (callback: nat) | CallStateExChange (callback: nat) | CCallStateChange (callback: nat)
  | SimActiveStateChange (callback: nat)

record AniListener =
  event_type :: event_type
  slot_id :: int32
  callback_ref :: CallbackFlavor

section \<open>The C++ glue\<close>

text \<open>
  \<^verbatim>\<open>JsError\<close> and \<^verbatim>\<open>ArktsError\<close> are a code and a message. The conversions of \<^verbatim>\<open>NapiUtil\<close> and its permission
  code belong to another repository.
\<close>

type_synonym ArktsError = "int32 \<times> string"

record ani_env =
  ConverErrorMessageForJs :: "int32 \<Rightarrow> ArktsError"
  ConverErrorMessageCallStateExForJs :: "int32 \<Rightarrow> ArktsError"
  JS_ERROR_TELEPHONY_PERMISSION_DENIED :: int32
  OBSERVER_JS_PERMISSION_ERROR_STRING :: string

definition ConvertArktsError :: "ani_env \<Rightarrow> int32 \<Rightarrow> ArktsError" where
  "ConvertArktsError A errorCode = ConverErrorMessageForJs A errorCode"

definition ConvertArktsErrorEx :: "build \<Rightarrow> ani_env \<Rightarrow> int32 \<Rightarrow> uint32 \<Rightarrow> ArktsError" where
  "ConvertArktsErrorEx K A errorCode eventType =
     (if eventType = OBSERVER_MASK K M_CALL_STATE_EX \<or> eventType = OBSERVER_MASK K M_CCALL_STATE
      then ConverErrorMessageCallStateExForJs A errorCode
      else ConvertArktsError A errorCode)"

definition IsValidSlotIdEx_ani :: "build \<Rightarrow> int32 \<Rightarrow> uint32 \<Rightarrow> bool" where
  "IsValidSlotIdEx_ani K slotId eventType =
     (let defaultSlotId = (if eventType = OBSERVER_MASK K M_CALL_STATE \<or>
                              eventType = OBSERVER_MASK K M_CALL_STATE_EX \<or>
                              eventType = OBSERVER_MASK K M_CCALL_STATE
                           then -1 else DEFAULT_SIM_SLOT_ID K)
      in slotId \<ge> defaultSlotId \<and> slotId < SIM_SLOT_COUNT K + 1)"

definition EventListenerRegister ::
    "build \<Rightarrow> ani_env \<Rightarrow> (observer option \<Rightarrow> int32 \<Rightarrow> uint32 \<Rightarrow> bool \<Rightarrow> 'x \<Rightarrow> int32 \<times> 'x) \<Rightarrow> observer \<Rightarrow>
     int32 \<Rightarrow> uint32 \<Rightarrow> 'x \<Rightarrow> ArktsError \<times> 'x" where
  "EventListenerRegister K A add ob slotId eventType x =
     (let isUpdate = (eventType = OBSERVER_MASK K M_CALL_STATE \<or> eventType = OBSERVER_MASK K M_CALL_STATE_EX \<or>
                      eventType = OBSERVER_MASK K M_CCALL_STATE);
          (errorCode, x) = add (Some ob) slotId eventType isUpdate x
      in if errorCode = ERR K TELEPHONY_STATE_REGISTRY_PERMISSION_DENIED
         then ((JS_ERROR_TELEPHONY_PERMISSION_DENIED A, OBSERVER_JS_PERMISSION_ERROR_STRING A), x)
         else (ConvertArktsErrorEx K A errorCode eventType, x))"

definition EventListenerUnRegister ::
    "build \<Rightarrow> ani_env \<Rightarrow> (int32 \<Rightarrow> uint32 \<Rightarrow> 'x \<Rightarrow> int32 \<times> 'x) \<Rightarrow> int32 \<Rightarrow> uint32 \<Rightarrow> 'x \<Rightarrow> ArktsError \<times> 'x" where
  "EventListenerUnRegister K A rem slotId eventType x =
     (let (errorCode, x) = rem slotId eventType x
      in if errorCode = ERR K TELEPHONY_STATE_REGISTRY_PERMISSION_DENIED
         then ((JS_ERROR_TELEPHONY_PERMISSION_DENIED A, OBSERVER_JS_PERMISSION_ERROR_STRING A), x)
         else (ConvertArktsError A errorCode, x))"

definition TELEPHONY_SUCCESS_ani :: int32 where
  "TELEPHONY_SUCCESS_ani = 8300000"

definition is_error :: "ArktsError \<Rightarrow> bool" where
  "is_error e \<longleftrightarrow> fst e \<noteq> TELEPHONY_SUCCESS_ani"

text \<open>The conversions tell success from failure, the way the Rust side reads their result.\<close>

definition ani_codes_ok :: "build \<Rightarrow> ani_env \<Rightarrow> bool" where
  "ani_codes_ok K A \<longleftrightarrow> codes_ok K \<and> JS_ERROR_TELEPHONY_PERMISSION_DENIED A \<noteq> 8300000 \<and>
     (\<forall>c. fst (ConverErrorMessageForJs A c) = 8300000 \<longleftrightarrow> c = ERR K TELEPHONY_SUCCESS) \<and>
     (\<forall>c. fst (ConverErrorMessageCallStateExForJs A c) = 8300000 \<longleftrightarrow> c = ERR K TELEPHONY_SUCCESS)"

section \<open>The table\<close>

fun check_loop_ani :: "AniListener \<Rightarrow> listener_flag \<Rightarrow> AniListener list \<Rightarrow> listener_flag" where
  "check_loop_ani listener flag [] = flag"
| "check_loop_ani listener flag (item # ls) =
     (if slot_id item = slot_id listener \<and> event_type item = event_type listener \<and>
         callback_ref item = callback_ref listener
      then EVENT_LISTENER_SAME
      else check_loop_ani listener
             (if slot_id item = slot_id listener \<and> event_type item = event_type listener
              then EVENT_LISTENER_SLOTID_AND_EVENTTYPE_SAME else flag) ls)"

definition check_event_listener_register :: "AniListener list \<Rightarrow> AniListener \<Rightarrow> listener_flag" where
  "check_event_listener_register listener_list listener =
     check_loop_ani listener EVENT_LISTENER_DIFF listener_list"

text \<open>\<^verbatim>\<open>Result<(), BusinessError>\<close>: \<open>Inl\<close> is the error.\<close>

definition register_ani ::
    "build \<Rightarrow> ani_env \<Rightarrow> (observer option \<Rightarrow> int32 \<Rightarrow> uint32 \<Rightarrow> bool \<Rightarrow> 'x \<Rightarrow> int32 \<times> 'x) \<Rightarrow> observer \<Rightarrow>
     AniListener \<Rightarrow> AniListener list \<times> 'x \<Rightarrow> (ArktsError + unit) \<times> AniListener list \<times> 'x" where
  "register_ani K A add ob listener = (\<lambda>(inner, x).
     if \<not> IsValidSlotIdEx_ani K (slot_id listener) (to_u32 (event_type listener))
     then (Inl (8300001, ''Invalid parameter value.''), inner, x)
     else let register_status = check_event_listener_register inner listener
          in if register_status = EVENT_LISTENER_SAME then (Inr (), inner, x)
             else if register_status \<noteq> EVENT_LISTENER_SLOTID_AND_EVENTTYPE_SAME
             then let (arkts_error, x) =
                        EventListenerRegister K A add ob (slot_id listener) (to_u32 (event_type listener)) x
                  in if is_error arkts_error then (Inl arkts_error, inner, x)
                     else (Inr (), inner @ [listener], x)
             else (Inr (), inner @ [listener], x))"

fun check_event_type_exist :: "AniListener list \<Rightarrow> int32 \<Rightarrow> event_type \<Rightarrow> bool" where
  "check_event_type_exist [] k t = False"
| "check_event_type_exist (item # ls) k t =
     (if slot_id item = k \<and> event_type item = t then True else check_event_type_exist ls k t)"

text \<open>\<^verbatim>\<open>Vec::retain\<close> with the closure that collects the slots in a \<^verbatim>\<open>BTreeSet\<close>.\<close>

fun retain_loop ::
    "(AniListener \<Rightarrow> bool) \<Rightarrow> AniListener list \<Rightarrow> int32 list \<Rightarrow> AniListener list \<times> int32 list" where
  "retain_loop sel [] slots = ([], slots)"
| "retain_loop sel (item # ls) slots =
     (if sel item then retain_loop sel ls (set_insert (slot_id item) slots)
      else let (ls', slots') = retain_loop sel ls slots in (item # ls', slots'))"

text \<open>The loop over the slots; it returns at the first error.\<close>

fun remove_loop ::
    "build \<Rightarrow> ani_env \<Rightarrow> (int32 \<Rightarrow> uint32 \<Rightarrow> 'x \<Rightarrow> int32 \<times> 'x) \<Rightarrow> AniListener list \<Rightarrow> event_type \<Rightarrow>
     int32 list \<Rightarrow> 'x \<Rightarrow> (ArktsError + unit) \<times> 'x" where
  "remove_loop K A rem inner t [] x = (Inr (), x)"
| "remove_loop K A rem inner t (k # ks) x =
     (if \<not> check_event_type_exist inner k t
      then let (arkts_error, x) = EventListenerUnRegister K A rem k (to_u32 t) x
           in if is_error arkts_error then (Inl arkts_error, x) else remove_loop K A rem inner t ks x
      else remove_loop K A rem inner t ks x)"

definition unregister_ani ::
    "build \<Rightarrow> ani_env \<Rightarrow> (int32 \<Rightarrow> uint32 \<Rightarrow> 'x \<Rightarrow> int32 \<times> 'x) \<Rightarrow> event_type \<Rightarrow> CallbackFlavor option \<Rightarrow>
     AniListener list \<times> 'x \<Rightarrow> (ArktsError + unit) \<times> AniListener list \<times> 'x" where
  "unregister_ani K A rem t callback_opt = (\<lambda>(inner, x).
     if inner = [] then (Inr (), inner, x)
     else let (inner, slots) =
                (case callback_opt of
                   Some cb \<Rightarrow> retain_loop (\<lambda>l. event_type l = t \<and> callback_ref l = cb) inner []
                 | None \<Rightarrow> retain_loop (\<lambda>l. event_type l = t) inner []);
              (res, x) = remove_loop K A rem inner t slots x
          in (res, inner, x))"

section \<open>Entry points\<close>

text \<open>
  The functions of \<^verbatim>\<open>observer.rs\<close> come in families that differ in the event: \<^verbatim>\<open>on_*\<close> with the default
  slot, \<^verbatim>\<open>on_*_option\<close> with the slot of the options (\<^verbatim>\<open>on_get_sim_active_state\<close> takes its slot directly),
  and \<^verbatim>\<open>off_*\<close> with a callback or \<^verbatim>\<open>undefined\<close>.
\<close>

datatype ani_event =
    AE_CellularDataFlow | AE_IccAccountInfo | AE_SimState | AE_SignalInfo | AE_CellInfo
  | AE_CellularDataConnectionState | AE_NetworkState | AE_CallState | AE_CallStateEx | AE_CCallState
  | AE_SimActiveState

fun ani_type :: "ani_event \<Rightarrow> event_type" where
  "ani_type AE_CellularDataFlow = Some M_DATA_FLOW"
| "ani_type AE_IccAccountInfo = Some M_ICC_ACCOUNT"
| "ani_type AE_SimState = Some M_SIM_STATE"
| "ani_type AE_SignalInfo = Some M_SIGNAL_STRENGTHS"
| "ani_type AE_CellInfo = Some M_CELL_INFO"
| "ani_type AE_CellularDataConnectionState = Some M_DATA_CONNECTION_STATE"
| "ani_type AE_NetworkState = Some M_NETWORK_STATE"
| "ani_type AE_CallState = Some M_CALL_STATE"
| "ani_type AE_CallStateEx = Some M_CALL_STATE_EX"
| "ani_type AE_CCallState = Some M_CCALL_STATE"
| "ani_type AE_SimActiveState = Some M_SIM_ACTIVE_STATE"

fun ani_flavor :: "ani_event \<Rightarrow> nat \<Rightarrow> CallbackFlavor" where
  "ani_flavor AE_CellularDataFlow = CellularDataFlowChange"
| "ani_flavor AE_IccAccountInfo = IccAccountInfoChange"
| "ani_flavor AE_SimState = SimStateChange"
| "ani_flavor AE_SignalInfo = SignalInfoChange"
| "ani_flavor AE_CellInfo = CellInfoChange"
| "ani_flavor AE_CellularDataConnectionState = CellularDataConnectionStateChange"
| "ani_flavor AE_NetworkState = NetworkStateChange"
| "ani_flavor AE_CallState = CallStateChange"
| "ani_flavor AE_CallStateEx = CallStateExChange"
| "ani_flavor AE_CCallState = CCallStateChange"
| "ani_flavor AE_SimActiveState = SimActiveStateChange"

fun ani_default_slot :: "ani_event \<Rightarrow> int32" where
  "ani_default_slot AE_CallStateEx = -1"
| "ani_default_slot AE_CCallState = -1"
| "ani_default_slot _ = 0"

definition on_change where
  "on_change K A add ob ev slot_opt cb =
     register_ani K A add ob
       \<lparr>event_type = ani_type ev, slot_id = (case slot_opt of None \<Rightarrow> ani_default_slot ev | Some k \<Rightarrow> k),
        callback_ref = ani_flavor ev cb\<rparr>"

definition off_change where
  "off_change K A rem ev callback_opt =
     unregister_ani K A rem (ani_type ev) (map_option (ani_flavor ev) callback_opt)"

section \<open>Dispatch\<close>

text \<open>
  The enumerations of \<^verbatim>\<open>bridge.rs\<close> are \<^verbatim>\<open>repr(i32)\<close>: a value is its discriminant, and \<^verbatim>\<open>From<i32>\<close> maps a
  number that is none to a default.
\<close>

definition DataFlowType_from :: "int32 \<Rightarrow> int32" where
  "DataFlowType_from v = (if v \<in> set [0, 1, 2, 3, 4] then v else 0)"

definition SimState_from :: "int32 \<Rightarrow> int32" where
  "SimState_from v = (if v \<in> set [0, 1, 2, 3, 4, 5] then v else 0)"

definition LockReason_from :: "int32 \<Rightarrow> int32" where
  "LockReason_from v = (if v \<in> set [0, 1, 2, 3, 4, 5, 6, 7, 8, 9, 10, 11, 12] then v else 0)"

definition CardType_from :: "int32 \<Rightarrow> int32" where
  "CardType_from v = (if v \<in> set [-1, 10, 20, 30, 40, 41, 42, 43, 50, 60] then v else -1)"

definition NetworkType_from :: "int32 \<Rightarrow> int32" where
  "NetworkType_from v = (if v \<in> set [0, 1, 2, 3, 4, 5, 6] then v else 0)"

definition DataConnectState_from :: "int32 \<Rightarrow> int32" where
  "DataConnectState_from v = (if v \<in> set [0, 1, 2, 3] then v else -1)"

definition RadioTechnology_from :: "int32 \<Rightarrow> int32" where
  "RadioTechnology_from v = (if v \<in> set [0, 1, 2, 3, 4, 5, 6, 7, 8, 9, 10, 11, 12] then v else 0)"

definition RegState_from :: "int32 \<Rightarrow> int32" where
  "RegState_from v = (if v \<in> set [0, 1, 2, 3] then v else 0)"

definition NsaState_from :: "int32 \<Rightarrow> int32" where
  "NsaState_from v = (if v \<in> set [1, 2, 3, 4, 5, 6] then v else 1)"

definition CallState_from :: "int32 \<Rightarrow> int32" where
  "CallState_from v = (if v \<in> set [-1, 0, 1, 2, 3] then v else -1)"

definition TelCallState_from :: "int32 \<Rightarrow> int32" where
  "TelCallState_from v = (if v \<in> set [0, 1, 2, 3, 4] then v else -1)"

text \<open>The arguments of the callbacks, with the structures of \<^verbatim>\<open>bridge.rs\<close> written as tuples.\<close>

datatype ani_value =
    A_DataFlowType int32
  | A_Unit
  | A_SimStateData int32 int32 int32
  | A_SignalInformation "(int32 \<times> int32 \<times> int32) list"
  | A_CellInformation "(int32 \<times> int32 \<times> int32 \<times> int32) list"
  | A_DataConnectionStateInfo int32 int32
  | A_NetworkState string string string bool int32 int32 int32 bool
  | A_CallStateInfo int32 string
  | A_TelCallState int32
  | A_CCallStateInfo int32 string
  | A_Bool bool

text \<open>
  The loop of the \<^verbatim>\<open>execute_on_*\<close> functions: \<open>keep\<close> is the test on type and slot, \<open>pick\<close> the pattern of
  \<^verbatim>\<open>if let\<close>. The result is the callbacks run, in order, with their argument.
\<close>

fun execute_loop ::
    "(AniListener \<Rightarrow> bool) \<Rightarrow> (CallbackFlavor \<Rightarrow> nat option) \<Rightarrow> ani_value \<Rightarrow> AniListener list \<Rightarrow>
     (nat \<times> ani_value) list" where
  "execute_loop keep pick argv [] = []"
| "execute_loop keep pick argv (item # ls) =
     (if \<not> keep item then execute_loop keep pick argv ls
      else case pick (callback_ref item) of
             Some func \<Rightarrow> (func, argv) # execute_loop keep pick argv ls
           | None \<Rightarrow> execute_loop keep pick argv ls)"

definition for_slot :: "observer_mask \<Rightarrow> int32 \<Rightarrow> AniListener \<Rightarrow> bool" where
  "for_slot m k item \<longleftrightarrow> \<not> (event_type item \<noteq> Some m \<or> slot_id item \<noteq> k)"

definition execute_on_cellular_data_flow_change :: "int32 \<Rightarrow> int32 \<Rightarrow> AniListener list \<Rightarrow> (nat \<times> ani_value) list" where
  "execute_on_cellular_data_flow_change k param inner =
     execute_loop (for_slot M_DATA_FLOW k) (\<lambda>f. case f of CellularDataFlowChange func \<Rightarrow> Some func | _ \<Rightarrow> None)
       (A_DataFlowType (DataFlowType_from param)) inner"

definition execute_on_icc_account_info_change :: "AniListener list \<Rightarrow> (nat \<times> ani_value) list" where
  "execute_on_icc_account_info_change inner =
     execute_loop (\<lambda>item. \<not> event_type item \<noteq> Some M_ICC_ACCOUNT)
       (\<lambda>f. case f of IccAccountInfoChange func \<Rightarrow> Some func | _ \<Rightarrow> None) A_Unit inner"

definition execute_on_sim_state_change ::
    "int32 \<Rightarrow> int32 \<Rightarrow> int32 \<Rightarrow> int32 \<Rightarrow> AniListener list \<Rightarrow> (nat \<times> ani_value) list" where
  "execute_on_sim_state_change k card_type state reason inner =
     execute_loop (for_slot M_SIM_STATE k) (\<lambda>f. case f of SimStateChange func \<Rightarrow> Some func | _ \<Rightarrow> None)
       (A_SimStateData (CardType_from card_type) (SimState_from state) (LockReason_from reason)) inner"

definition execute_on_signal_info_change ::
    "int32 \<Rightarrow> (int32 \<times> int32 \<times> int32) list \<Rightarrow> AniListener list \<Rightarrow> (nat \<times> ani_value) list" where
  "execute_on_signal_info_change k signal_info_list inner =
     execute_loop (for_slot M_SIGNAL_STRENGTHS k) (\<lambda>f. case f of SignalInfoChange func \<Rightarrow> Some func | _ \<Rightarrow> None)
       (A_SignalInformation (map (\<lambda>(t, level, dbm). (NetworkType_from t, level, dbm)) signal_info_list)) inner"

definition execute_on_cell_info_change ::
    "int32 \<Rightarrow> (int32 \<times> int32 \<times> int32 \<times> int32) list \<Rightarrow> AniListener list \<Rightarrow> (nat \<times> ani_value) list" where
  "execute_on_cell_info_change k cell_info_list inner =
     execute_loop (for_slot M_CELL_INFO k) (\<lambda>f. case f of CellInfoChange func \<Rightarrow> Some func | _ \<Rightarrow> None)
       (A_CellInformation (map (\<lambda>(n, t, level, dbm). (NetworkType_from n, NetworkType_from t, level, dbm))
          cell_info_list)) inner"

definition execute_on_cellular_data_connection_state_change ::
    "int32 \<Rightarrow> int32 \<Rightarrow> int32 \<Rightarrow> AniListener list \<Rightarrow> (nat \<times> ani_value) list" where
  "execute_on_cellular_data_connection_state_change k data_state network_type inner =
     execute_loop (for_slot M_DATA_CONNECTION_STATE k)
       (\<lambda>f. case f of CellularDataConnectionStateChange func \<Rightarrow> Some func | _ \<Rightarrow> None)
       (A_DataConnectionStateInfo (DataConnectState_from data_state) (RadioTechnology_from network_type)) inner"

text \<open>\<^verbatim>\<open>NetworkStateAni\<close>, as the C++ side fills it.\<close>

record NetworkStateAni =
  long_operator_name :: string
  short_operator_name :: string
  plmn_numeric :: string
  is_roaming :: bool
  reg_state :: int32
  cfg_tech :: int32
  nsa_state :: int32
  is_emergency :: bool

definition execute_on_network_state_change ::
    "int32 \<Rightarrow> NetworkStateAni \<Rightarrow> AniListener list \<Rightarrow> (nat \<times> ani_value) list" where
  "execute_on_network_state_change k n inner =
     execute_loop (for_slot M_NETWORK_STATE k) (\<lambda>f. case f of NetworkStateChange func \<Rightarrow> Some func | _ \<Rightarrow> None)
       (A_NetworkState (long_operator_name n) (short_operator_name n) (plmn_numeric n) (is_roaming n)
          (RegState_from (reg_state n)) (RadioTechnology_from (cfg_tech n)) (NsaState_from (nsa_state n))
          (is_emergency n)) inner"

definition execute_on_call_state_change ::
    "int32 \<Rightarrow> int32 \<times> string \<Rightarrow> AniListener list \<Rightarrow> (nat \<times> ani_value) list" where
  "execute_on_call_state_change k call_state inner =
     execute_loop (for_slot M_CALL_STATE k) (\<lambda>f. case f of CallStateChange func \<Rightarrow> Some func | _ \<Rightarrow> None)
       (A_CallStateInfo (CallState_from (fst call_state)) (snd call_state)) inner"

definition execute_on_call_state_ex_change :: "int32 \<Rightarrow> int32 \<Rightarrow> AniListener list \<Rightarrow> (nat \<times> ani_value) list" where
  "execute_on_call_state_ex_change k call_state_ex inner =
     execute_loop (for_slot M_CALL_STATE_EX k) (\<lambda>f. case f of CallStateExChange func \<Rightarrow> Some func | _ \<Rightarrow> None)
       (A_TelCallState (TelCallState_from call_state_ex)) inner"

definition execute_on_ccall_state_change ::
    "int32 \<Rightarrow> int32 \<times> string \<Rightarrow> AniListener list \<Rightarrow> (nat \<times> ani_value) list" where
  "execute_on_ccall_state_change k call_state inner =
     execute_loop (for_slot M_CCALL_STATE k) (\<lambda>f. case f of CCallStateChange func \<Rightarrow> Some func | _ \<Rightarrow> None)
       (A_CCallStateInfo (fst call_state) (snd call_state)) inner"

definition execute_on_sim_active_state_change :: "int32 \<Rightarrow> bool \<Rightarrow> AniListener list \<Rightarrow> (nat \<times> ani_value) list" where
  "execute_on_sim_active_state_change k is_active inner =
     execute_loop (for_slot M_SIM_ACTIVE_STATE k) (\<lambda>f. case f of SimActiveStateChange func \<Rightarrow> Some func | _ \<Rightarrow> None)
       (A_Bool is_active) inner"

text \<open>
  The methods of \<^verbatim>\<open>AniTelephonyObserver\<close>; \<open>None\<close> is the dereference of a null pointer. The methods it does
  not override do nothing.
\<close>

fun signal_ani :: "('sig, 'cell, 'net) payload \<Rightarrow> 'sig \<Rightarrow> int32 \<times> int32 \<times> int32" where
  "signal_ani L i = (sig_NetworkType L i, sig_SignalLevel L i, sig_SignalIntensity L i)"

fun cell_ani :: "('sig, 'cell, 'net) payload \<Rightarrow> 'cell \<Rightarrow> int32 \<times> int32 \<times> int32 \<times> int32" where
  "cell_ani L i = (cell_NetworkType L i, cell_NetworkType L i, cell_SignalLevel L i, cell_SignalIntensity L i)"

fun network_ani :: "('sig, 'cell, 'net) payload \<Rightarrow> 'net \<Rightarrow> NetworkStateAni" where
  "network_ani L ns = \<lparr>long_operator_name = net_LongOperatorName L ns,
     short_operator_name = net_ShortOperatorName L ns, plmn_numeric = net_PlmnNumeric L ns,
     is_roaming = net_IsRoaming L ns, reg_state = net_RegStatus L ns, cfg_tech = net_CfgTech L ns,
     nsa_state = net_NrState L ns, is_emergency = net_IsEmergency L ns\<rparr>"

fun AniTelephonyObserver ::
    "('sig, 'cell, 'net) payload \<Rightarrow> ('sig, 'cell, 'net) observer_call \<Rightarrow> AniListener list \<Rightarrow>
     (nat \<times> ani_value) list option" where
  "AniTelephonyObserver L (OnSignalInfoUpdated k vec) inner =
     map_option (\<lambda>list. execute_on_signal_info_change k list inner) (all_some (signal_ani L) vec)"
| "AniTelephonyObserver L (OnNetworkStateUpdated k ns) inner =
     map_option (\<lambda>n. execute_on_network_state_change k (network_ani L n) inner) ns"
| "AniTelephonyObserver L (OnCallStateUpdated k st number) inner =
     Some (execute_on_call_state_change k (st, ToUtf8 L number) inner)"
| "AniTelephonyObserver L (OnCallStateUpdatedEx k st) inner =
     Some (execute_on_call_state_ex_change k st inner)"
| "AniTelephonyObserver L (OnCCallStateUpdated k st number) inner =
     Some (execute_on_ccall_state_change k (st, ToUtf8 L number) inner)"
| "AniTelephonyObserver L (OnSimStateUpdated k type st reason) inner =
     Some (execute_on_sim_state_change k type st reason inner)"
| "AniTelephonyObserver L (OnCellInfoUpdated k vec) inner =
     map_option (\<lambda>list. execute_on_cell_info_change k list inner) (all_some (cell_ani L) vec)"
| "AniTelephonyObserver L (OnCellularDataConnectStateUpdated k st type) inner =
     Some (execute_on_cellular_data_connection_state_change k st type inner)"
| "AniTelephonyObserver L (OnCellularDataFlowUpdated k v) inner =
     Some (execute_on_cellular_data_flow_change k v inner)"
| "AniTelephonyObserver L OnIccAccountUpdated inner = Some (execute_on_icc_account_info_change inner)"
| "AniTelephonyObserver L (OnSimActiveStateUpdated k v) inner =
     Some (execute_on_sim_active_state_change k v inner)"
| "AniTelephonyObserver L (OnCfuIndicatorUpdated k v) inner = Some []"
| "AniTelephonyObserver L (OnVoiceMailMsgIndicatorUpdated k v) inner = Some []"
| "AniTelephonyObserver L (OnVoIPStateUpdated info) inner = Some []"

section \<open>Requests and what they do to the table\<close>

datatype ani_op = AniOn ani_event "int32 option" nat observer | AniOff ani_event "nat option"

fun ani_do where
  "ani_do K A add rem (AniOn ev slot_opt cb ob) ix = on_change K A add ob ev slot_opt cb ix"
| "ani_do K A add rem (AniOff ev cb_opt) ix = off_change K A rem ev cb_opt ix"

definition ani_run where
  "ani_run K A add rem ops ix = fold (\<lambda>op ix. snd (ani_do K A add rem op ix)) ops ix"

text \<open>The invariant of the table: the variant of a callback fits the event it is registered for.\<close>

definition flavor_ok :: "AniListener \<Rightarrow> bool" where
  "flavor_ok l \<longleftrightarrow> (\<exists>ev n. event_type l = ani_type ev \<and> callback_ref l = ani_flavor ev n)"

lemma retain_loop_eq:
  "fst (retain_loop sel ls slots) = filter (\<lambda>l. \<not> sel l) ls"
  "set (snd (retain_loop sel ls slots)) = set slots \<union> slot_id ` set (filter sel ls)"
  by (induction ls arbitrary: slots) (auto simp: case_prod_beta)

lemma register_ani_list:
  "fst (snd (register_ani K A add ob l (inner, x))) = inner \<or>
   fst (snd (register_ani K A add ob l (inner, x))) = inner @ [l]"
  by (simp add: register_ani_def case_prod_beta Let_def)

lemma unregister_ani_list:
  "fst (snd (unregister_ani K A rem t cb (inner, x))) =
     filter (\<lambda>l. \<not> (event_type l = t \<and> (cb = None \<or> cb = Some (callback_ref l)))) inner"
  by (auto simp: unregister_ani_def case_prod_beta Let_def retain_loop_eq split: option.split intro!: filter_cong)

lemma flavors_ok_do:
  assumes "\<forall>l \<in> set inner. flavor_ok l"
  shows "\<forall>l \<in> set (fst (snd (ani_do K A add rem op (inner, x)))). flavor_ok l"
proof (cases op)
  case (AniOn ev k cb ob)
  let ?l = "\<lparr>event_type = ani_type ev, slot_id = (case k of None \<Rightarrow> ani_default_slot ev | Some k \<Rightarrow> k),
      callback_ref = ani_flavor ev cb\<rparr>"
  have "flavor_ok ?l" by (auto simp: flavor_ok_def)
  then show ?thesis
    using register_ani_list [of K A add ob ?l inner x] assms AniOn by (auto simp: on_change_def)
next
  case (AniOff ev cb)
  then show ?thesis using assms by (simp add: off_change_def unregister_ani_list)
qed

lemma flavors_ok_run:
  assumes "\<forall>l \<in> set (fst ix). flavor_ok l"
  shows "\<forall>l \<in> set (fst (ani_run K A add rem ops ix)). flavor_ok l"
  using assms
proof (induction ops arbitrary: ix)
  case (Cons op ops)
  have "\<forall>l \<in> set (fst (snd (ani_do K A add rem op ix))). flavor_ok l"
    using flavors_ok_do [of "fst ix"] Cons.prems by (metis prod.collapse)
  then show ?case using Cons.IH by (simp add: ani_run_def)
qed (simp add: ani_run_def)

section \<open>Which callbacks an observer call runs\<close>

text \<open>The listeners that hear a call, and the argument their callbacks get; \<open>None\<close> where a null pointer is read.\<close>

definition ani_hears :: "('sig, 'cell, 'net) observer_call \<Rightarrow> AniListener \<Rightarrow> bool" where
  "ani_hears c l \<longleftrightarrow> event_type l = Some (kind_of_call c) \<and>
     (case slot_of_call c of None \<Rightarrow> True | Some k \<Rightarrow> slot_id l = k)"

fun ani_image :: "('sig, 'cell, 'net) payload \<Rightarrow> ('sig, 'cell, 'net) observer_call \<Rightarrow> ani_value option" where
  "ani_image L (OnSignalInfoUpdated k vec) =
     map_option A_SignalInformation (all_some (\<lambda>i. (NetworkType_from (sig_NetworkType L i), sig_SignalLevel L i,
       sig_SignalIntensity L i)) vec)"
| "ani_image L (OnCellInfoUpdated k vec) =
     map_option A_CellInformation (all_some (\<lambda>i. (NetworkType_from (cell_NetworkType L i),
       NetworkType_from (cell_NetworkType L i), cell_SignalLevel L i, cell_SignalIntensity L i)) vec)"
| "ani_image L (OnNetworkStateUpdated k ns) =
     map_option (\<lambda>n. A_NetworkState (net_LongOperatorName L n) (net_ShortOperatorName L n) (net_PlmnNumeric L n)
       (net_IsRoaming L n) (RegState_from (net_RegStatus L n)) (RadioTechnology_from (net_CfgTech L n))
       (NsaState_from (net_NrState L n)) (net_IsEmergency L n)) ns"
| "ani_image L (OnCallStateUpdated k st number) = Some (A_CallStateInfo (CallState_from st) (ToUtf8 L number))"
| "ani_image L (OnCallStateUpdatedEx k st) = Some (A_TelCallState (TelCallState_from st))"
| "ani_image L (OnCCallStateUpdated k st number) = Some (A_CCallStateInfo st (ToUtf8 L number))"
| "ani_image L (OnSimStateUpdated k type st reason) =
     Some (A_SimStateData (CardType_from type) (SimState_from st) (LockReason_from reason))"
| "ani_image L (OnCellularDataConnectStateUpdated k st type) =
     Some (A_DataConnectionStateInfo (DataConnectState_from st) (RadioTechnology_from type))"
| "ani_image L (OnCellularDataFlowUpdated k v) = Some (A_DataFlowType (DataFlowType_from v))"
| "ani_image L OnIccAccountUpdated = Some A_Unit"
| "ani_image L (OnSimActiveStateUpdated k v) = Some (A_Bool v)"
| "ani_image L _ = Some A_Unit"

lemma execute_loop_eq:
  assumes "\<And>l. l \<in> set ls \<Longrightarrow> keep l \<Longrightarrow> pick (callback_ref l) = Some (callback (callback_ref l))"
  shows "execute_loop keep pick argv ls = map (\<lambda>l. (callback (callback_ref l), argv)) (filter keep ls)"
  using assms by (induction ls) auto

lemma flavor_of_type:
  assumes "flavor_ok l" and "event_type l = ani_type ev"
  shows "callback_ref l = ani_flavor ev (callback (callback_ref l))"
proof -
  obtain ev' n where *: "event_type l = ani_type ev'" "callback_ref l = ani_flavor ev' n"
    using assms(1) by (auto simp: flavor_ok_def)
  with assms(2) have "ev' = ev" by (cases ev; cases ev') simp_all
  with * show ?thesis by (cases ev) simp_all
qed

lemma map_option_all_some: "map_option f (all_some g vec) = (if None \<in> set vec then None else Some (f (map (g \<circ> the) vec)))"
  by (simp add: all_some_def)

lemma execute_hears:
  assumes "\<forall>l \<in> set inner. flavor_ok l" and "ani_type ev = Some (kind_of_call c)"
    and "\<And>l. keep l = ani_hears c l" and "\<And>n. pick (ani_flavor ev n) = Some n"
  shows "execute_loop keep pick argv inner =
    map (\<lambda>l. (callback (callback_ref l), argv)) (filter (ani_hears c) inner)"
proof -
  have "pick (callback_ref l) = Some (callback (callback_ref l))" if "l \<in> set inner" "keep l" for l
    using flavor_of_type [of l ev] assms that by (metis ani_hears_def)
  moreover have "keep = ani_hears c" using assms(3) by blast
  ultimately show ?thesis using execute_loop_eq [of inner keep pick argv] by simp
qed

lemmas execute_defs =
  execute_on_signal_info_change_def execute_on_cell_info_change_def execute_on_network_state_change_def
  execute_on_call_state_change_def execute_on_call_state_ex_change_def execute_on_ccall_state_change_def
  execute_on_sim_state_change_def execute_on_cellular_data_connection_state_change_def
  execute_on_cellular_data_flow_change_def execute_on_icc_account_info_change_def
  execute_on_sim_active_state_change_def

lemma AniTelephonyObserver_eq:
  assumes "\<forall>l \<in> set inner. flavor_ok l"
  shows "AniTelephonyObserver L c inner =
    map_option (\<lambda>v. map (\<lambda>l. (callback (callback_ref l), v)) (filter (ani_hears c) inner)) (ani_image L c)"
proof -
  note ex = execute_hears [OF assms, where c = c]
  note smp = execute_defs ani_hears_def for_slot_def map_option_all_some comp_def
  have none: "filter (ani_hears c) inner = []" if "Some (kind_of_call c) \<notin> range ani_type"
    using that assms by (auto simp: filter_empty_conv ani_hears_def flavor_ok_def) (metis rangeI)
  show ?thesis
  proof (cases c)
    case (OnCfuIndicatorUpdated k v)
    have "Some M_CFU_INDICATOR \<noteq> ani_type ev" for ev by (cases ev) simp_all
    with none OnCfuIndicatorUpdated show ?thesis by auto
  next
    case (OnVoiceMailMsgIndicatorUpdated k v)
    have "Some M_VOICE_MAIL_MSG_INDICATOR \<noteq> ani_type ev" for ev by (cases ev) simp_all
    with none OnVoiceMailMsgIndicatorUpdated show ?thesis by auto
  next
    case (OnVoIPStateUpdated i)
    have "Some M_VOIP_CALL_STATE \<noteq> ani_type ev" for ev by (cases ev) simp_all
    with none OnVoIPStateUpdated show ?thesis by auto
  next
    case OnIccAccountUpdated
    then show ?thesis by (simp add: smp ex [where ev = AE_IccAccountInfo])
  next
    case (OnSimStateUpdated k t st r)
    then show ?thesis by (simp add: smp ex [where ev = AE_SimState])
  next
    case (OnSignalInfoUpdated k vec)
    then show ?thesis by (simp add: smp ex [where ev = AE_SignalInfo])
  next
    case (OnNetworkStateUpdated k ns)
    then show ?thesis by (cases ns) (simp_all add: smp ex [where ev = AE_NetworkState])
  next
    case (OnCellInfoUpdated k vec)
    then show ?thesis by (simp add: smp ex [where ev = AE_CellInfo])
  next
    case (OnCallStateUpdated k st n)
    then show ?thesis by (simp add: smp ex [where ev = AE_CallState])
  next
    case (OnCallStateUpdatedEx k st)
    then show ?thesis by (simp add: smp ex [where ev = AE_CallStateEx])
  next
    case (OnCCallStateUpdated k st n)
    then show ?thesis by (simp add: smp ex [where ev = AE_CCallState])
  next
    case (OnSimActiveStateUpdated k v)
    then show ?thesis by (simp add: smp ex [where ev = AE_SimActiveState])
  next
    case (OnCellularDataConnectStateUpdated k st t)
    then show ?thesis by (simp add: smp ex [where ev = AE_CellularDataConnectionState])
  next
    case (OnCellularDataFlowUpdated k v)
    then show ?thesis by (simp add: smp ex [where ev = AE_CellularDataFlow])
  qed
qed

section \<open>The table refines the JavaScript table\<close>

text \<open>
  A listener is a JavaScript listener of the null environment without a deletion flag, whose
  reference is the number of its callback with its variant.
\<close>

fun flavor_tag :: "CallbackFlavor \<Rightarrow> nat" where
  "flavor_tag (CellularDataFlowChange _) = 0"
| "flavor_tag (IccAccountInfoChange _) = 1"
| "flavor_tag (SimStateChange _) = 2"
| "flavor_tag (SignalInfoChange _) = 3"
| "flavor_tag (CellInfoChange _) = 4"
| "flavor_tag (CellularDataConnectionStateChange _) = 5"
| "flavor_tag (NetworkStateChange _) = 6"
| "flavor_tag (CallStateChange _) = 7"
| "flavor_tag (CallStateExChange _) = 8"
| "flavor_tag (CCallStateChange _) = 9"
| "flavor_tag (SimActiveStateChange _) = 10"

definition flavor_code :: "CallbackFlavor \<Rightarrow> nat" where
  "flavor_code f = prod_encode (flavor_tag f, callback f)"

lemma flavor_code_eq [simp]: "flavor_code f = flavor_code g \<longleftrightarrow> f = g"
  by (cases f; cases g) (simp_all add: flavor_code_def prod_encode_eq)

definition ani_js :: "AniListener \<Rightarrow> EventListener" where
  "ani_js l = \<lparr>l_env = None, l_eventType = event_type l, l_slotId = slot_id l,
     l_callbackRef = Some (flavor_code (callback_ref l)), l_isDeleting = None\<rparr>"

definition ani_handler :: "AniListener list \<Rightarrow> handler" where
  "ani_handler inner = \<lparr>listenerList_of = map ani_js inner, deleting = (\<lambda>_. False)\<rparr>"

text \<open>The current state is asked for with the three kinds of call state only.\<close>

definition call_states_now where
  "call_states_now K add ob k m b =
     add ob k m (m = OBSERVER_MASK K M_CALL_STATE \<or> m = OBSERVER_MASK K M_CALL_STATE_EX \<or>
       m = OBSERVER_MASK K M_CCALL_STATE)"

fun ani_js_op :: "ani_op \<Rightarrow> js_op" where
  "ani_js_op (AniOn ev slot_opt cb ob) = On ob (ani_js
     \<lparr>event_type = ani_type ev, slot_id = (case slot_opt of None \<Rightarrow> ani_default_slot ev | Some k \<Rightarrow> k),
      callback_ref = ani_flavor ev cb\<rparr>)"
| "ani_js_op (AniOff ev None) = Off None (ani_type ev)"
| "ani_js_op (AniOff ev (Some cb)) = OffRef None (ani_type ev) (Some (flavor_code (ani_flavor ev cb)))"

lemma ani_js_sel [simp]:
  "l_env (ani_js l) = None" "l_eventType (ani_js l) = event_type l" "l_slotId (ani_js l) = slot_id l"
  "l_callbackRef (ani_js l) = Some (flavor_code (callback_ref l))" "l_isDeleting (ani_js l) = None"
  by (simp_all add: ani_js_def)

lemma ani_handler_sel [simp]:
  "listenerList_of (ani_handler inner) = map ani_js inner" "deleting (ani_handler inner) = (\<lambda>_. False)"
  by (simp_all add: ani_handler_def)

lemma check_loop_ani_js: "check_loop strict_napi (ani_js l) flag (map ani_js ls) = check_loop_ani l flag ls"
  by (induction ls arbitrary: flag) auto

lemma exists_loop_ani_js: "exists_loop k t (map ani_js ls) = check_event_type_exist ls k t"
  by (induction ls) auto

lemma erase_loop_ani_js:
  assumes "\<And>l. sel_js (ani_js l) = sel l"
  shows "erase_loop sel_js (map ani_js ls) (fl, removed, slots) =
    (map ani_js (fst (retain_loop sel ls slots)), fl, removed @ map ani_js (filter sel ls), snd (retain_loop sel ls slots))"
  by (induction ls arbitrary: removed slots) (auto simp: assms Let_def case_prod_beta SetEventListenerDeleting_def)

lemma to_u32_event:
  assumes "ani_masks_ok K"
  shows "event_value K (ani_type ev) = to_u32 (ani_type ev)"
  using assms by (cases ev) (simp_all add: ani_masks_ok_def event_value_def)

lemma is_error_cases:
  assumes "ani_codes_ok K A"
  shows "is_error (JS_ERROR_TELEPHONY_PERMISSION_DENIED A, msg)"
    "is_error (ConvertArktsError A c) \<longleftrightarrow> c \<noteq> ERR K TELEPHONY_SUCCESS"
    "is_error (ConvertArktsErrorEx K A c m) \<longleftrightarrow> c \<noteq> ERR K TELEPHONY_SUCCESS"
    "ERR K TELEPHONY_STATE_REGISTRY_PERMISSION_DENIED \<noteq> ERR K TELEPHONY_SUCCESS"
proof -
  show "ERR K TELEPHONY_STATE_REGISTRY_PERMISSION_DENIED \<noteq> ERR K TELEPHONY_SUCCESS"
    using assms codes_okD [of K TELEPHONY_STATE_REGISTRY_PERMISSION_DENIED] by (simp add: ani_codes_ok_def)
qed (use assms in \<open>simp_all add: ani_codes_ok_def is_error_def TELEPHONY_SUCCESS_ani_def ConvertArktsError_def
      ConvertArktsErrorEx_def\<close>)

lemma rem_unregister:
  assumes "ani_codes_ok K A"
  shows "snd (rem k m x) = snd (EventListenerUnRegister K A rem k m x)"
    "fst (rem k m x) = ERR K TELEPHONY_SUCCESS \<longleftrightarrow> \<not> is_error (fst (EventListenerUnRegister K A rem k m x))"
  using is_error_cases [OF assms] by (simp_all add: EventListenerUnRegister_def case_prod_beta Let_def)

lemma add_register:
  assumes "ani_codes_ok K A"
  shows "snd (call_states_now K add (Some ob) k m b x) = snd (EventListenerRegister K A add ob k m x)"
    "fst (call_states_now K add (Some ob) k m b x) = ERR K TELEPHONY_SUCCESS \<longleftrightarrow>
       \<not> is_error (fst (EventListenerRegister K A add ob k m x))"
  using is_error_cases [OF assms]
  by (simp_all add: EventListenerRegister_def call_states_now_def case_prod_beta Let_def)

lemma Register_ani_js:
  assumes "ani_masks_ok K" and "ani_codes_ok K A"
    and "IsValidSlotIdEx_ani K k (to_u32 (ani_type ev))"
  shows "snd (RegisterEventListener K strict_napi (call_states_now K add) ob
      (ani_js \<lparr>event_type = ani_type ev, slot_id = k, callback_ref = cb\<rparr>) (ani_handler inner, x)) =
    (let (res, inner', x') = register_ani K A add ob \<lparr>event_type = ani_type ev, slot_id = k, callback_ref = cb\<rparr> (inner, x)
     in (ani_handler inner', x'))"
proof -
  have upd: "(ani_handler inner)\<lparr>listenerList_of := map ani_js inner @ [ani_js l]\<rparr> = ani_handler (inner @ [l])" for l
    by (simp add: ani_handler_def)
  show ?thesis
    by (simp add: RegisterEventListener_def register_ani_def CheckEventListenerRegister_def
        check_event_listener_register_def check_loop_ani_js to_u32_event [OF assms(1)] Let_def case_prod_beta
        add_register [OF assms(2)] upd assms(3))
qed

text \<open>The removals agree up to the first error, and so when there is none.\<close>

lemma remove_loop_js:
  assumes "ani_masks_ok K" and "ani_codes_ok K A"
    and "remove_loop K A rem inner (ani_type ev) ks x = (Inr (), x')"
  shows "for_each (CheckRemoveStateObserver K rem (ani_handler inner) (ani_type ev)) ks (ERR K TELEPHONY_SUCCESS, x) =
    (ERR K TELEPHONY_SUCCESS, x')"
  using assms(3)
proof (induction ks arbitrary: x)
  case (Cons k ks)
  have step: "CheckRemoveStateObserver K rem (ani_handler inner) (ani_type ev) k (ERR K TELEPHONY_SUCCESS, x) =
      (if check_event_type_exist inner k (ani_type ev) then (ERR K TELEPHONY_SUCCESS, x)
       else rem k (to_u32 (ani_type ev)) x)"
    by (cases "rem k (to_u32 (ani_type ev)) x")
      (simp add: CheckRemoveStateObserver_def CheckEventTypeExist_def exists_loop_ani_js to_u32_event [OF assms(1)])
  show ?case
    using Cons.prems Cons.IH rem_unregister [OF assms(2), of rem k "to_u32 (ani_type ev)" x]
    by (cases "rem k (to_u32 (ani_type ev)) x") (auto simp: step case_prod_beta Let_def split: if_splits)
qed simp

lemma off_js:
  "snd (js_do K strict_napi add rem (ani_js_op (AniOff ev cb_opt)) (ani_handler inner, x)) =
   (let (inner', slots) = retain_loop
          (\<lambda>l. event_type l = ani_type ev \<and> (\<forall>cb. cb_opt = Some cb \<longrightarrow> callback_ref l = ani_flavor ev cb)) inner []
    in (ani_handler inner', snd (for_each (CheckRemoveStateObserver K rem (ani_handler inner') (ani_type ev)) slots
          (ERR K TELEPHONY_SUCCESS, x))))"
proof -
  have upd: "(ani_handler inner)\<lparr>listenerList_of := map ani_js ls, deleting := (\<lambda>_. False)\<rparr> = ani_handler ls" for ls
    by (simp add: ani_handler_def)
  show ?thesis
  proof (cases cb_opt)
    case None
    show ?thesis
      by (simp add: None UnregisterEventListener_def RemoveEventListenerRegister_def case_prod_beta Let_def upd
          erase_loop_ani_js [where sel = "\<lambda>l. event_type l = ani_type ev"] eq_commute)
  next
    case (Some cb)
    show ?thesis
      by (simp add: Some UnregisterEventListener_ref_def RemoveEventListenerRegister_ref_def case_prod_beta Let_def upd
          erase_loop_ani_js [where sel = "\<lambda>l. event_type l = ani_type ev \<and> callback_ref l = ani_flavor ev cb"] eq_commute)
  qed
qed

text \<open>A run in which every slot is in range and every removal reports success.\<close>

fun ani_step_ok where
  "ani_step_ok K A rem (AniOn ev slot_opt cb ob) ix \<longleftrightarrow>
     IsValidSlotIdEx_ani K (case slot_opt of None \<Rightarrow> ani_default_slot ev | Some k \<Rightarrow> k) (to_u32 (ani_type ev))"
| "ani_step_ok K A rem (AniOff ev cb_opt) ix \<longleftrightarrow> fst (off_change K A rem ev cb_opt ix) = Inr ()"

fun ani_good where
  "ani_good K A add rem [] ix \<longleftrightarrow> True"
| "ani_good K A add rem (op # ops) ix \<longleftrightarrow>
     ani_step_ok K A rem op ix \<and> ani_good K A add rem ops (snd (ani_do K A add rem op ix))"

lemma off_change_ok:
  assumes "ani_masks_ok K" and "ani_codes_ok K A" and "off_change K A rem ev cb_opt (inner, x) = (Inr (), inner', x')"
  shows "snd (js_do K strict_napi add rem (ani_js_op (AniOff ev cb_opt)) (ani_handler inner, x)) = (ani_handler inner', x')"
proof -
  let ?sel = "\<lambda>l. event_type l = ani_type ev \<and> (\<forall>cb. cb_opt = Some cb \<longrightarrow> callback_ref l = ani_flavor ev cb)"
  obtain ls slots where r: "retain_loop ?sel inner [] = (ls, slots)" by fastforce
  have "inner' = ls \<and> remove_loop K A rem ls (ani_type ev) slots x = (Inr (), x')"
  proof (cases "inner = []")
    case True
    with assms(3) r show ?thesis by (simp add: off_change_def unregister_ani_def)
  next
    case False
    with assms(3) r show ?thesis
      by (cases cb_opt) (auto simp: off_change_def unregister_ani_def Let_def split: prod.splits)
  qed
  then show ?thesis
    using remove_loop_js [OF assms(1,2), of rem ls ev slots x x'] by (simp only: off_js r Let_def split_conv) simp
qed

lemma ani_step_js:
  assumes "ani_masks_ok K" and "ani_codes_ok K A" and "ani_step_ok K A rem op (inner, x)"
  shows "snd (js_do K strict_napi (call_states_now K add) rem (ani_js_op op) (ani_handler inner, x)) =
    (let (inner', x') = snd (ani_do K A add rem op (inner, x)) in (ani_handler inner', x'))"
proof (cases op)
  case (AniOn ev k cb ob)
  with assms show ?thesis
    by (simp add: on_change_def Register_ani_js case_prod_beta Let_def)
next
  case (AniOff ev cb_opt)
  obtain inner' x' where "off_change K A rem ev cb_opt (inner, x) = (Inr (), inner', x')"
    using assms(3) AniOff by (cases "off_change K A rem ev cb_opt (inner, x)") auto
  with off_change_ok [OF assms(1,2)] AniOff show ?thesis by simp
qed

lemma ani_run_js:
  assumes "ani_masks_ok K" and "ani_codes_ok K A" and "ani_good K A add rem ops (inner, x)"
  shows "js_run K strict_napi (call_states_now K add) rem (map ani_js_op ops) (ani_handler inner, x) =
    (let (inner', x') = ani_run K A add rem ops (inner, x) in (ani_handler inner', x'))"
  using assms(3)
proof (induction ops arbitrary: inner x)
  case (Cons op ops)
  obtain i y where d: "snd (ani_do K A add rem op (inner, x)) = (i, y)" by fastforce
  have "ani_good K A add rem ops (i, y)" using Cons.prems d by simp
  from Cons.IH [OF this] show ?case
    using ani_step_js [OF assms(1,2), of rem op inner x add] Cons.prems by (simp add: js_run_def ani_run_def d)
qed (simp add: js_run_def ani_run_def)

section \<open>Concrete parameters for the witnesses\<close>

definition demo_A :: ani_env where
  "demo_A = \<lparr>ConverErrorMessageForJs = (\<lambda>c. (if c = ERR demo_K TELEPHONY_SUCCESS then 8300000 else 8300999, [])),
     ConverErrorMessageCallStateExForJs = (\<lambda>c. (if c = ERR demo_K TELEPHONY_SUCCESS then 8300000 else 8300999, [])),
     JS_ERROR_TELEPHONY_PERMISSION_DENIED = 201, OBSERVER_JS_PERMISSION_ERROR_STRING = []\<rparr>"

lemma ani_codes_ok_demo: "ani_codes_ok demo_K demo_A"
  using codes_ok_demo by (simp add: ani_codes_ok_def demo_A_def)

lemma ani_masks_ok_demo: "ani_masks_ok demo_K"
proof -
  have "OBSERVER_MASK demo_K m = to_u32 (Some m)" if "m \<noteq> M_VOIP_CALL_STATE" for m
    using that by (cases m) (simp_all add: demo_K_def)
  then show ?thesis by (simp add: ani_masks_ok_def)
qed

end
