(* ===== verification/Context_Js.thy ===== *)
theory Context_Js
  imports Dispatch_Js
begin

text \<open>
  The memory of the JavaScript dispatch (\<^verbatim>\<open>frameworks/js/napi/include/update_contexts.h\<close>,
  \<^verbatim>\<open>event_listener_handler.cpp\<close>). An update allocates, for every listener concerned, a context (the
  listener with the fields of the update) and a \<^verbatim>\<open>uv_work_t\<close> that points to it; the event loop hands the
  work back to \<^verbatim>\<open>WorkUpdated\<close>, which casts the pointer by the event type and deletes the context.
  \<open>Dispatch_Js\<close> describes the same dispatch with values in place of pointers; here the two are
  related, and allocation and deletion are followed through every interleaving.
\<close>

section \<open>Contexts\<close>

text \<open>The structures that extend \<^verbatim>\<open>EventListener\<close>.\<close>

record CallStateContext = EventListener +
  ctx_callState :: int32
  ctx_phoneNumber :: string16

record CallStateExContext = EventListener +
  ctx_callStateEx :: int32

record 'sig SignalListContext = EventListener +
  ctx_signalInfoList :: "'sig option list"

record 'net NetworkStateContext = EventListener +
  ctx_networkState :: "'net option"

record SimStateContext = EventListener +
  ctx_cardType :: int32
  ctx_simState :: int32
  ctx_reason :: int32

record 'cell CellInfomationContext = EventListener +
  ctx_cellInfoVec :: "'cell option list"

record CellularDataConnectStateContext = EventListener +
  ctx_dataState :: int32
  ctx_networkType :: int32

record CellularDataFlowContext = EventListener +
  ctx_flowType :: int32

record CfuIndicatorContext = EventListener +
  ctx_cfuResult :: bool

record VoiceMailMsgIndicatorContext = EventListener +
  ctx_voiceMailMsgResult :: bool

record SimActiveStateContext = EventListener +
  ctx_isActive :: bool

record VoIPCallStateContext = EventListener +
  ctx_appName :: string
  ctx_contactName :: string
  ctx_callType :: int32
  ctx_voipState :: int32
  ctx_isVoiceAnswerSupported :: bool

text \<open>
  Their assignment operators from the structures of \<^verbatim>\<open>update_infos.h\<close>; \<open>None\<close> where the update is of a
  structure the operator does not take.
\<close>

definition CallStateContext_assign :: "('sig, 'cell, 'net) update_info \<Rightarrow> CallStateContext \<Rightarrow> CallStateContext option" where
  "CallStateContext_assign info c = (case info of
     CallStateUpdateInfo k st number \<Rightarrow> Some (c\<lparr>ctx_callState := st, ctx_phoneNumber := number\<rparr>)
   | _ \<Rightarrow> None)"

definition CallStateExContext_assign :: "('sig, 'cell, 'net) update_info \<Rightarrow> CallStateExContext \<Rightarrow> CallStateExContext option" where
  "CallStateExContext_assign info c = (case info of
     CallStateExUpdateInfo k st \<Rightarrow> Some (c\<lparr>ctx_callStateEx := st\<rparr>)
   | _ \<Rightarrow> None)"

definition SignalListContext_assign ::
    "('sig, 'cell, 'net) update_info \<Rightarrow> 'sig SignalListContext \<Rightarrow> 'sig SignalListContext option" where
  "SignalListContext_assign info c = (case info of
     SignalUpdateInfo k vec \<Rightarrow> Some (c\<lparr>ctx_signalInfoList := vec\<rparr>)
   | _ \<Rightarrow> None)"

definition NetworkStateContext_assign ::
    "('sig, 'cell, 'net) update_info \<Rightarrow> 'net NetworkStateContext \<Rightarrow> 'net NetworkStateContext option" where
  "NetworkStateContext_assign info c = (case info of
     NetworkStateUpdateInfo k ns \<Rightarrow> Some (c\<lparr>ctx_networkState := ns\<rparr>)
   | _ \<Rightarrow> None)"

definition SimStateContext_assign :: "('sig, 'cell, 'net) update_info \<Rightarrow> SimStateContext \<Rightarrow> SimStateContext option" where
  "SimStateContext_assign info c = (case info of
     SimStateUpdateInfo k type st reason \<Rightarrow>
       Some (c\<lparr>ctx_cardType := type, ctx_simState := st, ctx_reason := reason\<rparr>)
   | _ \<Rightarrow> None)"

definition CellInfomationContext_assign ::
    "('sig, 'cell, 'net) update_info \<Rightarrow> 'cell CellInfomationContext \<Rightarrow> 'cell CellInfomationContext option" where
  "CellInfomationContext_assign info c = (case info of
     CellInfomationUpdate k vec \<Rightarrow> Some (c\<lparr>ctx_cellInfoVec := vec\<rparr>)
   | _ \<Rightarrow> None)"

definition CellularDataConnectStateContext_assign ::
    "('sig, 'cell, 'net) update_info \<Rightarrow> CellularDataConnectStateContext \<Rightarrow> CellularDataConnectStateContext option" where
  "CellularDataConnectStateContext_assign info c = (case info of
     CellularDataConnectState k st type \<Rightarrow> Some (c\<lparr>ctx_dataState := st, ctx_networkType := type\<rparr>)
   | _ \<Rightarrow> None)"

definition CellularDataFlowContext_assign ::
    "('sig, 'cell, 'net) update_info \<Rightarrow> CellularDataFlowContext \<Rightarrow> CellularDataFlowContext option" where
  "CellularDataFlowContext_assign info c = (case info of
     CellularDataFlowUpdate k v \<Rightarrow> Some (c\<lparr>ctx_flowType := v\<rparr>)
   | _ \<Rightarrow> None)"

definition CfuIndicatorContext_assign ::
    "('sig, 'cell, 'net) update_info \<Rightarrow> CfuIndicatorContext \<Rightarrow> CfuIndicatorContext option" where
  "CfuIndicatorContext_assign info c = (case info of
     CfuIndicatorUpdate k v \<Rightarrow> Some (c\<lparr>ctx_cfuResult := v\<rparr>)
   | _ \<Rightarrow> None)"

definition VoiceMailMsgIndicatorContext_assign ::
    "('sig, 'cell, 'net) update_info \<Rightarrow> VoiceMailMsgIndicatorContext \<Rightarrow> VoiceMailMsgIndicatorContext option" where
  "VoiceMailMsgIndicatorContext_assign info c = (case info of
     VoiceMailMsgIndicatorUpdate k v \<Rightarrow> Some (c\<lparr>ctx_voiceMailMsgResult := v\<rparr>)
   | _ \<Rightarrow> None)"

definition SimActiveStateContext_assign ::
    "('sig, 'cell, 'net) update_info \<Rightarrow> SimActiveStateContext \<Rightarrow> SimActiveStateContext option" where
  "SimActiveStateContext_assign info c = (case info of
     SimActiveStateUpdate k v \<Rightarrow> Some (c\<lparr>ctx_isActive := v\<rparr>)
   | _ \<Rightarrow> None)"

definition VoIPCallStateContext_assign ::
    "('sig, 'cell, 'net) update_info \<Rightarrow> VoIPCallStateContext \<Rightarrow> VoIPCallStateContext option" where
  "VoIPCallStateContext_assign info c = (case info of
     VoIPCallStateUpdateInfo k v \<Rightarrow>
       Some (c\<lparr>ctx_appName := voip_appName v, ctx_contactName := voip_contactName v,
               ctx_callType := voip_callType v, ctx_voipState := voip_callState v,
               ctx_isVoiceAnswerSupported := voip_isVoiceAnswerSupported v\<rparr>)
   | _ \<Rightarrow> None)"

lemmas assign_defs = CallStateContext_assign_def CallStateExContext_assign_def SignalListContext_assign_def
  NetworkStateContext_assign_def SimStateContext_assign_def CellInfomationContext_assign_def
  CellularDataConnectStateContext_assign_def CellularDataFlowContext_assign_def CfuIndicatorContext_assign_def
  VoiceMailMsgIndicatorContext_assign_def SimActiveStateContext_assign_def VoIPCallStateContext_assign_def

text \<open>An allocated object, with the type it was created with.\<close>

datatype ('sig, 'cell, 'net) context_object =
    O_EventListener EventListener
  | O_CallState CallStateContext
  | O_CallStateEx CallStateExContext
  | O_SignalList "'sig SignalListContext"
  | O_NetworkState "'net NetworkStateContext"
  | O_SimState SimStateContext
  | O_CellInfomation "'cell CellInfomationContext"
  | O_CellularDataConnectState CellularDataConnectStateContext
  | O_CellularDataFlow CellularDataFlowContext
  | O_CfuIndicator CfuIndicatorContext
  | O_VoiceMailMsgIndicator VoiceMailMsgIndicatorContext
  | O_SimActiveState SimActiveStateContext
  | O_VoIPCallState VoIPCallStateContext

definition no_listener :: EventListener where
  "no_listener = \<lparr>l_env = None, l_eventType = None, l_slotId = 0, l_callbackRef = None, l_isDeleting = None\<rparr>"

text \<open>
  \<^verbatim>\<open>handleFuncMap_\<close>: the context \<^verbatim>\<open>T\<close> of each instance of \<^verbatim>\<open>HandleCallbackInfoUpdate\<close>, as
  \<^verbatim>\<open>std::make_unique<T>()\<close> makes it, with every field value-initialised.
\<close>

fun make_context :: "TelephonyCallbackEventId \<Rightarrow> ('sig, 'cell, 'net) context_object" where
  "make_context EVENT_ON_CALL_STATE_UPDATE = O_CallState (EventListener.extend no_listener
     (CallStateContext.fields 0 []))"
| "make_context EVENT_ON_SIM_STATE_UPDATE = O_SimState (EventListener.extend no_listener
     (SimStateContext.fields 0 0 0))"
| "make_context EVENT_ON_CELLULAR_DATA_CONNECTION_UPDATE = O_CellularDataConnectState (EventListener.extend no_listener
     (CellularDataConnectStateContext.fields 0 0))"
| "make_context EVENT_ON_CELLULAR_DATA_FLOW_UPDATE = O_CellularDataFlow (EventListener.extend no_listener
     (CellularDataFlowContext.fields 0))"
| "make_context EVENT_ON_CFU_INDICATOR_UPDATE = O_CfuIndicator (EventListener.extend no_listener
     (CfuIndicatorContext.fields False))"
| "make_context EVENT_ON_VOICE_MAIL_MSG_INDICATOR_UPDATE = O_VoiceMailMsgIndicator (EventListener.extend no_listener
     (VoiceMailMsgIndicatorContext.fields False))"
| "make_context EVENT_ON_ICC_ACCOUNT_UPDATE = O_EventListener no_listener"
| "make_context EVENT_ON_CALL_STATE_EX_UPDATE = O_CallStateEx (EventListener.extend no_listener
     (CallStateExContext.fields 0))"
| "make_context EVENT_ON_CCALL_STATE_UPDATE = O_CallState (EventListener.extend no_listener
     (CallStateContext.fields 0 []))"
| "make_context EVENT_ON_SIM_ACTIVE_STATE_UPDATE = O_SimActiveState (EventListener.extend no_listener
     (SimActiveStateContext.fields False))"
| "make_context EVENT_ON_VOIP_CALL_STATE_UPDATE = O_VoIPCallState (EventListener.extend no_listener
     (VoIPCallStateContext.fields [] [] 0 0 False))"
| "make_context EVENT_ON_SIGNAL_INFO_UPDATE = O_SignalList (EventListener.extend no_listener
     (SignalListContext.fields []))"
| "make_context EVENT_ON_NETWORK_STATE_UPDATE = O_NetworkState (EventListener.extend no_listener
     (NetworkStateContext.fields None))"
| "make_context EVENT_ON_CELL_INFOMATION_UPDATE = O_CellInfomation (EventListener.extend no_listener
     (CellInfomationContext.fields []))"

text \<open>The part of an object an \<^verbatim>\<open>EventListener *\<close> sees, and the assignment to that part.\<close>

definition as_listener :: "('sig, 'cell, 'net) context_object \<Rightarrow> EventListener" where
  "as_listener ob = (case ob of
     O_EventListener c \<Rightarrow> c
   | O_CallState c \<Rightarrow> EventListener.truncate c
   | O_CallStateEx c \<Rightarrow> EventListener.truncate c
   | O_SignalList c \<Rightarrow> EventListener.truncate c
   | O_NetworkState c \<Rightarrow> EventListener.truncate c
   | O_SimState c \<Rightarrow> EventListener.truncate c
   | O_CellInfomation c \<Rightarrow> EventListener.truncate c
   | O_CellularDataConnectState c \<Rightarrow> EventListener.truncate c
   | O_CellularDataFlow c \<Rightarrow> EventListener.truncate c
   | O_CfuIndicator c \<Rightarrow> EventListener.truncate c
   | O_VoiceMailMsgIndicator c \<Rightarrow> EventListener.truncate c
   | O_SimActiveState c \<Rightarrow> EventListener.truncate c
   | O_VoIPCallState c \<Rightarrow> EventListener.truncate c)"

definition set_listener :: "EventListener \<Rightarrow> ('sig, 'cell, 'net) context_object \<Rightarrow> ('sig, 'cell, 'net) context_object" where
  "set_listener l ob = (case ob of
     O_EventListener c \<Rightarrow> O_EventListener l
   | O_CallState c \<Rightarrow> O_CallState (EventListener.extend l (EventListener.more c))
   | O_CallStateEx c \<Rightarrow> O_CallStateEx (EventListener.extend l (EventListener.more c))
   | O_SignalList c \<Rightarrow> O_SignalList (EventListener.extend l (EventListener.more c))
   | O_NetworkState c \<Rightarrow> O_NetworkState (EventListener.extend l (EventListener.more c))
   | O_SimState c \<Rightarrow> O_SimState (EventListener.extend l (EventListener.more c))
   | O_CellInfomation c \<Rightarrow> O_CellInfomation (EventListener.extend l (EventListener.more c))
   | O_CellularDataConnectState c \<Rightarrow> O_CellularDataConnectState (EventListener.extend l (EventListener.more c))
   | O_CellularDataFlow c \<Rightarrow> O_CellularDataFlow (EventListener.extend l (EventListener.more c))
   | O_CfuIndicator c \<Rightarrow> O_CfuIndicator (EventListener.extend l (EventListener.more c))
   | O_VoiceMailMsgIndicator c \<Rightarrow> O_VoiceMailMsgIndicator (EventListener.extend l (EventListener.more c))
   | O_SimActiveState c \<Rightarrow> O_SimActiveState (EventListener.extend l (EventListener.more c))
   | O_VoIPCallState c \<Rightarrow> O_VoIPCallState (EventListener.extend l (EventListener.more c)))"

definition assign_info ::
    "('sig, 'cell, 'net) update_info \<Rightarrow> ('sig, 'cell, 'net) context_object \<Rightarrow> ('sig, 'cell, 'net) context_object option" where
  "assign_info info ob = (case ob of
     O_EventListener c \<Rightarrow> None
   | O_CallState c \<Rightarrow> map_option O_CallState (CallStateContext_assign info c)
   | O_CallStateEx c \<Rightarrow> map_option O_CallStateEx (CallStateExContext_assign info c)
   | O_SignalList c \<Rightarrow> map_option O_SignalList (SignalListContext_assign info c)
   | O_NetworkState c \<Rightarrow> map_option O_NetworkState (NetworkStateContext_assign info c)
   | O_SimState c \<Rightarrow> map_option O_SimState (SimStateContext_assign info c)
   | O_CellInfomation c \<Rightarrow> map_option O_CellInfomation (CellInfomationContext_assign info c)
   | O_CellularDataConnectState c \<Rightarrow>
       map_option O_CellularDataConnectState (CellularDataConnectStateContext_assign info c)
   | O_CellularDataFlow c \<Rightarrow> map_option O_CellularDataFlow (CellularDataFlowContext_assign info c)
   | O_CfuIndicator c \<Rightarrow> map_option O_CfuIndicator (CfuIndicatorContext_assign info c)
   | O_VoiceMailMsgIndicator c \<Rightarrow> map_option O_VoiceMailMsgIndicator (VoiceMailMsgIndicatorContext_assign info c)
   | O_SimActiveState c \<Rightarrow> map_option O_SimActiveState (SimActiveStateContext_assign info c)
   | O_VoIPCallState c \<Rightarrow> map_option O_VoIPCallState (VoIPCallStateContext_assign info c))"

section \<open>The store\<close>

text \<open>
  \<open>objects\<close> holds the contexts, \<open>works\<close> the \<^verbatim>\<open>uv_work_t\<close> objects with their \<^verbatim>\<open>data\<close> pointer. Addresses are
  numbers given out in order and not reused, so that a second deletion or a use after deletion is a
  lookup that fails. \<open>sliced\<close> records the objects of a derived type that were deleted through a
  pointer to \<^verbatim>\<open>EventListener\<close>, which has no virtual destructor.
\<close>

record ('sig, 'cell, 'net) store =
  objects :: "nat \<rightharpoonup> ('sig, 'cell, 'net) context_object"
  works :: "nat \<rightharpoonup> nat"
  next_object :: nat
  next_work :: nat
  sliced :: "nat list"

definition new_store :: "('sig, 'cell, 'net) store" where
  "new_store = \<lparr>objects = Map.empty, works = Map.empty, next_object = 0, next_work = 0, sliced = []\<rparr>"

definition alloc_object ::
    "('sig, 'cell, 'net) context_object \<Rightarrow> ('sig, 'cell, 'net) store \<Rightarrow> nat \<times> ('sig, 'cell, 'net) store" where
  "alloc_object ob s = (next_object s,
     s\<lparr>objects := (objects s)(next_object s \<mapsto> ob), next_object := Suc (next_object s)\<rparr>)"

definition alloc_work :: "nat \<Rightarrow> ('sig, 'cell, 'net) store \<Rightarrow> nat \<times> ('sig, 'cell, 'net) store" where
  "alloc_work data s = (next_work s,
     s\<lparr>works := (works s)(next_work s \<mapsto> data), next_work := Suc (next_work s)\<rparr>)"

definition delete_object :: "nat \<Rightarrow> ('sig, 'cell, 'net) store \<Rightarrow> ('sig, 'cell, 'net) store option" where
  "delete_object a s = (if objects s a = None then None else Some (s\<lparr>objects := (objects s)(a := None)\<rparr>))"

text \<open>
  \<^verbatim>\<open>delete\<close> of a pointer to \<^verbatim>\<open>EventListener\<close>. On an object that is a plain listener it is an ordinary
  deletion. On an object of a derived structure C++ gives the expression no meaning, for the base has
  no virtual destructor: the members of the derived structure are not destroyed and the storage may or
  may not be returned. The model goes on as if the storage were returned and enters the address in
  \<open>sliced\<close>; a run is free of undefined behaviour exactly as long as \<open>sliced\<close> stays empty.
\<close>

definition delete_listener :: "nat \<Rightarrow> ('sig, 'cell, 'net) store \<Rightarrow> ('sig, 'cell, 'net) store option" where
  "delete_listener a s = (case objects s a of
     None \<Rightarrow> None
   | Some (O_EventListener l) \<Rightarrow> delete_object a s
   | Some _ \<Rightarrow> delete_object a (s\<lparr>sliced := sliced s @ [a]\<rparr>))"

definition delete_work :: "nat \<Rightarrow> ('sig, 'cell, 'net) store \<Rightarrow> ('sig, 'cell, 'net) store option" where
  "delete_work w s = (if works s w = None then None else Some (s\<lparr>works := (works s)(w := None)\<rparr>))"

section \<open>Queueing an update\<close>

text \<open>
  The two loops over the table. The result is the list of works handed to the event loops with the
  store, \<open>None\<close> an access that C++ does not define. Allocation does not fail: \<^verbatim>\<open>std::make_unique\<close> never
  returns null.
\<close>

fun HandleCallbackInfoUpdate_heap ::
    "napi \<Rightarrow> TelephonyCallbackEventId \<Rightarrow> ('sig, 'cell, 'net) update_info \<Rightarrow> EventListener list \<Rightarrow>
     ('sig, 'cell, 'net) store \<Rightarrow> (nat list \<times> ('sig, 'cell, 'net) store) option" where
  "HandleCallbackInfoUpdate_heap N eventId info [] s = Some ([], s)"
| "HandleCallbackInfoUpdate_heap N eventId info (listen # ls) s =
     (if \<not> IsNeedHandleCallbackUpdate N (l_eventType listen) (handle_type eventId) (l_slotId listen) (info_slotId info)
      then HandleCallbackInfoUpdate_heap N eventId info ls s
      else if \<not> InitLoop N (l_env listen) then Some ([], s)
      else let (context, s) = alloc_object (make_context eventId) s
           in case Option.bind (objects s context) (\<lambda>ob. assign_info info (set_listener listen ob)) of
                None \<Rightarrow> None
              | Some ob \<Rightarrow>
                  let s = s\<lparr>objects := (objects s)(context \<mapsto> ob)\<rparr>;
                      (work, s) = alloc_work context s
                  in if QueueWork N listen \<noteq> 0
                     then map_option (Pair []) (Option.bind (delete_object context s) (delete_work work))
                     else map_option (\<lambda>(ws, s). (work # ws, s)) (HandleCallbackInfoUpdate_heap N eventId info ls s))"

fun HandleCallbackVoidUpdate_heap ::
    "napi \<Rightarrow> event_type \<Rightarrow> EventListener list \<Rightarrow>
     ('sig, 'cell, 'net) store \<Rightarrow> (nat list \<times> ('sig, 'cell, 'net) store) option" where
  "HandleCallbackVoidUpdate_heap N eventType [] s = Some ([], s)"
| "HandleCallbackVoidUpdate_heap N eventType (listen # ls) s =
     (if l_eventType listen = eventType
      then if \<not> InitLoop N (l_env listen) then Some ([], s)
           else let (listener, s) = alloc_object (O_EventListener
                      (no_listener\<lparr>l_env := l_env listen, l_eventType := l_eventType listen,
                         l_slotId := l_slotId listen, l_callbackRef := l_callbackRef listen,
                         l_isDeleting := l_isDeleting listen\<rparr>)) s;
                    (work, s) = alloc_work listener s
                in if QueueWork N listen \<noteq> 0
                   then map_option (Pair []) (Option.bind (delete_listener listener s) (delete_work work))
                   else map_option (\<lambda>(ws, s). (work # ws, s)) (HandleCallbackVoidUpdate_heap N eventType ls s)
      else HandleCallbackVoidUpdate_heap N eventType ls s)"

definition ProcessEvent_heap ::
    "napi \<Rightarrow> TelephonyCallbackEventId \<times> ('sig, 'cell, 'net) update_info option \<Rightarrow> handler \<Rightarrow>
     ('sig, 'cell, 'net) store \<Rightarrow> (nat list \<times> ('sig, 'cell, 'net) store) option" where
  "ProcessEvent_heap N = (\<lambda>(eventId, obj) h s.
     if eventId = EVENT_ON_ICC_ACCOUNT_UPDATE
     then HandleCallbackVoidUpdate_heap N (handle_type eventId) (listenerList_of h) s
     else case obj of
            None \<Rightarrow> Some ([], s)
          | Some info \<Rightarrow> HandleCallbackInfoUpdate_heap N eventId info (listenerList_of h) s)"

section \<open>Running the work\<close>

text \<open>
  \<^verbatim>\<open>workFuncMap_\<close>: the work function of an event type on the object behind the pointer, which it casts
  to its own context; \<open>None\<close> where the object is of another type. The cast pointer is owned by a
  \<^verbatim>\<open>unique_ptr\<close>, so the object is deleted with its own type on every return of the function.
\<close>

definition work_on ::
    "napi \<Rightarrow> ('sig, 'cell, 'net) payload \<Rightarrow> observer_mask \<Rightarrow> ('sig, 'cell, 'net) context_object \<Rightarrow> napi_event list option" where
  "work_on N L m ob = (let l = as_listener ob in case m of
     M_CALL_STATE \<Rightarrow>
       (case ob of O_CallState c \<Rightarrow> Some (WorkCallStateUpdated N L l (ctx_callState c) (ctx_phoneNumber c)) | _ \<Rightarrow> None)
   | M_CCALL_STATE \<Rightarrow>
       (case ob of O_CallState c \<Rightarrow> Some (WorkCCallStateUpdated N L l (ctx_callState c) (ctx_phoneNumber c)) | _ \<Rightarrow> None)
   | M_CALL_STATE_EX \<Rightarrow>
       (case ob of O_CallStateEx c \<Rightarrow> Some (WorkCallStateExUpdated N l (ctx_callStateEx c)) | _ \<Rightarrow> None)
   | M_SIGNAL_STRENGTHS \<Rightarrow>
       (case ob of O_SignalList c \<Rightarrow> Some (WorkSignalUpdated N L l (ctx_signalInfoList c)) | _ \<Rightarrow> None)
   | M_NETWORK_STATE \<Rightarrow>
       (case ob of O_NetworkState c \<Rightarrow> Some (WorkNetworkStateUpdated N L l (ctx_networkState c)) | _ \<Rightarrow> None)
   | M_SIM_STATE \<Rightarrow>
       (case ob of O_SimState c \<Rightarrow>
          Some (WorkSimStateUpdated N l (ctx_cardType c) (ctx_simState c) (ctx_reason c)) | _ \<Rightarrow> None)
   | M_CELL_INFO \<Rightarrow>
       (case ob of O_CellInfomation c \<Rightarrow> Some (WorkCellInfomationUpdated N L l (ctx_cellInfoVec c)) | _ \<Rightarrow> None)
   | M_DATA_CONNECTION_STATE \<Rightarrow>
       (case ob of O_CellularDataConnectState c \<Rightarrow>
          Some (WorkCellularDataConnectStateUpdated N l (ctx_dataState c) (ctx_networkType c)) | _ \<Rightarrow> None)
   | M_DATA_FLOW \<Rightarrow>
       (case ob of O_CellularDataFlow c \<Rightarrow> Some (WorkCellularDataFlowUpdated N l (ctx_flowType c)) | _ \<Rightarrow> None)
   | M_CFU_INDICATOR \<Rightarrow>
       (case ob of O_CfuIndicator c \<Rightarrow> Some (WorkCfuIndicatorUpdated N l (ctx_cfuResult c)) | _ \<Rightarrow> None)
   | M_VOICE_MAIL_MSG_INDICATOR \<Rightarrow>
       (case ob of O_VoiceMailMsgIndicator c \<Rightarrow>
          Some (WorkVoiceMailMsgIndicatorUpdated N l (ctx_voiceMailMsgResult c)) | _ \<Rightarrow> None)
   | M_ICC_ACCOUNT \<Rightarrow>
       (case ob of O_EventListener c \<Rightarrow> Some (WorkIccAccountUpdated N c) | _ \<Rightarrow> None)
   | M_SIM_ACTIVE_STATE \<Rightarrow>
       (case ob of O_SimActiveState c \<Rightarrow> Some (WorkSimActiveUpdated N l (ctx_isActive c)) | _ \<Rightarrow> None)
   | M_VOIP_CALL_STATE \<Rightarrow>
       (case ob of O_VoIPCallState c \<Rightarrow> Some (WorkVoIPStateUpdated N l
          \<lparr>voip_appName = ctx_appName c, voip_contactName = ctx_contactName c, voip_callType = ctx_callType c,
           voip_callState = ctx_voipState c, voip_isVoiceAnswerSupported = ctx_isVoiceAnswerSupported c\<rparr>)
        | _ \<Rightarrow> None))"

text \<open>\<^verbatim>\<open>WorkUpdated\<close>: the work itself is not deleted on any path.\<close>

definition WorkUpdated_heap ::
    "napi \<Rightarrow> ('sig, 'cell, 'net) payload \<Rightarrow> handler \<Rightarrow> nat \<Rightarrow> ('sig, 'cell, 'net) store \<Rightarrow>
     (napi_event list \<times> ('sig, 'cell, 'net) store) option" where
  "WorkUpdated_heap N L h work s = (case works s work of None \<Rightarrow> None | Some data \<Rightarrow>
     (case objects s data of None \<Rightarrow> None | Some ob \<Rightarrow>
        let listener = as_listener ob
        in if (case l_isDeleting listener of None \<Rightarrow> True | Some f \<Rightarrow> deleting h f)
           then map_option (Pair [UnlockMutex]) (delete_listener data s)
           else case l_eventType listener of
                  None \<Rightarrow> map_option (Pair [UnlockMutex]) (delete_listener data s)
                | Some m \<Rightarrow> Option.bind (work_on N L m ob) (\<lambda>es. map_option (Pair es) (delete_object data s))))"

text \<open>
  The deletions that C++ does not define: the work of a listener that is being deleted whose object is
  not a plain listener.
\<close>

definition undefined_delete :: "handler \<Rightarrow> ('sig, 'cell, 'net) context_object \<Rightarrow> bool" where
  "undefined_delete h ob \<longleftrightarrow> (case l_isDeleting (as_listener ob) of None \<Rightarrow> True | Some f \<Rightarrow> deleting h f) \<and>
     (case ob of O_EventListener l \<Rightarrow> False | _ \<Rightarrow> True)"

section \<open>Interleavings\<close>

text \<open>
  A process with its table of listeners, the registry behind it, the store and the works handed to
  the event loops. A notification queues works, the event loops run pending works in any order, and
  requests of the application change the table. The trace has, for every work run, what it did.
\<close>

type_synonym ('x, 'sig, 'cell, 'net) process = "handler \<times> 'x \<times> ('sig, 'cell, 'net) store \<times> nat list"

inductive process_run ::
    "build \<Rightarrow> napi \<Rightarrow> ('sig, 'cell, 'net) payload \<Rightarrow>
     (observer option \<Rightarrow> int32 \<Rightarrow> uint32 \<Rightarrow> bool \<Rightarrow> 'x \<Rightarrow> int32 \<times> 'x) \<Rightarrow> (int32 \<Rightarrow> uint32 \<Rightarrow> 'x \<Rightarrow> int32 \<times> 'x) \<Rightarrow>
     'x \<Rightarrow> napi_event list list \<Rightarrow> ('x, 'sig, 'cell, 'net) process \<Rightarrow> bool"
  for K N L add rem x0 where
  start: "process_run K N L add rem x0 [] (new_handler, x0, new_store, [])"
| notify: "process_run K N L add rem x0 tr (h, x, s, q) \<Longrightarrow>
     ProcessEvent_heap N (NapiTelephonyObserver c) h s = Some (ws, s') \<Longrightarrow>
     process_run K N L add rem x0 tr (h, x, s', q @ ws)"
| run_work: "process_run K N L add rem x0 tr (h, x, s, q) \<Longrightarrow> i < length q \<Longrightarrow>
     WorkUpdated_heap N L h (q ! i) s = Some (es, s') \<Longrightarrow>
     process_run K N L add rem x0 (tr @ [es]) (h, x, s', take i q @ drop (Suc i) q)"
| request: "process_run K N L add rem x0 tr (h, x, s, q) \<Longrightarrow>
     process_run K N L add rem x0 tr (fst (snd (js_do K N add rem op (h, x))), snd (snd (js_do K N add rem op (h, x))), s, q)"

text \<open>The specification: the same process with values in place of pointers.\<close>

inductive value_run ::
    "build \<Rightarrow> napi \<Rightarrow> ('sig, 'cell, 'net) payload \<Rightarrow>
     (observer option \<Rightarrow> int32 \<Rightarrow> uint32 \<Rightarrow> bool \<Rightarrow> 'x \<Rightarrow> int32 \<times> 'x) \<Rightarrow> (int32 \<Rightarrow> uint32 \<Rightarrow> 'x \<Rightarrow> int32 \<times> 'x) \<Rightarrow>
     'x \<Rightarrow> napi_event list list \<Rightarrow>
     handler \<times> 'x \<times> (EventListener \<times> ('sig, 'cell, 'net) update_info option) list \<Rightarrow> bool"
  for K N L add rem x0 where
  start_v: "value_run K N L add rem x0 [] (new_handler, x0, [])"
| notify_v: "value_run K N L add rem x0 tr (h, x, p) \<Longrightarrow>
     value_run K N L add rem x0 tr (h, x, p @ ProcessEvent N (NapiTelephonyObserver c) h)"
| run_work_v: "value_run K N L add rem x0 tr (h, x, p) \<Longrightarrow> i < length p \<Longrightarrow>
     value_run K N L add rem x0 (tr @ [WorkUpdated N L h (p ! i)]) (h, x, take i p @ drop (Suc i) p)"
| request_v: "value_run K N L add rem x0 tr (h, x, p) \<Longrightarrow>
     value_run K N L add rem x0 tr (fst (snd (js_do K N add rem op (h, x))), snd (snd (js_do K N add rem op (h, x))), p)"

section \<open>The object of a piece of work\<close>

text \<open>The object built for a listener and a call.\<close>

definition built :: "EventListener \<Rightarrow> ('sig, 'cell, 'net) observer_call \<Rightarrow> ('sig, 'cell, 'net) context_object" where
  "built l c = (case payload_of c of
     None \<Rightarrow> O_EventListener l
   | Some info \<Rightarrow> the (assign_info info (set_listener l (make_context (fst (NapiTelephonyObserver c))))))"

lemmas object_defs = built_def payload_of_def assign_info_def set_listener_def assign_defs
  EventListener.defs CallStateContext.defs CallStateExContext.defs SignalListContext.defs NetworkStateContext.defs
  SimStateContext.defs CellInfomationContext.defs CellularDataConnectStateContext.defs CellularDataFlowContext.defs
  CfuIndicatorContext.defs VoiceMailMsgIndicatorContext.defs SimActiveStateContext.defs VoIPCallStateContext.defs

lemma assign_info_built:
  "payload_of c = Some info \<Longrightarrow>
     assign_info info (set_listener l (make_context (fst (NapiTelephonyObserver c)))) = Some (built l c)"
  by (cases c) (auto simp: object_defs)

lemma as_listener_built: "as_listener (built l c) = l"
  by (cases c) (simp_all add: object_defs as_listener_def)

lemma handle_type_call: "handle_type (fst (NapiTelephonyObserver c)) = Some (kind_of_call c)"
  by (cases c) simp_all

lemma icc_call: "fst (NapiTelephonyObserver c) = EVENT_ON_ICC_ACCOUNT_UPDATE \<longleftrightarrow> payload_of c = None"
  by (cases c) (simp_all add: payload_of_def)

text \<open>The work function finds the type it casts to, and does what it does on the values.\<close>

lemma work_on_built:
  "work_on N L (kind_of_call c) (built l c) = work_func N L (Some (kind_of_call c)) l (payload_of c)"
  by (cases l; cases c) (simp_all add: object_defs as_listener_def work_on_def work_func_def WorkVoIPStateUpdated_def)

lemma work_func_call: "work_func N L (Some (kind_of_call c)) l (payload_of c) \<noteq> None"
  by (cases c) (simp_all add: work_func_def payload_of_def)

section \<open>The invariant of the store\<close>

definition stored ::
    "('sig, 'cell, 'net) store \<Rightarrow> nat \<Rightarrow> EventListener \<times> ('sig, 'cell, 'net) update_info option \<Rightarrow> bool" where
  "stored s w = (\<lambda>(l, obj). \<exists>a c. works s w = Some a \<and> objects s a = Some (built l c) \<and>
     obj = payload_of c \<and> l_eventType l = Some (kind_of_call c))"

definition data_of :: "('sig, 'cell, 'net) store \<Rightarrow> nat list \<Rightarrow> nat set" where
  "data_of s q = {a. \<exists>w \<in> set q. works s w = Some a}"

text \<open>
  The pending works are different and point to different objects, which are all the objects there
  are, and each is the object of its listener and call. \<open>n\<close> counts the works that were run.
\<close>

definition store_ok ::
    "('sig, 'cell, 'net) store \<Rightarrow> nat list \<Rightarrow> (EventListener \<times> ('sig, 'cell, 'net) update_info option) list \<Rightarrow>
     nat \<Rightarrow> bool" where
  "store_ok s q p n \<longleftrightarrow> list_all2 (stored s) q p \<and> distinct q \<and> inj_on (works s) (set q) \<and>
     dom (objects s) = data_of s q \<and> dom (objects s) \<subseteq> {..<next_object s} \<and>
     dom (works s) \<subseteq> {..<next_work s} \<and> card (dom (works s)) = length q + n"

lemma store_ok_finite: "store_ok s q p n \<Longrightarrow> finite (dom (works s))"
  by (auto simp: store_ok_def intro: finite_subset)

lemma store_ok_pending: "store_ok s q p n \<Longrightarrow> w \<in> set q \<Longrightarrow> \<exists>a ob. works s w = Some a \<and> objects s a = Some ob"
  by (fastforce simp: store_ok_def stored_def list_all2_conv_all_nth in_set_conv_nth)

lemma store_ok_new: "store_ok new_store [] [] 0"
  by (simp add: store_ok_def new_store_def data_of_def)

lemma list_all2_stored_mono:
  assumes "list_all2 (stored s) q p"
    and "\<And>w a. w \<in> set q \<Longrightarrow> works s w = Some a \<Longrightarrow> works s' w = Some a \<and> objects s' a = objects s a"
  shows "list_all2 (stored s') q p"
  using assms(1)
proof (rule list.rel_mono_strong)
  fix w z assume "w \<in> set q" and "stored s w z"
  with assms(2) show "stored s' w z" by (fastforce simp: stored_def)
qed

lemma store_ok_queue:
  assumes ok: "store_ok s q p n" and l: "l_eventType l = Some (kind_of_call c)"
  defines "s' \<equiv> s\<lparr>objects := (objects s)(next_object s \<mapsto> built l c), next_object := Suc (next_object s),
    works := (works s)(next_work s \<mapsto> next_object s), next_work := Suc (next_work s)\<rparr>"
  shows "store_ok s' (q @ [next_work s]) (p @ [(l, payload_of c)]) n"
proof -
  have fresh: "works s (next_work s) = None" "objects s (next_object s) = None"
    using ok by (auto simp: store_ok_def)
  have pending: "w \<noteq> next_work s" "works s w \<noteq> Some (next_object s)" if "w \<in> set q" for w
    using store_ok_pending [OF ok that] fresh by auto
  have "list_all2 (stored s') q p"
    by (rule list_all2_stored_mono [where s = s]) (use ok pending in \<open>auto simp: store_ok_def s'_def\<close>)
  moreover have "stored s' (next_work s) (l, payload_of c)"
    using l by (auto simp: stored_def s'_def)
  moreover have "inj_on (works s') (set (q @ [next_work s]))"
  proof -
    have "works s' ` set q = works s ` set q" "inj_on (works s') (set q)"
      using ok pending by (auto simp: s'_def store_ok_def inj_on_def)
    moreover have "Some (next_object s) \<notin> works s ` set q" using pending(2) by force
    ultimately show ?thesis by (auto simp: s'_def)
  qed
  moreover have "data_of s' (q @ [next_work s]) = insert (next_object s) (data_of s q)"
    using pending by (auto simp: data_of_def s'_def)
  moreover have "card (dom (works s')) = Suc (card (dom (works s)))"
    using fresh store_ok_finite [OF ok] by (simp add: s'_def domIff)
  moreover have "distinct (q @ [next_work s])" using ok pending(1) by (auto simp: store_ok_def)
  ultimately show ?thesis
    using ok unfolding store_ok_def by (simp add: list_all2_appendI) (auto simp: s'_def lessThan_Suc)
qed

text \<open>An object and a work that are deleted at once leave nothing behind.\<close>

lemma store_ok_undo:
  assumes ok: "store_ok s q p n"
  shows "store_ok (s\<lparr>next_object := Suc (next_object s), next_work := Suc (next_work s),
    objects := (objects s)(next_object s := None), works := (works s)(next_work s := None)\<rparr>) q p n"
proof -
  have "(works s)(next_work s := None) = works s" "(objects s)(next_object s := None) = objects s"
    using ok by (auto simp: store_ok_def fun_upd_idem_iff)
  moreover have "stored (s\<lparr>next_object := a, next_work := b\<rparr>) = stored s" for a b
    by (simp add: stored_def fun_eq_iff)
  ultimately show ?thesis
    using ok by (simp add: store_ok_def data_of_def lessThan_Suc) blast
qed

section \<open>Every step keeps the invariant\<close>

lemmas heap_defs = alloc_object_def alloc_work_def delete_object_def delete_listener_def delete_work_def

lemma store_reorder:
  "s\<lparr>next_object := a, objects := b, works := c, next_work := d\<rparr> =
   s\<lparr>objects := b, next_object := a, works := c, next_work := d\<rparr>"
  by simp

lemma handle_info_ok:
  assumes "payload_of c = Some info" and "store_ok s q p n"
  shows "\<exists>ws s'. HandleCallbackInfoUpdate_heap N (fst (NapiTelephonyObserver c)) info ls s = Some (ws, s') \<and>
    store_ok s' (q @ ws) (p @ HandleCallbackInfoUpdate N (Some (kind_of_call c)) info ls) n"
  using assms(2)
proof (induction ls arbitrary: s q p)
  case (Cons l ls)
  let ?needed = "IsNeedHandleCallbackUpdate N (l_eventType l) (Some (kind_of_call c)) (l_slotId l) (info_slotId info)"
  consider "\<not> ?needed" | "?needed" "\<not> InitLoop N (l_env l)" | "?needed" "InitLoop N (l_env l)" "QueueWork N l \<noteq> 0"
    | "?needed" "InitLoop N (l_env l)" "QueueWork N l = 0" by blast
  then show ?case
  proof cases
    case 1
    with Cons show ?thesis by (simp add: handle_type_call)
  next
    case 2
    with Cons.prems show ?thesis by (simp add: handle_type_call)
  next
    case 3
    with store_ok_undo [OF Cons.prems] show ?thesis
      by (simp add: handle_type_call heap_defs Let_def assign_info_built [OF assms(1)])
  next
    case 4
    then have "l_eventType l = Some (kind_of_call c)"
      by (simp add: IsNeedHandleCallbackUpdate_def split: if_splits)
    from Cons.IH [OF store_ok_queue [OF Cons.prems this]] 4 assms(1) show ?thesis
      by (auto simp: handle_type_call heap_defs Let_def assign_info_built [OF assms(1)] store_reorder)
  qed
qed simp

lemma handle_void_ok:
  fixes c :: "('sig, 'cell, 'net) observer_call" and s :: "('sig, 'cell, 'net) store"
  assumes "payload_of c = None" and "store_ok s q p n"
  shows "\<exists>ws s'. HandleCallbackVoidUpdate_heap N (Some (kind_of_call c)) ls s = Some (ws, s') \<and>
    store_ok s' (q @ ws) (p @ HandleCallbackVoidUpdate N (Some (kind_of_call c)) ls) n"
  using assms(2)
proof (induction ls arbitrary: s q p)
  case (Cons l ls)
  have copy: "no_listener\<lparr>l_env := l_env l, l_eventType := e, l_slotId := l_slotId l,
      l_callbackRef := l_callbackRef l, l_isDeleting := l_isDeleting l\<rparr> = l" if "l_eventType l = e" for e
    using that by (cases l) (simp add: no_listener_def)
  have built: "built l c = O_EventListener l" using assms(1) by (simp add: built_def)
  show ?case
  proof (cases "l_eventType l = Some (kind_of_call c) \<and> InitLoop N (l_env l)")
    case True
    show ?thesis
    proof (cases "QueueWork N l = 0")
      case queued: True
      from Cons.IH [OF store_ok_queue [OF Cons.prems conjunct1 [OF True]]] True queued assms(1) show ?thesis
        by (auto simp: copy heap_defs Let_def built)
    next
      case False
      with True store_ok_undo [OF Cons.prems] show ?thesis
        by (simp add: copy heap_defs Let_def)
    qed
  next
    case False
    with Cons show ?thesis by auto
  qed
qed simp

lemma process_event_ok:
  assumes "store_ok s q p n"
  shows "\<exists>ws s'. ProcessEvent_heap N (NapiTelephonyObserver c) h s = Some (ws, s') \<and>
    store_ok s' (q @ ws) (p @ ProcessEvent N (NapiTelephonyObserver c) h) n"
proof (cases "payload_of c")
  case None
  with handle_void_ok [OF None assms] show ?thesis
    by (simp add: ProcessEvent_heap_def ProcessEvent_def case_prod_unfold icc_call handle_type_call)
next
  case (Some info)
  with handle_info_ok [OF Some assms] show ?thesis
    by (simp add: ProcessEvent_heap_def ProcessEvent_def case_prod_unfold icc_call handle_type_call payload_of_def)
qed

text \<open>Running a pending work gives what its values give, and removes its object.\<close>

lemma work_run:
  assumes "stored s w (l, obj)"
  shows "\<exists>s' a. WorkUpdated_heap N L h w s = Some (WorkUpdated N L h (l, obj), s') \<and> works s w = Some a \<and>
    objects s' = (objects s)(a := None) \<and> works s' = works s \<and>
    next_object s' = next_object s \<and> next_work s' = next_work s"
proof -
  obtain a c where a: "works s w = Some a" "objects s a = Some (built l c)"
    and c: "obj = payload_of c" "l_eventType l = Some (kind_of_call c)"
    using assms by (auto simp: stored_def)
  obtain es where es: "work_func N L (Some (kind_of_call c)) l (payload_of c) = Some es"
    using work_func_call by blast
  show ?thesis
    by (auto simp: WorkUpdated_heap_def WorkUpdated_def a c es as_listener_built work_on_built delete_object_def
        delete_listener_def Let_def split: context_object.split option.split)
qed

lemma nth_removed: "i < length q \<Longrightarrow> distinct q \<Longrightarrow> set (take i q @ drop (Suc i) q) = set q - {q ! i}"
proof -
  assume "i < length q" and dist: "distinct q"
  then have q: "take i q @ q ! i # drop (Suc i) q = q" by (simp add: id_take_nth_drop [symmetric])
  have "set (xs @ ys) = set (xs @ y # ys) - {y}" if "distinct (xs @ y # ys)" for xs ys and y :: 'a
    using that by auto
  from this [of "take i q" "q ! i" "drop (Suc i) q"] show ?thesis unfolding q using dist by simp
qed

lemma store_ok_run:
  assumes ok: "store_ok s q p n" and i: "i < length q"
  shows "\<exists>s'. WorkUpdated_heap N L h (q ! i) s = Some (WorkUpdated N L h (p ! i), s') \<and>
    store_ok s' (take i q @ drop (Suc i) q) (take i p @ drop (Suc i) p) (Suc n)"
proof -
  have len: "length p = length q" and st: "stored s (q ! i) (p ! i)"
    using ok i by (auto simp: store_ok_def list_all2_conv_all_nth)
  obtain s' a where s': "WorkUpdated_heap N L h (q ! i) s = Some (WorkUpdated N L h (p ! i), s')"
    and a: "works s (q ! i) = Some a" and upd: "objects s' = (objects s)(a := None)" "works s' = works s"
    "next_object s' = next_object s" "next_work s' = next_work s"
    using work_run [of s "q ! i" "fst (p ! i)" "snd (p ! i)" N L h] st by auto
  let ?q = "take i q @ drop (Suc i) q"
  have set: "set ?q = set q - {q ! i}" using nth_removed [OF i] ok by (simp add: store_ok_def)
  have other: "works s w \<noteq> Some a" if "w \<in> set ?q" for w
    using that ok a i unfolding set by (auto simp: store_ok_def inj_on_def)
  have "list_all2 (stored s) ?q (take i p @ drop (Suc i) p)"
    using ok by (auto simp: store_ok_def intro!: list_all2_appendI list_all2_takeI list_all2_dropI)
  then have "list_all2 (stored s') ?q (take i p @ drop (Suc i) p)"
    by (rule list_all2_stored_mono) (use other upd in auto)
  moreover have "data_of s' ?q = data_of s q - {a}"
    using other a i unfolding data_of_def set upd by auto
  moreover have "inj_on (works s) (set ?q)" "distinct ?q"
    using ok unfolding set by (auto simp: store_ok_def inj_on_diff set_take_disj_set_drop_if_distinct)
  moreover have "length q + n = length ?q + Suc n" using i by simp
  ultimately show ?thesis using ok s' upd by (auto simp: store_ok_def)
qed

section \<open>Runs\<close>

text \<open>
  Every run with pointers is a run with values and the same trace, in which the store satisfies its
  invariant. The other direction holds too: no step of a run with values is impossible with pointers.
\<close>

lemma process_run_value:
  assumes "process_run K N L add rem x0 tr (h, x, s, q)"
  shows "\<exists>p. value_run K N L add rem x0 tr (h, x, p) \<and> store_ok s q p (length tr)"
  using assms
proof (induction tr "(h, x, s, q)" arbitrary: h x s q)
  case start
  then show ?case using value_run.start_v store_ok_new by fastforce
next
  case (notify tr h x s q c ws s')
  then obtain p where p: "value_run K N L add rem x0 tr (h, x, p)" "store_ok s q p (length tr)" by blast
  from process_event_ok [OF p(2), of N c h] notify.hyps(3) value_run.notify_v [OF p(1)] show ?case by auto
next
  case (run_work tr h x s q i es s')
  then obtain p where p: "value_run K N L add rem x0 tr (h, x, p)" "store_ok s q p (length tr)" by blast
  then have "i < length p" using run_work.hyps(3) by (auto simp: store_ok_def list_all2_lengthD)
  from store_ok_run [OF p(2) run_work.hyps(3), of N L h] run_work.hyps(4) value_run.run_work_v [OF p(1) this]
  show ?case by auto
next
  case (request tr h x s q op)
  then obtain p where p: "value_run K N L add rem x0 tr (h, x, p)" "store_ok s q p (length tr)" by blast
  from value_run.request_v [OF p(1), of op] p(2) show ?case by blast
qed

lemma value_run_process:
  assumes "value_run K N L add rem x0 tr (h, x, p)"
  shows "\<exists>s q. process_run K N L add rem x0 tr (h, x, s, q) \<and> store_ok s q p (length tr)"
  using assms
proof (induction tr "(h, x, p)" arbitrary: h x p)
  case start_v
  then show ?case using process_run.start store_ok_new by fastforce
next
  case (notify_v tr h x p c)
  then obtain s q where s: "process_run K N L add rem x0 tr (h, x, s, q)" "store_ok s q p (length tr)" by blast
  from process_event_ok [OF s(2), of N c h] process_run.notify [OF s(1), of c] show ?case by blast
next
  case (run_work_v tr h x p i)
  then obtain s q where s: "process_run K N L add rem x0 tr (h, x, s, q)" "store_ok s q p (length tr)" by blast
  then have "i < length q" using run_work_v.hyps(3) by (auto simp: store_ok_def list_all2_lengthD)
  from store_ok_run [OF s(2) this, of N L h] process_run.run_work [OF s(1) this] show ?case by fastforce
next
  case (request_v tr h x p op)
  then obtain s q where s: "process_run K N L add rem x0 tr (h, x, s, q)" "store_ok s q p (length tr)" by blast
  from process_run.request [OF s(1), of op] s(2) show ?case by blast
qed

lemma store_ok_quiet: "store_ok s [] p n \<Longrightarrow> objects s = Map.empty"
  by (simp add: store_ok_def data_of_def)

text \<open>The deletions of \<open>undefined_delete\<close> are those that enter \<open>sliced\<close>.\<close>

lemma work_slices:
  assumes "works s w = Some a" and "objects s a = Some ob"
    and "case l_isDeleting (as_listener ob) of None \<Rightarrow> True | Some f \<Rightarrow> deleting h f"
  shows "\<exists>s'. WorkUpdated_heap N L h w s = Some ([UnlockMutex], s') \<and>
    sliced s' = sliced s @ (case ob of O_EventListener l \<Rightarrow> [] | _ \<Rightarrow> [a])"
  using assms by (cases ob) (simp_all add: WorkUpdated_heap_def delete_listener_def delete_object_def)

lemma work_keeps_sliced:
  assumes "WorkUpdated_heap N L h w s = Some (es, s')" and "works s w = Some a" and "objects s a = Some ob"
    and "\<not> (case l_isDeleting (as_listener ob) of None \<Rightarrow> True | Some f \<Rightarrow> deleting h f)"
    and "l_eventType (as_listener ob) \<noteq> None"
  shows "sliced s' = sliced s"
  using assms by (auto simp: WorkUpdated_heap_def delete_object_def Let_def split: bind_splits if_splits option.splits)

lemma pending_work_runs:
  assumes ok: "store_ok s q p n" and w: "w \<in> set q"
  shows "\<exists>a ob es s'. works s w = Some a \<and> objects s a = Some ob \<and> WorkUpdated_heap N L h w s = Some (es, s') \<and>
    sliced s' = sliced s @ (if undefined_delete h ob then [a] else [])"
proof -
  obtain i where i: "i < length q" "q ! i = w" using w by (auto simp: in_set_conv_nth)
  obtain es s' where run: "WorkUpdated_heap N L h w s = Some (es, s')"
    using store_ok_run [OF ok i(1), of N L h] i(2) by blast
  obtain l obj where "stored s w (l, obj)"
    using ok i by (metis list_all2_nthD store_ok_def surj_pair)
  then obtain a c where a: "works s w = Some a" "objects s a = Some (built l c)" "l_eventType l = Some (kind_of_call c)"
    by (auto simp: stored_def)
  let ?del = "case l_isDeleting (as_listener (built l c)) of None \<Rightarrow> True | Some f \<Rightarrow> deleting h f"
  have "sliced s' = sliced s @ (if undefined_delete h (built l c) then [a] else [])"
  proof (cases ?del)
    case True
    from work_slices [OF a(1, 2) this, of N L] run True show ?thesis
      by (simp add: undefined_delete_def split: context_object.split)
  next
    case False
    with work_keeps_sliced [OF run a(1, 2) False] a(3) show ?thesis
      by (simp add: undefined_delete_def as_listener_built)
  qed
  with run a(1, 2) show ?thesis by blast
qed

lemma handle_info_keeps_sliced:
  "HandleCallbackInfoUpdate_heap N eventId info ls s = Some (ws, s') \<Longrightarrow> sliced s' = sliced s"
  by (induction ls arbitrary: s ws)
    (auto simp: heap_defs Let_def split: if_splits option.splits bind_splits)

lemma handle_void_keeps_sliced:
  "HandleCallbackVoidUpdate_heap N t ls s = Some (ws, s') \<Longrightarrow> sliced s' = sliced s"
  by (induction ls arbitrary: s ws)
    (auto simp: heap_defs Let_def split: if_splits option.splits bind_splits)

lemma process_event_keeps_sliced:
  "ProcessEvent_heap N ev h s = Some (ws, s') \<Longrightarrow> sliced s' = sliced s"
  by (auto simp: ProcessEvent_heap_def case_prod_unfold split: if_splits option.splits
      dest: handle_info_keeps_sliced handle_void_keeps_sliced)

end
