(* ===== verification/Serving.thy ===== *)
theory Serving
  imports Dispatch_Js
begin

text \<open>
  The other half of the agreement between the listener table of an application and the registry:
  every listener of the table is served, that is, the registry holds a subscription for its slot and
  event type with an observer of this application. Requests of the application are interleaved with
  updates by the producers and with registrations and removals of other applications.
\<close>

section \<open>Events around an application\<close>

datatype ('sig, 'cell, 'net) service_event =
    SE_Update "('sig, 'cell, 'net) world" "('sig, 'cell, 'net) update"
  | SE_Register "('sig, 'cell, 'net) world" bool reg_key "observer option \<times> string \<times> int32 \<times> string"
  | SE_Unregister "('sig, 'cell, 'net) world" reg_key

fun service_do ::
    "build \<Rightarrow> ('sig, 'cell, 'net) service_event \<Rightarrow> client \<times> ('sig, 'cell, 'net) service \<Rightarrow>
     client \<times> ('sig, 'cell, 'net) service" where
  "service_do K (SE_Update E u) (c, s) = (c, fst (snd (run_update K E u s)))"
| "service_do K (SE_Register E b k y) (c, s) = (c, register_key K E b k y s)"
| "service_do K (SE_Unregister E k) (c, s) = (c, unregister_key K E k s)"

text \<open>A registration or removal by a process other than the one \<open>V\<close> describes, with an observer.\<close>

fun foreign :: "stub_env \<Rightarrow> ('sig, 'cell, 'net) service_event \<Rightarrow> bool" where
  "foreign V (SE_Update E u) = True"
| "foreign V (SE_Register E b k y) = (snd (snd k) \<noteq> (sint (CallingTokenID V), CallingPid V) \<and> fst y \<noteq> None)"
| "foreign V (SE_Unregister E k) = (snd (snd k) \<noteq> (sint (CallingTokenID V), CallingPid V))"

text \<open>A history of requests of the application (\<open>Inl\<close>) and of other events (\<open>Inr\<close>).\<close>

definition app_step where
  "app_step K N add rem env ev = (\<lambda>(h, x). case ev of
     Inl op \<Rightarrow> snd (js_do K N add rem op (h, x)) | Inr e \<Rightarrow> (h, env e x))"

definition app_run where
  "app_run K N add rem env evs hx = fold (app_step K N add rem env) evs hx"

fun fresh_run where
  "fresh_run K N add rem env [] hx = True"
| "fresh_run K N add rem env (ev # evs) hx =
     ((case ev of Inl (On ob e) \<Rightarrow> fresh_flag (fst hx) e | _ \<Rightarrow> True) \<and>
      fresh_run K N add rem env evs (app_step K N add rem env ev hx))"

lemma flags_ok_app_run:
  assumes "flags_ok (fst hx)" and "fresh_run K N add rem env evs hx"
  shows "flags_ok (fst (app_run K N add rem env evs hx))"
  using assms
proof (induction evs arbitrary: hx)
  case (Cons ev evs)
  have "flags_ok (fst (app_step K N add rem env ev hx))"
  proof (cases ev)
    case (Inl op)
    have "op = On ob e \<Longrightarrow> fresh_flag (fst hx) e" for ob e using Cons.prems(2) Inl by simp
    from flags_ok_js_do [OF Cons.prems(1) this, where K = K and N = N and add = add and rem = rem and x = "snd hx"]
    show ?thesis
      by (simp add: app_step_def Inl case_prod_beta del: js_do.simps)
  next
    case (Inr e)
    with Cons.prems(1) show ?thesis by (simp add: app_step_def case_prod_beta)
  qed
  with Cons show ?case by (simp add: app_run_def)
qed (simp add: app_run_def)

text \<open>
  What the application may do: register observers of its own (\<open>obs\<close>) for slots and event types it is
  entitled to. The registry reports success for a slot that it does not let the application observe, so
  such a registration makes a listener that is never served.
\<close>

fun may_do :: "build \<Rightarrow> (int32 \<Rightarrow> uint32 \<Rightarrow> bool) \<Rightarrow> ('e \<Rightarrow> bool) \<Rightarrow> observer set \<Rightarrow> js_op + 'e \<Rightarrow> bool" where
  "may_do K can other obs (Inl (On ob e)) = (ob \<in> obs \<and> can (l_slotId e) (event_value K (l_eventType e)))"
| "may_do K can other obs (Inl op) = True"
| "may_do K can other obs (Inr e) = other e"

section \<open>The interface: which observer serves a subscription\<close>

text \<open>
  \<open>held x k m\<close> is the observer the registry calls for the subscription of this application to slot \<open>k\<close>
  and mask \<open>m\<close>; \<open>can k m\<close> tells whether the application may hold it.
\<close>

locale serving_registry =
  fixes add :: "observer option \<Rightarrow> int32 \<Rightarrow> uint32 \<Rightarrow> bool \<Rightarrow> 'x \<Rightarrow> int32 \<times> 'x"
    and rem :: "int32 \<Rightarrow> uint32 \<Rightarrow> 'x \<Rightarrow> int32 \<times> 'x"
    and env :: "'e \<Rightarrow> 'x \<Rightarrow> 'x"
    and held :: "'x \<Rightarrow> int32 \<Rightarrow> uint32 \<Rightarrow> observer option"
    and can :: "int32 \<Rightarrow> uint32 \<Rightarrow> bool"
    and other :: "'e \<Rightarrow> bool"
    and K :: build
    and inv :: "'x \<Rightarrow> bool"
  assumes add_inv: "inv x \<Longrightarrow> inv (snd (add (Some ob) k m b x))"
    and rem_inv: "inv x \<Longrightarrow> inv (snd (rem k m x))"
    and env_inv: "inv x \<Longrightarrow> other e \<Longrightarrow> inv (env e x)"
    and add_held: "inv x \<Longrightarrow> held (snd (add (Some ob) k m b x)) j n =
      (if (j, n) = (k, m) \<and> held x k m = None \<and> fst (add (Some ob) k m b x) = ERR K TELEPHONY_SUCCESS \<and> can k m
       then Some ob else held x j n)"
    and rem_held: "inv x \<Longrightarrow> (j, n) \<noteq> (k, m) \<Longrightarrow> held (snd (rem k m x)) j n = held x j n"
    and rem_less: "inv x \<Longrightarrow> held (snd (rem k m x)) j n \<in> {None, held x j n}"
    and env_held: "inv x \<Longrightarrow> other e \<Longrightarrow> held (env e x) = held x"
begin

text \<open>Every listener is served, and every observer that serves this application is out of \<open>obs\<close>.\<close>

definition served :: "observer set \<Rightarrow> handler \<Rightarrow> 'x \<Rightarrow> bool" where
  "served obs h x \<longleftrightarrow>
     (\<forall>l \<in> set (listenerList_of h). held x (l_slotId l) (event_value K (l_eventType l)) \<noteq> None) \<and>
     (\<forall>k m ob. held x k m = Some ob \<longrightarrow> ob \<in> obs)"

lemma check_remove_held:
  assumes "inv x"
  shows "inv (snd (CheckRemoveStateObserver K rem h t k (r, x)))"
    and "held (snd (CheckRemoveStateObserver K rem h t k (r, x))) j n \<in> {None, held x j n}"
    and "CheckEventTypeExist k t h \<or> (j, n) \<noteq> (k, event_value K t) \<Longrightarrow>
      held (snd (CheckRemoveStateObserver K rem h t k (r, x))) j n = held x j n"
  using assms rem_inv [OF assms] rem_held [OF assms, of j n k "event_value K t"]
    rem_less [OF assms, of k "event_value K t" j n]
  by (auto simp: CheckRemoveStateObserver_def case_prod_beta Let_def split: if_splits)

text \<open>Removal requests leave the subscriptions alone that some listener still needs.\<close>

lemma requests_held:
  assumes "inv x"
  shows "inv (snd (remove_requests K rem h ps (r, x))) \<and>
    held (snd (remove_requests K rem h ps (r, x))) j n \<in> {None, held x j n} \<and>
    ((\<forall>(k, t) \<in> set ps. CheckEventTypeExist k t h \<or> (j, n) \<noteq> (k, event_value K t)) \<longrightarrow>
     held (snd (remove_requests K rem h ps (r, x))) j n = held x j n)"
  using assms
proof (induction ps arbitrary: r x)
  case (Cons p ps)
  obtain k t where p: "p = (k, t)" by (cases p)
  obtain r' x' where rx: "CheckRemoveStateObserver K rem h t k (r, x) = (r', x')"
    by (cases "CheckRemoveStateObserver K rem h t k (r, x)")
  note step = check_remove_held [OF Cons.prems, where h = h and t = t and k = k and r = r, unfolded rx snd_conv]
  have eq: "remove_requests K rem h (p # ps) (r, x) = remove_requests K rem h ps (r', x')"
    by (simp add: remove_requests_def p rx)
  note IH = Cons.IH [OF step(1), of r']
  from step(2) [where j = j and n = n] step(3) [where j = j and n = n] IH show ?case
    unfolding eq by (auto simp: p)
qed (simp add: remove_requests_def)

lemma erase_served:
  assumes inv: "inv x" and served: "served obs h x" and inj: "inj (event_value K)"
  shows "served obs (erase_listeners sel h) (snd (remove_requests K rem (erase_listeners sel h) ps (r, x)))"
proof -
  let ?h = "erase_listeners sel h" and ?x = "snd (remove_requests K rem (erase_listeners sel h) ps (r, x))"
  have "held ?x (l_slotId l) (event_value K (l_eventType l)) \<noteq> None" if l: "l \<in> set (listenerList_of ?h)" for l
  proof -
    have "CheckEventTypeExist k t ?h \<or> (l_slotId l, event_value K (l_eventType l)) \<noteq> (k, event_value K t)" for k t
      using l inj by (auto simp: CheckEventTypeExist_eq inj_eq)
    then have "held ?x (l_slotId l) (event_value K (l_eventType l)) = held x (l_slotId l) (event_value K (l_eventType l))"
      using requests_held [OF inv] by blast
    moreover have "l \<in> set (listenerList_of h)" using l by (auto simp: erase_listeners_def)
    ultimately show ?thesis using served by (simp add: served_def)
  qed
  moreover have "ob \<in> obs" if "held ?x k m = Some ob" for k m ob
    using requests_held [OF inv, where h = ?h and ps = ps and r = r and j = k and n = m] that served
    by (auto simp: served_def)
  ultimately show ?thesis by (simp add: served_def)
qed

lemma register_served:
  assumes inv: "inv x" and served: "served obs h x" and ob: "ob \<in> obs"
    and can: "can (l_slotId e) (event_value K (l_eventType e))"
  shows "served obs (fst (snd (RegisterEventListener K N add ob e (h, x))))
    (snd (snd (RegisterEventListener K N add ob e (h, x))))"
proof -
  define b where "b = (l_eventType e = Some M_CALL_STATE \<or> l_eventType e = Some M_SIM_STATE \<or>
    l_eventType e = Some M_CALL_STATE_EX \<or> l_eventType e = Some M_CCALL_STATE \<or>
    l_eventType e = Some M_SIM_ACTIVE_STATE)"
  obtain c x' where a: "add (Some ob) (l_slotId e) (event_value K (l_eventType e)) b x = (c, x')"
    by (cases "add (Some ob) (l_slotId e) (event_value K (l_eventType e)) b x")
  note def = RegisterEventListener_def [of K N add ob e, folded b_def]
  note held = add_held [OF inv, of ob "l_slotId e" "event_value K (l_eventType e)" b, unfolded a fst_conv snd_conv]
  have added: "served obs h x'" using served ob by (auto simp: served_def held split: if_splits)
  have new: "served obs (h\<lparr>listenerList_of := listenerList_of h @ [e]\<rparr>) x'" if "c = ERR K TELEPHONY_SUCCESS"
    using added that can by (auto simp: served_def held)
  have shared: "served obs (h\<lparr>listenerList_of := listenerList_of h @ [e]\<rparr>) x"
    if same: "CheckEventListenerRegister N e h = EVENT_LISTENER_SLOTID_AND_EVENTTYPE_SAME"
  proof -
    obtain l where "l \<in> set (listenerList_of h)" "l_slotId e = l_slotId l" "l_eventType e = l_eventType l"
      using same by (simp add: CheckEventListenerRegister_def check_loop_eq split: if_splits) blast
    with served show ?thesis by (auto simp: served_def)
  qed
  show ?thesis
    by (cases "CheckEventListenerRegister N e h") (use served added new shared in \<open>simp_all add: def a Let_def\<close>)
qed

lemma js_do_served:
  assumes "inv x" and "served obs h x" and "inj (event_value K)" and "may_do K can other obs (Inl op)"
  shows "served obs (fst (snd (js_do K N add rem op (h, x)))) (snd (snd (js_do K N add rem op (h, x)))) \<and>
    inv (snd (snd (js_do K N add rem op (h, x))))"
proof (cases op)
  case (On ob e)
  with register_served [OF assms(1,2)] assms(1,4) show ?thesis
    by (simp add: RegisterEventListener_def case_prod_beta Let_def add_inv)
next
  case (OffRef env t r)
  show ?thesis
    by (rule UnregisterEventListener_ref_eq [where K = K and N = N and rem = rem and env = env and t = t
          and r = r and h = h and x = x])
      (simp add: OffRef case_prod_beta Let_def requests_held [OF assms(1)] erase_served [OF assms(1-3)])
next
  case (Off env t)
  show ?thesis
    by (rule UnregisterEventListener_eq [where K = K and N = N and rem = rem and env = env and t = t
          and h = h and x = x])
      (simp add: Off case_prod_beta Let_def requests_held [OF assms(1)] erase_served [OF assms(1-3)])
next
  case (EnvGone env)
  show ?thesis
    by (rule UnRegisterAllListener_eq [where K = K and rem = rem and env = env and h = h and x = x])
      (simp add: EnvGone requests_held [OF assms(1)] erase_served [OF assms(1-3)])
qed

text \<open>Over any history, whatever the registry answers: also a failed removal does not leave a listener unserved.\<close>

lemma app_run_served:
  assumes "inv (snd hx)" and "served obs (fst hx) (snd hx)" and "inj (event_value K)"
    and "\<forall>ev \<in> set evs. may_do K can other obs ev"
  shows "served obs (fst (app_run K N add rem env evs hx)) (snd (app_run K N add rem env evs hx)) \<and>
    inv (snd (app_run K N add rem env evs hx))"
  using assms
proof (induction evs arbitrary: hx)
  case (Cons ev evs)
  have "served obs (fst (app_step K N add rem env ev hx)) (snd (app_step K N add rem env ev hx)) \<and>
      inv (snd (app_step K N add rem env ev hx))"
  proof (cases ev)
    case (Inl op)
    with js_do_served [OF Cons.prems(1-3)] Cons.prems(4) show ?thesis
      by (simp add: app_step_def case_prod_beta del: js_do.simps)
  next
    case (Inr e)
    with Cons.prems show ?thesis by (simp add: app_step_def case_prod_beta served_def env_held env_inv)
  qed
  with Cons show ?case by (simp add: app_run_def)
qed (simp add: app_run_def)

end

section \<open>The registry serves\<close>

abbreviation app_key :: "stub_env \<Rightarrow> int32 \<Rightarrow> uint32 \<Rightarrow> reg_key" where
  "app_key V k m \<equiv> (k, m, sint (CallingTokenID V), CallingPid V)"

definition service_held ::
    "stub_env \<Rightarrow> client \<times> ('sig, 'cell, 'net) service \<Rightarrow> int32 \<Rightarrow> uint32 \<Rightarrow> observer option" where
  "service_held V = (\<lambda>(c, s) k m. Option.bind (registered s (app_key V k m)) telephonyObserver_of)"

definition serving_inv :: "build \<Rightarrow> client \<times> ('sig, 'cell, 'net) service \<Rightarrow> bool" where
  "serving_inv K = (\<lambda>(c, s). codes_ok K \<and> registry_ok K s \<and> observers_ok s)"

lemma held_None:
  assumes "observers_ok s"
  shows "service_held V (c, s) k m = None \<longleftrightarrow> registered s (app_key V k m) = None"
  using assms
  by (cases "registered s (app_key V k m)") (auto simp: service_held_def observers_ok_def dest!: registered_SomeD)

lemma registered_register:
  assumes "registry_ok K s"
  shows "registered (register_key K E b k y s) j =
    (if j = k \<and> may_register K E (fst k) (fst (snd k)) \<and> registered s k = None then Some (new_record k y)
     else registered s j)"
  using reg.lookup_add [OF assms, where k = k and x = "(E, b, y)" and j = j] by simp

lemma registered_unregister:
  assumes "registry_ok K s"
  shows "registered (unregister_key K E k s) j =
    (if j = k \<and> may_unregister K E (fst (snd k)) then None else registered s j)"
  using reg.lookup_del [OF assms, where k = k and y = E and j = j] by simp

lemma registered_update: "registered (fst (snd (run_update K E u s))) = registered s"
  by (rule ext) (simp add: registered_eq run_update_records)

lemma observers_ok_register: "observers_ok s \<Longrightarrow> fst y \<noteq> None \<Longrightarrow> observers_ok (register_key K E b k y s)"
  by (auto simp: observers_ok_def records_register_key)

lemma observers_ok_unregister: "registry_ok K s \<Longrightarrow> observers_ok s \<Longrightarrow> observers_ok (unregister_key K E k s)"
  by (auto simp: observers_ok_def records_unregister_key)

lemma registry_ok_update: "registry_ok K s \<Longrightarrow> registry_ok K (fst (snd (run_update K E u s)))"
  by (simp add: registry_ok_def run_update_records)

lemma service_do_ok:
  assumes "serving_inv K x" and "foreign V e"
  shows "serving_inv K (service_do K e x) \<and> service_held V (service_do K e x) = service_held V x"
proof -
  obtain c s where x: "x = (c, s)" by (cases x)
  have ok: "codes_ok K" "registry_ok K s" "observers_ok s" using assms(1) by (simp_all add: serving_inv_def x)
  show ?thesis
  proof (cases e)
    case (SE_Update E u)
    with ok show ?thesis
      by (simp add: x serving_inv_def service_held_def registered_update registry_ok_update observers_ok_def
          run_update_records)
  next
    case (SE_Register E b k y)
    with ok assms(2) show ?thesis
      by (auto simp: x serving_inv_def service_held_def registered_register registry_ok_register
          observers_ok_register fun_eq_iff)
  next
    case (SE_Unregister E k)
    with ok assms(2) show ?thesis
      by (auto simp: x serving_inv_def service_held_def registered_unregister registry_ok_unregister
          observers_ok_unregister fun_eq_iff)
  qed
qed

interpretation app: serving_registry
  "AddStateObserver K W (service_reg K E V)" "RemoveStateObserver K W (service_unreg K E V)" "service_do K"
  "service_held V" "may_register K E" "foreign V" K "serving_inv K"
  for K W E V
proof
  fix x :: "client \<times> ('a, 'b, 'c) service" and ob k m b j n e
  obtain c s where x: "x = (c, s)" by (cases x)
  assume inv: "serving_inv K x"
  then have ok: "codes_ok K" "registry_ok K s" "observers_ok s" by (simp_all add: serving_inv_def x)
  show "serving_inv K (snd (AddStateObserver K W (service_reg K E V) (Some ob) k m b x))"
    using ok by (simp add: x AddStateObserver_eq serving_inv_def service_reg_state registry_ok_register
        observers_ok_register)
  show "serving_inv K (snd (RemoveStateObserver K W (service_unreg K E V) k m x))"
    using ok by (simp add: x RemoveStateObserver_eq serving_inv_def service_unreg_state registry_ok_unregister
        observers_ok_unregister)
  show "service_held V (snd (AddStateObserver K W (service_reg K E V) (Some ob) k m b x)) j n =
      (if (j, n) = (k, m) \<and> service_held V x k m = None \<and>
          fst (AddStateObserver K W (service_reg K E V) (Some ob) k m b x) = ERR K TELEPHONY_SUCCESS \<and>
          may_register K E k m
       then Some ob else service_held V x j n)"
    using ok service_reg_code [of K E V "Some ob" k m b s] held_None [OF ok(3), of V c k m]
    by (auto simp: x AddStateObserver_eq service_held_def service_reg_state registered_register codes_okD)
  show "service_held V (snd (RemoveStateObserver K W (service_unreg K E V) k m x)) j n = service_held V x j n"
    if "(j, n) \<noteq> (k, m)"
    using that ok by (auto simp: x RemoveStateObserver_eq service_held_def service_unreg_state registered_unregister)
  show "service_held V (snd (RemoveStateObserver K W (service_unreg K E V) k m x)) j n \<in> {None, service_held V x j n}"
    using ok by (auto simp: x RemoveStateObserver_eq service_held_def service_unreg_state registered_unregister)
  show "serving_inv K (service_do K e x)" "service_held V (service_do K e x) = service_held V x" if "foreign V e"
    using service_do_ok [OF inv that] by simp_all
qed

section \<open>From an update to the observer\<close>

lemma inj_event_value:
  assumes "masks_ok K"
  shows "inj (event_value K)"
proof (rule injI)
  fix a b assume "event_value K a = event_value K b"
  moreover have "OBSERVER_MASK K m AND OBSERVER_MASK K m \<noteq> 0" "OBSERVER_MASK K m = OBSERVER_MASK K n \<Longrightarrow> m = n" for m n
    using assms unfolding masks_ok_def by metis+
  ultimately show "a = b" by (auto simp: event_value_def split: option.splits)
qed

text \<open>An update calls the observer of every record that wants it.\<close>

lemma update_calls_record:
  assumes "registered s j = Some r" and "telephonyObserver_of r = Some ob" and "slot_verified s u"
    and "update_allowed E u" and "update_want K E (update_write E u s) u r = Some call"
  shows "Notify ob call \<in> set (snd (snd (run_update K E u s)))"
proof -
  have r: "r \<in> set (stateRecords_of s)" using registered_SomeD [OF assms(1)] by simp
  have "pick_call (update_want K E (update_write E u s) u) r = Some (Notify ob call)"
    using assms(2,5) by (simp add: pick_call_def)
  with r have "Notify ob call \<in> set (deliveries (update_want K E (update_write E u s) u) (stateRecords_of s))"
    by (force simp: deliveries_def map_filter_def)
  with assms(3,4) show ?thesis by (simp add: run_update_eq Let_def)
qed

text \<open>A listener of the table, after any history, has a record in the registry with an observer of the application.\<close>

lemma listener_served:
  assumes run: "app_run K N (AddStateObserver K W (service_reg K E V)) (RemoveStateObserver K W (service_unreg K E V))
      (service_do K) evs (new_handler, c0, s0) = (h, c, s)"
    and start: "codes_ok K" "masks_ok K" "registry_ok K s0" "observers_ok s0"
      "\<And>k m. registered s0 (app_key V k m) = None"
    and may: "\<forall>ev \<in> set evs. may_do K (may_register K E) (foreign V) obs ev"
    and l: "l \<in> set (listenerList_of h)"
  obtains r ob where "registered s (app_key V (l_slotId l) (event_value K (l_eventType l))) = Some r"
    "telephonyObserver_of r = Some ob" "ob \<in> obs"
proof -
  have "app.served V K obs new_handler (c0, s0)"
    unfolding app.served_def using start(5) by (simp add: new_handler_def service_held_def)
  then have "app.served V K obs h (c, s)"
    using app.app_run_served [where hx = "(new_handler, c0, s0)" and W = W and E = E and N = N and obs = obs
        and evs = evs and K = K and V = V] inj_event_value [OF start(2)] start may
    by (simp add: run serving_inv_def)
  with l obtain ob where "service_held V (c, s) (l_slotId l) (event_value K (l_eventType l)) = Some ob" "ob \<in> obs"
    unfolding app.served_def by fastforce
  with that show ?thesis by (auto simp: service_held_def bind_eq_Some_conv)
qed

text \<open>Every call that can be read back has a value in JavaScript.\<close>

lemma readable_image:
  assumes "readable P c"
  obtains v where "js_image L c = Some v"
proof -
  have "None \<notin> set vec" if "signals_ok P vec" for vec
    using that by (auto simp: signals_ok_def list_all_iff split: option.splits)
  moreover have "None \<notin> set vec" if "cells_ok P vec" for vec
    using that by (auto simp: cells_ok_def list_all_iff split: option.splits)
  ultimately have "js_image L c \<noteq> None" using assms by (cases c) (auto simp: all_some_def)
  with that show thesis by blast
qed

end
