(* ===== verification/Iterators.thy ===== *)
theory Iterators
  imports Listener_Cj
begin

text \<open>
  The loops that erase listeners while they walk over the list
  (\<^verbatim>\<open>RemoveEventListenerRegister\<close> in \<^verbatim>\<open>frameworks/js/napi/src/event_listener_handler.cpp\<close>, both overloads, and
  in \<^verbatim>\<open>frameworks/cj/src/observer_event_handler.cpp\<close>), with the iterator as the source has it: \<^verbatim>\<open>erase\<close>
  returns the position after the erased element and the list gets shorter, otherwise the iterator
  moves on. The loop is not structural, so whether it returns is proved here; it then gives the result
  of the structural loops \<open>erase_loop\<close> and \<open>erase_loop_cj\<close>, on which the other theories build.
\<close>

section \<open>The loop\<close>

text \<open>The position of the iterator is \<open>it\<close>; \<open>length ls\<close> is \<^verbatim>\<open>end()\<close>. \<open>None\<close> is a loop that does not return.\<close>

partial_function (option) erase_while ::
    "('l \<Rightarrow> bool) \<Rightarrow> ('l \<Rightarrow> 'a \<Rightarrow> 'a) \<Rightarrow> 'l list \<Rightarrow> nat \<Rightarrow> 'a \<Rightarrow> ('l list \<times> 'a) option" where
  "erase_while sel collect ls it acc =
     (if it = length ls then Some (ls, acc)
      else if sel (ls ! it)
      then erase_while sel collect (take it ls @ drop (Suc it) ls) it (collect (ls ! it) acc)
      else erase_while sel collect ls (Suc it) acc)"

definition RemoveEventListenerRegister_ref_it ::
    "napi \<Rightarrow> nat option \<Rightarrow> event_type \<Rightarrow> nat option \<Rightarrow> handler \<Rightarrow> (handler \<times> EventListener list \<times> int32 list) option" where
  "RemoveEventListenerRegister_ref_it N env eventType ref h =
     map_option (\<lambda>(ls, fl, removed, slots). (h\<lparr>listenerList_of := ls, deleting := fl\<rparr>, removed, slots))
       (erase_while (\<lambda>it. env = l_env it \<and> eventType = l_eventType it \<and>
                          IsCallBackRegister N env ref (l_callbackRef it))
          (\<lambda>it (fl, removed, slots). (SetEventListenerDeleting (l_isDeleting it) fl, removed @ [it],
             set_insert (l_slotId it) slots))
          (listenerList_of h) 0 (deleting h, [], []))"

definition RemoveEventListenerRegister_it ::
    "nat option \<Rightarrow> event_type \<Rightarrow> handler \<Rightarrow> (handler \<times> EventListener list \<times> int32 list) option" where
  "RemoveEventListenerRegister_it env eventType h =
     map_option (\<lambda>(ls, fl, removed, slots). (h\<lparr>listenerList_of := ls, deleting := fl\<rparr>, removed, slots))
       (erase_while (\<lambda>it. env = l_env it \<and> eventType = l_eventType it)
          (\<lambda>it (fl, removed, slots). (SetEventListenerDeleting (l_isDeleting it) fl, removed @ [it],
             set_insert (l_slotId it) slots))
          (listenerList_of h) 0 (deleting h, [], []))"

definition RemoveEventListenerRegister_cj_it ::
    "event_type \<Rightarrow> int64 \<Rightarrow> cj_handler \<Rightarrow> (cj_handler \<times> int32 list) option" where
  "RemoveEventListenerRegister_cj_it eventType funcId h =
     map_option (\<lambda>(ls, fl, slots). (h\<lparr>cj_listenerList := ls, cj_deleting := fl\<rparr>, slots))
       (erase_while (\<lambda>it. eventType = cj_eventType it \<and> (cj_funcId it = funcId \<or> funcId = -1))
          (\<lambda>it (fl, slots). (SetEventListenerDeleting (cj_isDeleting it) fl, set_insert (cj_slotId it) slots))
          (cj_listenerList h) 0 (cj_deleting h, []))"

section \<open>The loop returns\<close>

text \<open>From position \<open>length pre\<close>, after at most as many rounds as there are elements left.\<close>

lemma erase_while_returns:
  "erase_while sel collect (pre @ ls) (length pre) acc =
     Some (pre @ filter (\<lambda>l. \<not> sel l) ls, fold collect (filter sel ls) acc)"
proof (induction ls arbitrary: pre acc)
  case Nil
  then show ?case by (subst erase_while.simps) simp
next
  case (Cons l ls)
  show ?case
  proof (cases "sel l")
    case True
    with Cons [of pre "collect l acc"] show ?thesis by (subst erase_while.simps) simp
  next
    case False
    with Cons [of "pre @ [l]" acc] show ?thesis by (subst erase_while.simps) simp
  qed
qed

lemmas erase_while_all = erase_while_returns [where pre = "[]", simplified]

lemma erase_loop_fold:
  "erase_loop sel ls acc = (filter (\<lambda>l. \<not> sel l) ls,
     fold (\<lambda>it (fl, removed, slots). (SetEventListenerDeleting (l_isDeleting it) fl, removed @ [it],
       set_insert (l_slotId it) slots)) (filter sel ls) acc)"
  by (induction sel ls acc rule: erase_loop.induct) (simp_all add: case_prod_beta Let_def)

lemma erase_loop_cj_fold:
  "erase_loop_cj sel ls acc = (filter (\<lambda>l. \<not> sel l) ls,
     fold (\<lambda>it (fl, slots). (SetEventListenerDeleting (cj_isDeleting it) fl, set_insert (cj_slotId it) slots))
       (filter sel ls) acc)"
  by (induction sel ls acc rule: erase_loop_cj.induct) (simp_all add: case_prod_beta Let_def)

lemma removal_returns:
  "RemoveEventListenerRegister_ref_it N env t ref h = Some (RemoveEventListenerRegister_ref N env t ref h)"
  "RemoveEventListenerRegister_it env t h = Some (RemoveEventListenerRegister env t h)"
  "RemoveEventListenerRegister_cj_it t funcId g = Some (RemoveEventListenerRegister_cj t funcId g)"
  by (simp_all add: RemoveEventListenerRegister_ref_it_def RemoveEventListenerRegister_ref_def
      RemoveEventListenerRegister_it_def RemoveEventListenerRegister_def RemoveEventListenerRegister_cj_it_def
      RemoveEventListenerRegister_cj_def erase_while_all erase_loop_fold erase_loop_cj_fold case_prod_beta Let_def)

end
