(* ===== verification/Entry_Js.thy ===== *)
theory Entry_Js
  imports Listener_Js
begin

text \<open>
  The JavaScript entry points \<^verbatim>\<open>on\<close> and \<^verbatim>\<open>off\<close>
  (\<^verbatim>\<open>frameworks/js/napi/src/napi_state_registry.cpp\<close>) with the manager in front of the listener table
  (\<^verbatim>\<open>event_listener_manager.cpp\<close>): which requests reach the table, which exceptions are thrown, and
  what becomes of the references to the callbacks.
\<close>

section \<open>Definitions\<close>

definition GetEventType :: "string \<Rightarrow> event_type" where
  "GetEventType event = map_of
     [(''networkStateChange'', M_NETWORK_STATE), (''callStateChange'', M_CALL_STATE),
      (''signalInfoChange'', M_SIGNAL_STRENGTHS), (''simStateChange'', M_SIM_STATE),
      (''cellInfoChange'', M_CELL_INFO), (''cellularDataConnectionStateChange'', M_DATA_CONNECTION_STATE),
      (''cellularDataFlowChange'', M_DATA_FLOW), (''cfuIndicatorChange'', M_CFU_INDICATOR),
      (''voiceMailMsgIndicatorChange'', M_VOICE_MAIL_MSG_INDICATOR),
      (''iccAccountInfoChange'', M_ICC_ACCOUNT), (''callStateChangeEx'', M_CALL_STATE_EX),
      (''cCallStateChange'', M_CCALL_STATE), (''simActiveStateChange'', M_SIM_ACTIVE_STATE),
      (''voipStateChange'', M_VOIP_CALL_STATE)] event"

definition IsValidSlotIdEx :: "build \<Rightarrow> event_type \<Rightarrow> int32 \<Rightarrow> bool" where
  "IsValidSlotIdEx K eventType slotId =
     (let defaultSlotId =
            (if eventType = Some M_CALL_STATE \<or> eventType = Some M_CALL_STATE_EX \<or>
                eventType = Some M_CCALL_STATE \<or> eventType = Some M_VOIP_CALL_STATE
             then -1 else DEFAULT_SIM_SLOT_ID K)
      in (slotId \<ge> defaultSlotId \<and> slotId < SIM_SLOT_COUNT K + 1) \<or> slotId = DEFAULT_CONN_SLOT)"

text \<open>
  The arguments of a JavaScript call, as Node-API hands them over: their number, their types, and
  the result of matching the first ones against a layout (\<open>None\<close> when they do not match).
\<close>

datatype valuetype = T_undefined | T_null | T_function | T_object | T_other

datatype layout =
    L_event_callback_object | L_event_object_callback | L_event_callback
  | L_slot_callback | L_callback_object | L_callback

record matched =
  m_event :: string
  m_callback :: "nat option"
  m_slotProperty :: "int32 option"
  m_slot :: int32

record call_args =
  a_count :: nat
  a_typeof :: "nat \<Rightarrow> valuetype"
  a_match :: "nat \<Rightarrow> layout \<Rightarrow> matched option"

record ObserverContext =
  c_slotId :: int32
  c_eventType :: event_type
  c_errorCode :: int32
  c_callbackRef :: "nat option"
  c_resolved :: bool
  c_removeListenerList :: "EventListener list"

definition new_context :: "build \<Rightarrow> ObserverContext" where
  "new_context K = \<lparr>c_slotId = DEFAULT_SIM_SLOT_ID K, c_eventType = None, c_errorCode = 0,
     c_callbackRef = None, c_resolved = False, c_removeListenerList = []\<rparr>"

text \<open>
  What a call does to the JavaScript side. \<open>ThrowError ex code\<close> throws the error that
  \<^verbatim>\<open>ConverErrorMessageCallStateExForJs\<close> (\<open>ex\<close>) or \<^verbatim>\<open>ConverErrorMessageForJs\<close> makes of the code;
  \<open>OutOfBounds\<close> is a read outside an array, after which nothing is known.
\<close>

datatype js_out =
    ThrowParameterError | ThrowPermissionError | ThrowError bool int32 | DeleteReference nat | OutOfBounds

text \<open>The manager: \<open>G\<close> tells whether the handler's singleton exists.\<close>

definition Manager_RegisterEventListener where
  "Manager_RegisterEventListener K N G add ob e = (\<lambda>(h, x).
     if \<not> G then (ERR K TELEPHONY_ERR_LOCAL_PTR_NULL, h, x)
     else RegisterEventListener K N add ob e (h, x))"

definition Manager_UnregisterEventListener_ref where
  "Manager_UnregisterEventListener_ref K N G rem env eventType ref = (\<lambda>(h, x).
     if \<not> G then (ERR K TELEPHONY_ERR_LOCAL_PTR_NULL, [], h, x)
     else UnregisterEventListener_ref K N rem env eventType ref (h, x))"

definition Manager_UnregisterEventListener where
  "Manager_UnregisterEventListener K G rem env eventType = (\<lambda>(h, x).
     if \<not> G then (ERR K TELEPHONY_ERR_LOCAL_PTR_NULL, [], h, x)
     else UnregisterEventListener K rem env eventType (h, x))"

definition Manager_UnRegisterAllListener where
  "Manager_UnRegisterAllListener K G rem env = (\<lambda>(h, x).
     if \<not> G then ((h, x), []) else UnRegisterAllListener K rem env (h, x))"

text \<open>\<open>isDeleting\<close> is the new flag, \<open>ob\<close> the new observer object.\<close>

definition NativeOn where
  "NativeOn K N G add ob isDeleting env ctx = (\<lambda>(h, x).
     if SIM_SLOT_COUNT K = 0 \<and> c_eventType ctx \<noteq> Some M_CALL_STATE \<and>
        c_eventType ctx \<noteq> Some M_CALL_STATE_EX \<and> c_eventType ctx \<noteq> Some M_CCALL_STATE \<and>
        c_eventType ctx \<noteq> Some M_VOIP_CALL_STATE
     then (ctx\<lparr>c_resolved := True\<rparr>, h, x)
     else if \<not> IsValidSlotIdEx K (c_eventType ctx) (c_slotId ctx)
     then (ctx\<lparr>c_errorCode := ERR K ERROR_SLOT_ID_INVALID\<rparr>, h, x)
     else let listener = \<lparr>l_env = env, l_eventType = c_eventType ctx, l_slotId = c_slotId ctx,
                          l_callbackRef = c_callbackRef ctx, l_isDeleting = Some isDeleting\<rparr>;
              (code, h, x) = Manager_RegisterEventListener K N G add ob listener (h, x);
              ctx = ctx\<lparr>c_errorCode := code\<rparr>
          in if c_errorCode ctx = ERR K TELEPHONY_SUCCESS then (ctx\<lparr>c_resolved := True\<rparr>, h, x)
             else (ctx, h, x))"

definition OnCallback :: "build \<Rightarrow> nat option \<Rightarrow> ObserverContext \<Rightarrow> js_out list" where
  "OnCallback K env ctx =
     (if \<not> c_resolved ctx
      then (if c_errorCode ctx = ERR K TELEPHONY_STATE_REGISTRY_PERMISSION_DENIED
            then [ThrowPermissionError]
            else if c_errorCode ctx \<noteq> ERR K TELEPHONY_ERR_CALLBACK_ALREADY_REGISTERED
            then if c_eventType ctx = Some M_CALL_STATE_EX \<or> c_eventType ctx = Some M_CCALL_STATE
                 then [ThrowError True (c_errorCode ctx)]
                 else [ThrowError False (c_errorCode ctx)]
            else []) @
           (case (env, c_callbackRef ctx) of (Some _, Some ref) \<Rightarrow> [DeleteReference ref] | _ \<Rightarrow> [])
      else [])"

text \<open>The two pairs of overloads that read the arguments: of \<^verbatim>\<open>On\<close>, and of the calls without a name.\<close>

definition MatchParametersWithObject ::
    "build \<Rightarrow> call_args \<Rightarrow> nat \<Rightarrow> ObserverContext \<Rightarrow> (string \<times> ObserverContext) option" where
  "MatchParametersWithObject K a parameterCount ctx =
     (let valueTypeTemp = a_typeof a (parameterCount - 1)
      in map_option (\<lambda>m.
           (m_event m, ctx\<lparr>c_callbackRef := m_callback m,
              c_slotId := (case m_slotProperty m of None \<Rightarrow> c_slotId ctx | Some k \<Rightarrow> k)\<rparr>))
           (a_match a parameterCount
              (if valueTypeTemp = T_object then L_event_callback_object else L_event_object_callback)))"

definition MatchParametersWithoutObject ::
    "build \<Rightarrow> call_args \<Rightarrow> nat \<Rightarrow> ObserverContext \<Rightarrow> (string \<times> ObserverContext) option" where
  "MatchParametersWithoutObject K a parameterCount ctx =
     map_option (\<lambda>m.
       let ctx = ctx\<lparr>c_callbackRef := m_callback m\<rparr>; registType = GetEventType (m_event m)
       in (m_event m,
           if registType = Some M_CALL_STATE \<or> registType = Some M_CALL_STATE_EX \<or>
              registType = Some M_VOIP_CALL_STATE
           then ctx\<lparr>c_slotId := -1\<rparr>
           else if registType \<in> set ENABLE_ON_DEFAULT_DATA_EVENT_SET
           then ctx\<lparr>c_slotId := DEFAULT_CONN_SLOT\<rparr> else ctx))
       (a_match a parameterCount L_event_callback)"

definition MatchParametersWithObject_unnamed ::
    "call_args \<Rightarrow> nat \<Rightarrow> ObserverContext \<Rightarrow> ObserverContext option" where
  "MatchParametersWithObject_unnamed a parameterCount ctx =
     (if a_typeof a 0 = T_function \<and> a_typeof a 1 = T_object
      then map_option (\<lambda>m. ctx\<lparr>c_callbackRef := m_callback m,
             c_slotId := (case m_slotProperty m of None \<Rightarrow> c_slotId ctx | Some k \<Rightarrow> k)\<rparr>)
             (a_match a parameterCount L_callback_object)
      else None)"

definition MatchParametersWithoutObject_unnamed ::
    "call_args \<Rightarrow> nat \<Rightarrow> ObserverContext \<Rightarrow> ObserverContext option" where
  "MatchParametersWithoutObject_unnamed a parameterCount ctx =
     (if a_typeof a 0 = T_function
      then map_option (\<lambda>m. ctx\<lparr>c_callbackRef := m_callback m, c_slotId := -1\<rparr>)
             (a_match a parameterCount L_callback)
      else None)"

definition On_js where
  "On_js K N G add ob isDeleting env a = (\<lambda>(h, x).
     let asyncContext = new_context K
     in case (if a_count a = 3 then MatchParametersWithObject K a (a_count a) asyncContext
              else MatchParametersWithoutObject K a (a_count a) asyncContext) of
          None \<Rightarrow> ([ThrowParameterError], h, x)
        | Some (event, ctx) \<Rightarrow>
            let ctx = ctx\<lparr>c_eventType := GetEventType event\<rparr>
            in if c_eventType ctx \<noteq> None
               then let (ctx, h, x) = NativeOn K N G add ob isDeleting env ctx (h, x)
                    in (OnCallback K env ctx, h, x)
               else (ThrowParameterError # OnCallback K env ctx, h, x))"

definition OnSimActiveState where
  "OnSimActiveState K N G add ob isDeleting env a = (\<lambda>(h, x).
     case a_match a (a_count a) L_slot_callback of
       None \<Rightarrow> ([ThrowParameterError], h, x)
     | Some m \<Rightarrow>
         let ctx = (new_context K)\<lparr>c_slotId := m_slot m, c_callbackRef := m_callback m,
                     c_eventType := GetEventType ''simActiveStateChange''\<rparr>
         in if c_eventType ctx \<noteq> None
            then let (ctx, h, x) = NativeOn K N G add ob isDeleting env ctx (h, x)
                 in (OnCallback K env ctx, h, x)
            else ([ThrowParameterError], h, x))"

definition on_unnamed where
  "on_unnamed event K N G add ob isDeleting env a = (\<lambda>(h, x).
     let asyncContext = new_context K
     in case (if a_count a = 2 then MatchParametersWithObject_unnamed a (a_count a) asyncContext
              else MatchParametersWithoutObject_unnamed a (a_count a) asyncContext) of
          None \<Rightarrow> ([ThrowParameterError], h, x)
        | Some ctx \<Rightarrow>
            let ctx = ctx\<lparr>c_eventType := GetEventType event\<rparr>;
                (ctx, h, x) = NativeOn K N G add ob isDeleting env ctx (h, x)
            in (OnCallback K env ctx, h, x))"

definition OnCCallStateChange where
  "OnCCallStateChange = on_unnamed ''cCallStateChange''"

definition OnVoIPStateChange where
  "OnVoIPStateChange = on_unnamed ''voipStateChange''"

definition NativeOff where
  "NativeOff K N G rem env ctx = (\<lambda>(h, x).
     let (code, removed, h, x) =
           (if c_callbackRef ctx = None
            then Manager_UnregisterEventListener K G rem env (c_eventType ctx) (h, x)
            else Manager_UnregisterEventListener_ref K N G rem env (c_eventType ctx) (c_callbackRef ctx) (h, x));
         ctx = ctx\<lparr>c_errorCode := code, c_removeListenerList := c_removeListenerList ctx @ removed\<rparr>
     in if c_errorCode ctx = ERR K TELEPHONY_SUCCESS then (ctx\<lparr>c_resolved := True\<rparr>, h, x)
        else (ctx, h, x))"

definition listener_refs :: "nat option \<Rightarrow> EventListener list \<Rightarrow> js_out list" where
  "listener_refs env ls = concat (map (\<lambda>l.
     case (l_env l, l_callbackRef l) of
       (Some _, Some ref) \<Rightarrow> if env = l_env l then [DeleteReference ref] else [] | _ \<Rightarrow> []) ls)"

definition OffCallback :: "build \<Rightarrow> nat option \<Rightarrow> ObserverContext \<Rightarrow> js_out list" where
  "OffCallback K env ctx =
     listener_refs env (c_removeListenerList ctx) @
     (if \<not> c_resolved ctx
      then if c_errorCode ctx = ERR K TELEPHONY_STATE_REGISTRY_PERMISSION_DENIED
           then [ThrowPermissionError]
           else if c_eventType ctx = Some M_CALL_STATE_EX then [ThrowError True (c_errorCode ctx)]
           else [ThrowError False (c_errorCode ctx)]
      else []) @
     (case (env, c_callbackRef ctx) of (Some _, Some ref) \<Rightarrow> [DeleteReference ref] | _ \<Rightarrow> [])"

text \<open>
  \<^verbatim>\<open>Off\<close> reads the last of the arguments it was called with from an array of two, and Node-API reports
  the number of arguments of the call.
\<close>

definition Off_js where
  "Off_js K N G rem env a = (\<lambda>(h, x).
     if a_count a < 1 \<or> a_count a > 2 then ([OutOfBounds], h, x)
     else let valueTypeTemp = a_typeof a (a_count a - 1);
         parameterCount = (if valueTypeTemp = T_undefined \<or> valueTypeTemp = T_null then 1 else a_count a)
     in case a_match a parameterCount L_event_callback of
          None \<Rightarrow> ([ThrowParameterError], h, x)
        | Some m \<Rightarrow>
            let ctx = (new_context K)\<lparr>c_callbackRef := m_callback m, c_eventType := GetEventType (m_event m)\<rparr>
            in if c_eventType ctx \<noteq> None
               then let (ctx, h, x) = NativeOff K N G rem env ctx (h, x) in (OffCallback K env ctx, h, x)
               else (ThrowParameterError # OffCallback K env ctx, h, x))"

definition off_unnamed where
  "off_unnamed event K N G rem env a = (\<lambda>(h, x).
     let valueTypeTemp = a_typeof a 0
     in if valueTypeTemp = T_undefined \<or> valueTypeTemp = T_null \<or> valueTypeTemp = T_function
        then let ctx = (new_context K)\<lparr>c_eventType := GetEventType event\<rparr>
             in if c_eventType ctx \<noteq> None
                then let (ctx, h, x) = NativeOff K N G rem env ctx (h, x) in (OffCallback K env ctx, h, x)
                else (ThrowParameterError # OffCallback K env ctx, h, x)
        else ([ThrowParameterError], h, x))"

definition OffCCallStateChange where
  "OffCCallStateChange = off_unnamed ''cCallStateChange''"

definition OffVoIPStateChange where
  "OffVoIPStateChange = off_unnamed ''voipStateChange''"

definition OffSimActiveState where
  "OffSimActiveState K N G rem env a = (\<lambda>(h, x).
     let parameterCount =
           (if a_count a = 1 \<and> (a_typeof a 0 = T_undefined \<or> a_typeof a 0 = T_null) then 0 else a_count a)
     in case a_match a parameterCount L_callback of
          None \<Rightarrow> ([ThrowParameterError], h, x)
        | Some m \<Rightarrow>
            let ctx = (new_context K)\<lparr>c_callbackRef := m_callback m,
                        c_eventType := GetEventType ''simActiveStateChange''\<rparr>
            in if c_eventType ctx \<noteq> None
               then let (ctx, h, x) = NativeOff K N G rem env ctx (h, x) in (OffCallback K env ctx, h, x)
               else ([ThrowParameterError], h, x))"

section \<open>Lemmas\<close>

lemma Manager_register_table:
  assumes "Manager_RegisterEventListener K N G add ob e (h, x) = (code, h', x')" and "codes_ok K"
  shows "h' = (if code = ERR K TELEPHONY_SUCCESS then h\<lparr>listenerList_of := listenerList_of h @ [e]\<rparr> else h)"
proof (cases G)
  case True
  then have r: "RegisterEventListener K N add ob e (h, x) = (code, h', x')"
    using assms(1) by (simp add: Manager_RegisterEventListener_def)
  have "code \<noteq> ERR K TELEPHONY_SUCCESS" if "CheckEventListenerRegister N e h = EVENT_LISTENER_SAME"
    using that r codes_okD [OF assms(2)] by (auto simp: RegisterEventListener_def)
  with RegisterEventListener_table [of K N add ob e h x] show ?thesis by (auto simp: r)
next
  case False
  with assms codes_okD [OF assms(2)] show ?thesis by (auto simp: Manager_RegisterEventListener_def)
qed

text \<open>
  The reference of the callback given to \<^verbatim>\<open>on\<close> belongs to a new listener of the table, or it is
  deleted, on a device that supports a SIM card.
\<close>

definition entry_listener :: "nat option \<Rightarrow> ObserverContext \<Rightarrow> nat \<Rightarrow> EventListener" where
  "entry_listener env ctx f = \<lparr>l_env = env, l_eventType = c_eventType ctx, l_slotId = c_slotId ctx,
     l_callbackRef = c_callbackRef ctx, l_isDeleting = Some f\<rparr>"

lemma NativeOn_reference:
  assumes "codes_ok K" and "SIM_SLOT_COUNT K \<noteq> 0" and "\<not> c_resolved ctx" and "c_callbackRef ctx = Some ref"
    and "NativeOn K N G add ob f (Some e) ctx (h, x) = (ctx', h', x')"
  shows "if c_resolved ctx'
    then h' = h\<lparr>listenerList_of := listenerList_of h @ [entry_listener (Some e) ctx f]\<rparr> \<and>
         OnCallback K (Some e) ctx' = []
    else h' = h \<and> DeleteReference ref \<in> set (OnCallback K (Some e) ctx')"
proof (cases "IsValidSlotIdEx K (c_eventType ctx) (c_slotId ctx)")
  case True
  obtain code h1 x1 where reg:
    "Manager_RegisterEventListener K N G add ob (entry_listener (Some e) ctx f) (h, x) = (code, h1, x1)"
    by (cases "Manager_RegisterEventListener K N G add ob (entry_listener (Some e) ctx f) (h, x)") auto
  have "NativeOn K N G add ob f (Some e) ctx (h, x) =
      (let ctx = ctx\<lparr>c_errorCode := code\<rparr>
       in if code = ERR K TELEPHONY_SUCCESS then (ctx\<lparr>c_resolved := True\<rparr>, h1, x1) else (ctx, h1, x1))"
    using True assms(2) reg by (simp add: NativeOn_def entry_listener_def [symmetric])
  with Manager_register_table [OF reg assms(1)] assms(3-5) show ?thesis
    by (cases "code = ERR K TELEPHONY_SUCCESS") (auto simp: OnCallback_def Let_def)
next
  case False
  with assms show ?thesis by (auto simp: NativeOn_def OnCallback_def)
qed

lemma listener_refs_eq:
  "DeleteReference ref \<in> set (listener_refs env ls) \<longleftrightarrow>
     env \<noteq> None \<and> (\<exists>l \<in> set ls. l_env l = env \<and> l_callbackRef l = Some ref)"
proof (induction ls)
  case (Cons l ls)
  then show ?case by (cases env; cases "l_env l"; cases "l_callbackRef l") (auto simp: listener_refs_def)
qed (simp add: listener_refs_def)

text \<open>What \<^verbatim>\<open>off\<close> selects, and what it deletes.\<close>

definition entry_select :: "napi \<Rightarrow> nat option \<Rightarrow> ObserverContext \<Rightarrow> EventListener \<Rightarrow> bool" where
  "entry_select N env ctx = off_select N env (c_eventType ctx)
     (if c_callbackRef ctx = None then None else Some (c_callbackRef ctx))"

lemma NativeOff_table:
  assumes "G" and "NativeOff K N G rem env ctx (h, x) = (ctx', h', x')"
  shows "h' = erase_listeners (entry_select N env ctx) h"
    and "c_removeListenerList ctx' =
      c_removeListenerList ctx @ filter (entry_select N env ctx) (listenerList_of h)"
    and "c_callbackRef ctx' = c_callbackRef ctx"
proof -
  let ?sel = "entry_select N env ctx"
  have "\<exists>code x'. (if c_callbackRef ctx = None
      then Manager_UnregisterEventListener K G rem env (c_eventType ctx) (h, x)
      else Manager_UnregisterEventListener_ref K N G rem env (c_eventType ctx) (c_callbackRef ctx) (h, x)) =
      (code, filter ?sel (listenerList_of h), erase_listeners ?sel h, x')"
  proof (cases "c_callbackRef ctx")
    case None
    show ?thesis
      by (rule UnregisterEventListener_eq [where K = K and N = N and rem = rem and env = env
            and t = "c_eventType ctx" and h = h and x = x])
        (use None assms(1) in \<open>simp add: Manager_UnregisterEventListener_def entry_select_def
          case_prod_beta Let_def\<close>)
  next
    case (Some r)
    show ?thesis
      by (rule UnregisterEventListener_ref_eq [where K = K and N = N and rem = rem and env = env
            and t = "c_eventType ctx" and r = "Some r" and h = h and x = x])
        (use Some assms(1) in \<open>simp add: Manager_UnregisterEventListener_ref_def entry_select_def
          case_prod_beta Let_def\<close>)
  qed
  with assms(2)
  show "h' = erase_listeners ?sel h"
    and "c_removeListenerList ctx' = c_removeListenerList ctx @ filter ?sel (listenerList_of h)"
    and "c_callbackRef ctx' = c_callbackRef ctx"
    by (auto simp: NativeOff_def Let_def split: if_splits)
qed

lemma OffCallback_deletes:
  "DeleteReference ref \<in> set (OffCallback K env ctx) \<longleftrightarrow>
     env \<noteq> None \<and> (c_callbackRef ctx = Some ref \<or>
       (\<exists>l \<in> set (c_removeListenerList ctx). l_env l = env \<and> l_callbackRef l = Some ref))"
  by (auto simp: OffCallback_def listener_refs_eq split: option.splits if_splits)

end
