(* ===== verification/Module_Js.thy ===== *)
theory Module_Js
  imports Entry_Js
begin

text \<open>
  The initialisation of the JavaScript module (end of
  \<^verbatim>\<open>frameworks/js/napi/src/napi_state_registry.cpp\<close>): the functions and constants an application finds on the
  module's object, and the finalizer that removes the listeners of an environment when it ends.
\<close>

section \<open>Definitions\<close>

datatype entry_point =
    EP_On | EP_Off | EP_OnCCallStateChange | EP_OffCCallStateChange | EP_OnSimActiveState
  | EP_OffSimActiveState | EP_OnVoIPStateChange | EP_OffVoIPStateChange

datatype export_value = ExportFunction entry_point | ExportNumber int32

text \<open>
  What the module uses of the engine and of other repositories: the values of the enumerators of
  \<^verbatim>\<open>LockReason\<close>, \<^verbatim>\<open>VoIPCallType\<close> and \<^verbatim>\<open>VoIPCallState\<close>, whether \<^verbatim>\<open>napi_define_properties\<close> succeeds, and whether the
  macro \<^verbatim>\<open>NAPI_CALL\<close> leaves the function after a call with that outcome.
\<close>

record engine =
  LockReason_value :: "string \<Rightarrow> int32"
  VoIPCallType_value :: "string \<Rightarrow> int32"
  VoIPCallState_value :: "string \<Rightarrow> int32"
  DefineProperties :: "(string \<times> export_value) list \<Rightarrow> bool"
  NAPI_CALL_leaves :: "bool \<Rightarrow> bool"

text \<open>The module's object: its properties, the enumeration classes, and whether the finalizer is installed.\<close>

record js_module =
  mod_properties :: "(string \<times> export_value) list"
  mod_classes :: "(string \<times> (string \<times> export_value) list) list"
  mod_finalizer :: bool

definition define_properties ::
    "engine \<Rightarrow> (string \<times> export_value) list \<Rightarrow> js_module \<Rightarrow> bool \<times> js_module" where
  "define_properties J desc exports =
     (if DefineProperties J desc then (True, exports\<lparr>mod_properties := mod_properties exports @ desc\<rparr>)
      else (False, exports))"

definition lock_reason_names :: "string list" where
  "lock_reason_names = [''SIM_NONE'', ''SIM_PIN'', ''SIM_PUK'', ''SIM_PN_PIN'', ''SIM_PN_PUK'', ''SIM_PU_PIN'',
     ''SIM_PU_PUK'', ''SIM_PP_PIN'', ''SIM_PP_PUK'', ''SIM_PC_PIN'', ''SIM_PC_PUK'', ''SIM_SIM_PIN'', ''SIM_SIM_PUK'']"

definition InitEnumLockReason :: "engine \<Rightarrow> js_module \<Rightarrow> bool \<times> js_module" where
  "InitEnumLockReason J exports =
     (let desc = map (\<lambda>n. (n, ExportNumber (LockReason_value J n))) lock_reason_names
      in define_properties J desc (exports\<lparr>mod_classes := mod_classes exports @ [(''LockReason'', desc)]\<rparr>))"

definition voip_type_names :: "string list" where
  "voip_type_names = [''VOICE'', ''VIDEO'']"

definition InitEnumVoIPCallType :: "engine \<Rightarrow> js_module \<Rightarrow> bool \<times> js_module" where
  "InitEnumVoIPCallType J exports =
     (let desc = map (\<lambda>n. (n, ExportNumber (VoIPCallType_value J n))) voip_type_names
      in define_properties J desc (exports\<lparr>mod_classes := mod_classes exports @ [(''VoIPCallType'', desc)]\<rparr>))"

definition voip_state_names :: "string list" where
  "voip_state_names = [''IDLE'', ''INCOMING'', ''OUTGOING'', ''DIALING'', ''ANSWERED'', ''ACTIVE'', ''HOLDING'',
     ''DISCONNECTING'', ''DISCONNECTED'']"

definition InitEnumVoIPCallState :: "engine \<Rightarrow> js_module \<Rightarrow> bool \<times> js_module" where
  "InitEnumVoIPCallState J exports =
     (let desc = map (\<lambda>n. (n, ExportNumber (VoIPCallState_value J n))) voip_state_names
      in define_properties J desc (exports\<lparr>mod_classes := mod_classes exports @ [(''VoIPCallState'', desc)]\<rparr>))"

definition entry_points :: "(string \<times> entry_point) list" where
  "entry_points = [(''on'', EP_On), (''off'', EP_Off), (''onCCallStateChange'', EP_OnCCallStateChange),
     (''offCCallStateChange'', EP_OffCCallStateChange), (''onGetSimActiveState'', EP_OnSimActiveState),
     (''offGetSimActiveState'', EP_OffSimActiveState), (''onVoIPStateChange'', EP_OnVoIPStateChange),
     (''offVoIPStateChange'', EP_OffVoIPStateChange)]"

text \<open>The result is whether the module's object, and not null, is returned.\<close>

definition InitNapiStateRegistry :: "engine \<Rightarrow> js_module \<Rightarrow> bool \<times> js_module" where
  "InitNapiStateRegistry J exports =
     (let (ok, exports) = define_properties J (map (\<lambda>(n, f). (n, ExportFunction f)) entry_points) exports
      in if NAPI_CALL_leaves J ok then (False, exports)
         else let (ok, exports) = InitEnumLockReason J exports
              in if NAPI_CALL_leaves J ok then (False, exports)
                 else let (ok, exports) = InitEnumVoIPCallType J exports
                      in if NAPI_CALL_leaves J ok then (False, exports)
                         else let (ok, exports) = InitEnumVoIPCallState J exports
                              in if NAPI_CALL_leaves J ok then (False, exports)
                                 else (True, exports\<lparr>mod_finalizer := True\<rparr>))"

text \<open>The end of an environment: the finalizer, when it is installed.\<close>

definition end_environment where
  "end_environment K G rem exports env = (\<lambda>(h, x).
     if mod_finalizer exports then fst (Manager_UnRegisterAllListener K G rem env (h, x)) else (h, x))"

section \<open>Lemmas\<close>

definition all_exports :: "engine \<Rightarrow> (string \<times> export_value) list" where
  "all_exports J = map (\<lambda>(n, f). (n, ExportFunction f)) entry_points @
     map (\<lambda>n. (n, ExportNumber (LockReason_value J n))) lock_reason_names @
     map (\<lambda>n. (n, ExportNumber (VoIPCallType_value J n))) voip_type_names @
     map (\<lambda>n. (n, ExportNumber (VoIPCallState_value J n))) voip_state_names"

text \<open>
  Every step of the initialisation succeeds, or the module is not returned: the outcome, for an engine
  whose macro leaves the function exactly after a failure.
\<close>

lemma init_outcome:
  assumes "\<And>ok. NAPI_CALL_leaves J ok = (\<not> ok)"
  shows "fst (InitNapiStateRegistry J exports) \<Longrightarrow>
      mod_properties (snd (InitNapiStateRegistry J exports)) = mod_properties exports @ all_exports J"
    and "mod_finalizer (snd (InitNapiStateRegistry J exports)) =
      (fst (InitNapiStateRegistry J exports) \<or> mod_finalizer exports)"
    and "(\<And>desc. DefineProperties J desc) \<Longrightarrow> fst (InitNapiStateRegistry J exports)"
  by (simp_all add: assms InitNapiStateRegistry_def InitEnumLockReason_def InitEnumVoIPCallType_def
      InitEnumVoIPCallState_def define_properties_def all_exports_def Let_def split: if_split_asm)

text \<open>No name is exported twice, so no constant hides a function or another constant.\<close>

lemma distinct_exports: "distinct (map fst (all_exports J))"
  by (simp add: all_exports_def entry_points_def lock_reason_names_def voip_type_names_def voip_state_names_def)

lemma end_removes:
  assumes "mod_finalizer exports" and "G"
  shows "fst (end_environment K G rem exports env (h, x)) = erase_listeners (\<lambda>l. l_env l = env) h"
  by (rule UnRegisterAllListener_eq [where K = K and rem = rem and env = env and h = h and x = x])
    (use assms in \<open>simp add: end_environment_def Manager_UnRegisterAllListener_def\<close>)

end
