(* ===== verification/Sections.thy ===== *)
theory Sections
  imports Main
begin

text \<open>
  Threads with critical sections under one \<^verbatim>\<open>std::shared_mutex\<close>. A \<open>machine\<close> says what the threads of a
  program do between and inside their sections, one instruction at a time; \<open>fine_run\<close> interleaves the
  instructions of any number of threads, \<open>coarse_run\<close> runs every section as one step. The interface
  \<open>atomic_sections\<close> has the rules a program must keep to (what is done under the shared lock does not
  change the state, what is read without the lock does not depend on what sections write), and shows
  that every interleaving of instructions is then an interleaving of whole sections.
\<close>

section \<open>Machines\<close>

datatype lock_mode = Shared | Unique

text \<open>
  \<open>outer\<close> is a step outside the lock, \<open>wants\<close> the lock a thread waits for, \<open>enter\<close> its state when it has got
  it, \<open>holds\<close> what it holds, \<open>instr\<close> the next instruction of the section (\<open>None\<close> at its end) and \<open>leave\<close> the
  release. Steps outside and releases may tell what was done.
\<close>

record ('l, 's, 'v) machine =
  fresh :: "'l \<Rightarrow> bool"
  outer :: "'l \<Rightarrow> 's \<Rightarrow> ('l \<times> 'v list) option"
  wants :: "'l \<Rightarrow> lock_mode option"
  enter :: "'l \<Rightarrow> 'l"
  holds :: "'l \<Rightarrow> lock_mode option"
  instr :: "'l \<Rightarrow> 's \<Rightarrow> ('l \<times> 's) option"
  leave :: "'l \<Rightarrow> 'l \<times> 'v list"

definition grantable :: "('l, 's, 'v) machine \<Rightarrow> lock_mode \<Rightarrow> 'l list \<Rightarrow> bool" where
  "grantable M m ts \<longleftrightarrow> (\<forall>t \<in> set ts.
     case m of Unique \<Rightarrow> holds M t = None | Shared \<Rightarrow> holds M t \<noteq> Some Unique)"

inductive fine_run :: "('l, 's, 'v) machine \<Rightarrow> 's \<Rightarrow> 'v list \<Rightarrow> 'l list \<times> 's \<Rightarrow> bool" for M s0 where
  fine_start: "fine_run M s0 [] ([], s0)"
| fine_spawn: "fine_run M s0 tr (ts, s) \<Longrightarrow> fresh M l \<Longrightarrow> fine_run M s0 tr (ts @ [l], s)"
| fine_outer: "fine_run M s0 tr (ts, s) \<Longrightarrow> i < length ts \<Longrightarrow> holds M (ts ! i) = None \<Longrightarrow>
     outer M (ts ! i) s = Some (l, vs) \<Longrightarrow> fine_run M s0 (tr @ vs) (ts[i := l], s)"
| fine_enter: "fine_run M s0 tr (ts, s) \<Longrightarrow> i < length ts \<Longrightarrow> wants M (ts ! i) = Some m \<Longrightarrow>
     grantable M m ts \<Longrightarrow> fine_run M s0 tr (ts[i := enter M (ts ! i)], s)"
| fine_instr: "fine_run M s0 tr (ts, s) \<Longrightarrow> i < length ts \<Longrightarrow> holds M (ts ! i) = Some m \<Longrightarrow>
     instr M (ts ! i) s = Some (l, s') \<Longrightarrow> fine_run M s0 tr (ts[i := l], s')"
| fine_leave: "fine_run M s0 tr (ts, s) \<Longrightarrow> i < length ts \<Longrightarrow> holds M (ts ! i) = Some m \<Longrightarrow>
     instr M (ts ! i) s = None \<Longrightarrow> leave M (ts ! i) = (l, vs) \<Longrightarrow> fine_run M s0 (tr @ vs) (ts[i := l], s)"

inductive in_section :: "('l, 's, 'v) machine \<Rightarrow> 'l \<times> 's \<Rightarrow> 'l \<times> 's \<Rightarrow> bool" for M where
  at_start: "in_section M p p"
| further: "in_section M p (l, s) \<Longrightarrow> instr M l s = Some q \<Longrightarrow> in_section M p q"

inductive coarse_run :: "('l, 's, 'v) machine \<Rightarrow> 's \<Rightarrow> 'v list \<Rightarrow> 'l list \<times> 's \<Rightarrow> bool" for M s0 where
  coarse_start: "coarse_run M s0 [] ([], s0)"
| coarse_spawn: "coarse_run M s0 tr (ts, s) \<Longrightarrow> fresh M l \<Longrightarrow> coarse_run M s0 tr (ts @ [l], s)"
| coarse_outer: "coarse_run M s0 tr (ts, s) \<Longrightarrow> i < length ts \<Longrightarrow> holds M (ts ! i) = None \<Longrightarrow>
     outer M (ts ! i) s = Some (l, vs) \<Longrightarrow> coarse_run M s0 (tr @ vs) (ts[i := l], s)"
| coarse_section: "coarse_run M s0 tr (ts, s) \<Longrightarrow> i < length ts \<Longrightarrow> wants M (ts ! i) = Some m \<Longrightarrow>
     in_section M (enter M (ts ! i), s) (l, s') \<Longrightarrow> instr M l s' = None \<Longrightarrow> leave M l = (l', vs) \<Longrightarrow>
     coarse_run M s0 (tr @ vs) (ts[i := l'], s')"

section \<open>The rules of locking\<close>

text \<open>
  \<open>ok\<close> is what a thread may rely on at each point of its program, \<open>static\<close> the part of the state no
  section changes.
\<close>

locale atomic_sections =
  fixes M :: "('l, 's, 'v) machine" and ok :: "'l \<Rightarrow> 's \<Rightarrow> bool" and static :: "'s \<Rightarrow> 'c"
  assumes holds_fresh: "fresh M l \<Longrightarrow> holds M l = None"
    and holds_outer: "outer M l s = Some (l', vs) \<Longrightarrow> holds M l' = None"
    and holds_wants: "wants M l = Some m \<Longrightarrow> holds M l = None"
    and holds_enter: "wants M l = Some m \<Longrightarrow> holds M (enter M l) = Some m"
    and holds_instr: "instr M l s = Some (l', s') \<Longrightarrow> holds M l' = holds M l"
    and holds_leave: "holds M l = Some m \<Longrightarrow> leave M l = (l', vs) \<Longrightarrow> holds M l' = None"
    and ok_fresh: "fresh M l \<Longrightarrow> ok l s"
    and ok_outer: "ok l s \<Longrightarrow> outer M l s = Some (l', vs) \<Longrightarrow> ok l' s"
    and ok_enter: "ok l s \<Longrightarrow> wants M l = Some m \<Longrightarrow> ok (enter M l) s"
    and ok_instr: "ok l s \<Longrightarrow> instr M l s = Some (l', s') \<Longrightarrow> ok l' s'"
    and ok_leave: "ok l s \<Longrightarrow> holds M l = Some m \<Longrightarrow> instr M l s = None \<Longrightarrow> leave M l = (l', vs) \<Longrightarrow> ok l' s"
    and ok_others: "ok l s \<Longrightarrow> holds M l = None \<Longrightarrow> ok k s \<Longrightarrow> instr M k s = Some (k', s') \<Longrightarrow> ok l s'"
    and shared_reads: "ok l s \<Longrightarrow> holds M l = Some Shared \<Longrightarrow> instr M l s = Some (l', s') \<Longrightarrow> s' = s"
    and static_instr: "ok l s \<Longrightarrow> instr M l s = Some (l', s') \<Longrightarrow> static s' = static s"
    and outer_static: "static s = static s' \<Longrightarrow> outer M l s = outer M l s'"
begin

text \<open>
  A thread that is inside a section is, in the coarse system, still in front of it, and the
  instructions it has executed lead from there to where it is.
\<close>

definition thread_sim :: "'s \<Rightarrow> 's \<Rightarrow> 'l \<Rightarrow> 'l \<Rightarrow> bool" where
  "thread_sim s s' t t' \<longleftrightarrow> ok t s \<and>
     (if holds M t = None then t' = t
      else wants M t' = holds M t \<and> in_section M (enter M t', s') (t, s))"

definition exclusive :: "'l list \<Rightarrow> bool" where
  "exclusive ts \<longleftrightarrow> (\<forall>i < length ts. \<forall>j < length ts. i \<noteq> j \<longrightarrow> holds M (ts ! i) = Some Unique \<longrightarrow>
     holds M (ts ! j) = None)"

definition no_writer :: "'l list \<Rightarrow> bool" where
  "no_writer ts \<longleftrightarrow> (\<forall>t \<in> set ts. holds M t \<noteq> Some Unique)"

definition sim :: "'l list \<times> 's \<Rightarrow> 'l list \<times> 's \<Rightarrow> bool" where
  "sim = (\<lambda>(ts, s) (ts', s'). list_all2 (thread_sim s s') ts ts' \<and> exclusive ts \<and>
     static s = static s' \<and> (no_writer ts \<longrightarrow> s = s'))"

lemma exclusiveI:
  assumes "\<And>i j. i < length ts \<Longrightarrow> j < length ts \<Longrightarrow> i \<noteq> j \<Longrightarrow> holds M (ts ! i) = Some Unique \<Longrightarrow>
    holds M (ts ! j) = None"
  shows "exclusive ts"
  unfolding exclusive_def using assms by blast

lemma exclusiveD:
  "exclusive ts \<Longrightarrow> i < length ts \<Longrightarrow> holds M (ts ! i) = Some Unique \<Longrightarrow> j < length ts \<Longrightarrow> i \<noteq> j \<Longrightarrow>
    holds M (ts ! j) = None"
  unfolding exclusive_def by blast

lemma exclusive_update:
  assumes "exclusive ts" and "i < length ts" and "holds M l = holds M (ts ! i) \<or> holds M l = None"
  shows "exclusive (ts[i := l])"
proof (rule exclusiveI)
  fix j k
  assume *: "j < length (ts[i := l])" "k < length (ts[i := l])" "j \<noteq> k" "holds M (ts[i := l] ! j) = Some Unique"
  then have "holds M (ts ! j) = Some Unique" using assms(2,3) by (cases "j = i") auto
  with * have "holds M (ts ! k) = None" using exclusiveD [OF assms(1), of j k] by simp
  with * assms(2,3) show "holds M (ts[i := l] ! k) = None" by (cases "k = i") auto
qed

lemma exclusive_enter:
  assumes "grantable M m ts" and "i < length ts" and "holds M l = Some m" and "exclusive ts"
  shows "exclusive (ts[i := l])"
proof (rule exclusiveI)
  fix j k
  assume *: "j < length (ts[i := l])" "k < length (ts[i := l])" "j \<noteq> k" "holds M (ts[i := l] ! j) = Some Unique"
  have "holds M (ts ! j) \<noteq> Some Unique" if "j < length ts" for j
    using assms(1) that by (cases m) (auto simp: grantable_def all_set_conv_all_nth)
  with * have "j = i" by (cases "j = i") auto
  with * assms show "holds M (ts[i := l] ! k) = None"
    by (auto simp: grantable_def all_set_conv_all_nth)
qed

lemma no_writer_nth: "no_writer ts \<longleftrightarrow> (\<forall>i < length ts. holds M (ts ! i) \<noteq> Some Unique)"
  by (simp add: no_writer_def all_set_conv_all_nth)

lemma no_writer_grantable: "grantable M m ts \<Longrightarrow> no_writer ts"
  by (cases m) (auto simp: grantable_def no_writer_def)

lemma no_writer_update:
  assumes "no_writer (ts[i := l])" and "i < length ts" and "holds M l = holds M (ts ! i)"
  shows "no_writer ts"
  unfolding no_writer_nth
proof (intro allI impI)
  fix j assume "j < length ts"
  with assms show "holds M (ts ! j) \<noteq> Some Unique"
    by (cases "j = i") (auto simp: no_writer_nth dest: spec [of _ j])
qed

text \<open>Beside a thread that holds the lock, no one writes.\<close>

lemma exclusive_no_writer:
  assumes "exclusive ts" and "i < length ts" and "holds M (ts ! i) = Some m"
    and "j < length ts" and "j \<noteq> i" and "holds M (ts ! j) \<noteq> None"
  shows "no_writer ts"
  unfolding no_writer_nth
proof (intro allI impI notI)
  fix k assume "k < length ts" "holds M (ts ! k) = Some Unique"
  with exclusiveD [OF assms(1), of k] assms(2-6) show False by (cases "k = i") auto
qed

lemma thread_sim_out: "thread_sim s s' t t' \<Longrightarrow> holds M t = None \<Longrightarrow> t' = t"
  by (simp add: thread_sim_def)

lemma thread_sim_in:
  "thread_sim s s' t t' \<Longrightarrow> holds M t = Some m \<Longrightarrow> wants M t' = Some m \<and> in_section M (enter M t', s') (t, s)"
  by (simp add: thread_sim_def)

lemma thread_sim_ok: "thread_sim s s' t t' \<Longrightarrow> ok t s"
  by (simp add: thread_sim_def)

lemma list_all2_updateI:
  assumes "list_all2 P xs ys" and "i < length xs" and "Q x y"
    and "\<And>j. j < length xs \<Longrightarrow> j \<noteq> i \<Longrightarrow> P (xs ! j) (ys ! j) \<Longrightarrow> Q (xs ! j) (ys ! j)"
  shows "list_all2 Q (xs[i := x]) (ys[i := y])"
  using assms by (auto simp: list_all2_conv_all_nth nth_list_update)

lemma sim_outer:
  assumes "sim (ts, s) (ts', s')" and "i < length ts" and "holds M (ts ! i) = None"
    and "outer M (ts ! i) s = Some (l, vs)"
  shows "sim (ts[i := l], s) (ts'[i := l], s')"
proof -
  from assms(1) have R: "list_all2 (thread_sim s s') ts ts'" and "exclusive ts" and "static s = static s'"
    and w: "no_writer ts \<longrightarrow> s = s'" by (auto simp: sim_def)
  have hl: "holds M l = None" by (rule holds_outer [OF assms(4)])
  have "ok (ts ! i) s" using R assms(2) by (simp add: list_all2_conv_all_nth thread_sim_def)
  then have "thread_sim s s' l l" using hl ok_outer [OF _ assms(4)] by (simp add: thread_sim_def)
  then have "list_all2 (thread_sim s s') (ts[i := l]) (ts'[i := l])"
    by (rule list_all2_updateI [OF R assms(2)])
  moreover have "no_writer ts" if "no_writer (ts[i := l])"
    using no_writer_update [OF that assms(2)] hl assms(3) by simp
  ultimately show ?thesis
    using exclusive_update [OF \<open>exclusive ts\<close> assms(2)] hl w \<open>static s = static s'\<close> by (simp add: sim_def)
qed

lemma sim_enter:
  assumes "sim (ts, s) (ts', s')" and i: "i < length ts" and w: "wants M (ts ! i) = Some m"
    and g: "grantable M m ts"
  shows "sim (ts[i := enter M (ts ! i)], s) (ts', s')"
proof -
  from assms(1) have R: "list_all2 (thread_sim s s') ts ts'" and "exclusive ts"
    and eq: "s = s'" using no_writer_grantable [OF g] by (auto simp: sim_def)
  have ti: "thread_sim s s' (ts ! i) (ts' ! i)" using R i by (simp add: list_all2_conv_all_nth)
  then have "thread_sim s s' (enter M (ts ! i)) (ts' ! i)"
    using thread_sim_out [OF ti holds_wants [OF w]] holds_enter [OF w] w eq ok_enter [OF thread_sim_ok [OF ti] w]
    by (simp add: thread_sim_def in_section.at_start)
  then have "list_all2 (thread_sim s s') (ts[i := enter M (ts ! i)]) (ts'[i := ts' ! i])"
    by (rule list_all2_updateI [OF R i])
  then show ?thesis
    using exclusive_enter [OF g i holds_enter [OF w] \<open>exclusive ts\<close>] eq by (simp add: sim_def)
qed

lemma sim_instr:
  assumes "sim (ts, s) (ts', s')" and i: "i < length ts" and h: "holds M (ts ! i) = Some m"
    and step: "instr M (ts ! i) s = Some (l, t)"
  shows "sim (ts[i := l], t) (ts', s')"
proof -
  from assms(1) have R: "list_all2 (thread_sim s s') ts ts'" and ex: "exclusive ts" and st: "static s = static s'"
    and w: "no_writer ts \<longrightarrow> s = s'" by (auto simp: sim_def)
  have at: "thread_sim s s' (ts ! j) (ts' ! j)" if "j < length ts" for j
    using R that by (simp add: list_all2_conv_all_nth)
  note oki = thread_sim_ok [OF at [OF i]]
  have hl: "holds M l = Some m" using holds_instr [OF step] h by simp
  have same: "t = s" if "m = Shared" using shared_reads [OF oki _ step] h that by simp
  have "thread_sim t s' l (ts' ! i)"
    using thread_sim_in [OF at [OF i] h] in_section.further [OF _ step] hl ok_instr [OF oki step]
    by (auto simp: thread_sim_def)
  moreover have "thread_sim t s' (ts ! j) (ts' ! j)" if "j < length ts" "j \<noteq> i" for j
  proof (cases "holds M (ts ! j)")
    case None
    then show ?thesis
      using at [OF that(1)] ok_others [OF thread_sim_ok [OF at [OF that(1)]] None oki step]
      by (simp add: thread_sim_def)
  next
    case (Some n)
    then have "m = Shared" using exclusiveD [OF ex i _ that(1)] that(2) h by (cases m) auto
    then show ?thesis using same at [OF that(1)] by simp
  qed
  ultimately have "list_all2 (thread_sim t s') (ts[i := l]) (ts'[i := ts' ! i])"
    by (intro list_all2_updateI [OF R i])
  moreover have "t = s'" if nw: "no_writer (ts[i := l])"
  proof -
    have "s = s'" using w no_writer_update [OF nw i] hl h by simp
    moreover have "holds M l \<noteq> Some Unique" using nw i by (auto simp: no_writer_nth dest: spec [of _ i])
    ultimately show ?thesis using hl same by (cases m) auto
  qed
  ultimately show ?thesis
    using exclusive_update [OF ex i] hl h st static_instr [OF oki step] by (simp add: sim_def)
qed

text \<open>The release is where the coarse system runs the section.\<close>

lemma sim_leave:
  assumes "sim (ts, s) (ts', s')" and i: "i < length ts" and h: "holds M (ts ! i) = Some m"
    and fin: "instr M (ts ! i) s = None" and lv: "leave M (ts ! i) = (l, vs)"
  shows "sim (ts[i := l], s) (ts'[i := l], s)"
proof -
  from assms(1) have R: "list_all2 (thread_sim s s') ts ts'" and ex: "exclusive ts"
    and w: "no_writer ts \<longrightarrow> s = s'" by (auto simp: sim_def)
  have hl: "holds M l = None" by (rule holds_leave [OF h lv])
  have "ok (ts ! i) s" using R i by (simp add: list_all2_conv_all_nth thread_sim_def)
  then have "thread_sim s s l l" using hl ok_leave [OF _ h fin lv] by (simp add: thread_sim_def)
  moreover have "thread_sim s s (ts ! j) (ts' ! j)"
    if "j < length ts" "j \<noteq> i" "thread_sim s s' (ts ! j) (ts' ! j)" for j
  proof (cases "holds M (ts ! j)")
    case None
    then show ?thesis using that(3) by (simp add: thread_sim_def)
  next
    case (Some n)
    then have "s = s'" using w exclusive_no_writer [OF ex i h that(1,2)] by simp
    then show ?thesis using that(3) by simp
  qed
  ultimately have "list_all2 (thread_sim s s) (ts[i := l]) (ts'[i := l])"
    by (intro list_all2_updateI [OF R i])
  then show ?thesis using exclusive_update [OF ex i] hl by (simp add: sim_def)
qed

lemma sim_spawn:
  assumes "sim (ts, s) (ts', s')" and "fresh M l"
  shows "sim (ts @ [l], s) (ts' @ [l], s')"
proof -
  have hl: "holds M l = None" by (rule holds_fresh [OF assms(2)])
  have "exclusive (ts @ [l])" if "exclusive ts"
  proof (rule exclusiveI)
    fix i j
    assume *: "i < length (ts @ [l])" "j < length (ts @ [l])" "i \<noteq> j" "holds M ((ts @ [l]) ! i) = Some Unique"
    then have "i < length ts" using hl by (cases "i = length ts") auto
    with * exclusiveD [OF that, of i j] hl show "holds M ((ts @ [l]) ! j) = None"
      by (cases "j = length ts") (auto simp: nth_append)
  qed
  moreover have "thread_sim s s' l l" using hl ok_fresh [OF assms(2)] by (simp add: thread_sim_def)
  ultimately show ?thesis
    using assms(1) hl by (auto simp: sim_def no_writer_def intro: list_all2_appendI)
qed

theorem sections_refine:
  assumes "fine_run M s0 tr (ts, s)"
  shows "\<exists>ts' s'. coarse_run M s0 tr (ts', s') \<and> sim (ts, s) (ts', s')"
  using assms
proof (induction tr "(ts, s)" arbitrary: ts s rule: fine_run.induct)
  case fine_start
  have "sim ([], s0) ([], s0)" by (simp add: sim_def exclusive_def)
  then show ?case using coarse_run.coarse_start [of M s0] by (intro exI conjI)
next
  case (fine_spawn tr ts s l)
  then obtain ts' s' where c: "coarse_run M s0 tr (ts', s')" and R: "sim (ts, s) (ts', s')" by blast
  from coarse_run.coarse_spawn [OF c fine_spawn.hyps(3)] sim_spawn [OF R fine_spawn.hyps(3)]
  show ?case by blast
next
  case (fine_outer tr ts s i l vs)
  then obtain ts' s' where c: "coarse_run M s0 tr (ts', s')" and R: "sim (ts, s) (ts', s')" by blast
  then have len: "length ts' = length ts" and st: "static s = static s'"
    and at: "thread_sim s s' (ts ! i) (ts' ! i)"
    using fine_outer.hyps(3) by (auto simp: sim_def list_all2_conv_all_nth)
  have "ts' ! i = ts ! i" by (rule thread_sim_out [OF at fine_outer.hyps(4)])
  then have "coarse_run M s0 (tr @ vs) (ts'[i := l], s')"
    using coarse_run.coarse_outer [OF c, of i l vs] fine_outer.hyps len outer_static [OF st] by simp
  with sim_outer [OF R fine_outer.hyps(3-5)] show ?case by blast
next
  case (fine_enter tr ts s i m)
  then show ?case using sim_enter by blast
next
  case (fine_instr tr ts s i m l s')
  then show ?case using sim_instr by blast
next
  case (fine_leave tr ts s i m l vs)
  then obtain ts' s' where c: "coarse_run M s0 tr (ts', s')" and R: "sim (ts, s) (ts', s')" by blast
  then have "i < length ts'" and "thread_sim s s' (ts ! i) (ts' ! i)"
    using fine_leave.hyps(3) by (auto simp: sim_def list_all2_conv_all_nth)
  with thread_sim_in [OF _ fine_leave.hyps(4)] coarse_run.coarse_section [OF c _ _ _ fine_leave.hyps(5,6)]
  have "coarse_run M s0 (tr @ vs) (ts'[i := l], s)" by blast
  with sim_leave [OF R fine_leave.hyps(3-6)] show ?case by blast
qed

text \<open>Conversely, threads that run their sections one after the other are one of the interleavings.\<close>

lemma fine_in_section:
  assumes "in_section M p q" and "fine_run M s0 tr (ts[i := fst p], snd p)" and "i < length ts"
    and "holds M (fst p) = Some m"
  shows "fine_run M s0 tr (ts[i := fst q], snd q) \<and> holds M (fst q) = Some m"
  using assms
proof (induction rule: in_section.induct)
  case (further p l s q)
  then have "fine_run M s0 tr (ts[i := l], s)" and h: "holds M l = Some m" by auto
  from fine_run.fine_instr [OF this(1), of i m "fst q" "snd q"] further.hyps(2) further.prems(2) h
    holds_instr [of l s "fst q" "snd q"]
  show ?case by simp
qed simp

theorem coarse_fine:
  assumes "coarse_run M s0 tr (ts, s)"
  shows "fine_run M s0 tr (ts, s) \<and> (\<forall>t \<in> set ts. holds M t = None)"
  using assms
proof (induction tr "(ts, s)" arbitrary: ts s rule: coarse_run.induct)
  case coarse_start
  then show ?case by (simp add: fine_run.fine_start)
next
  case (coarse_spawn tr ts s l)
  then show ?case using fine_run.fine_spawn [of M s0 tr ts s l] holds_fresh by simp
next
  case (coarse_outer tr ts s i l vs)
  then show ?case
    using fine_run.fine_outer [of M s0 tr ts s i l vs] holds_outer set_update_subset_insert by (metis insertE subsetD)
next
  case (coarse_section tr ts s i m l s' l' vs)
  then have f: "fine_run M s0 tr (ts, s)" and out: "\<forall>t \<in> set ts. holds M t = None" by auto
  have "grantable M m ts" using out by (cases m) (simp_all add: grantable_def)
  note e = fine_run.fine_enter [OF f coarse_section.hyps(3,4) this]
  have "fine_run M s0 tr (ts[i := l], s')" and h: "holds M l = Some m"
    using fine_in_section [OF coarse_section.hyps(5), of s0 tr ts i m] e coarse_section.hyps(3)
      holds_enter [OF coarse_section.hyps(4)] by auto
  from fine_run.fine_leave [OF this(1), of i m l' vs] h coarse_section.hyps
  have "fine_run M s0 (tr @ vs) (ts[i := l'], s')" by simp
  moreover have "holds M l' = None" using holds_leave [OF h] coarse_section.hyps(7) by simp
  ultimately show ?case using out set_update_subset_insert by (metis insertE subsetD)
qed

end

end
