(* ===== verification/Locking.thy ===== *)
theory Locking
  imports Sections
begin

text \<open>
  Locks, deadlocks and data races. An operation is the list of what it does to locks and fields, in
  order; \<open>lock_step\<close> interleaves any number of them. A shared lock is not granted while another thread waits
  for the unique one, as \<^verbatim>\<open>std::shared_mutex\<close> of libc++ has it, and no lock is recursive. The interface
  \<open>lock_protocol\<close> asks that every operation takes locks in increasing order and gives them back, and shows that no set of
  operations then gets stuck and that all of them return; \<open>race_protocol\<close> asks that fields are accessed
  under their lock, and shows that no two accesses conflict.
\<close>

section \<open>Operations and their interleaving\<close>

datatype ('k, 'f) lock_action =
    Acquire 'k lock_mode
  | Release 'k
  | ReadField 'f
  | WriteField 'f

record ('k, 'f) lock_thread =
  todo :: "('k, 'f) lock_action list"
  held :: "('k \<times> lock_mode) list"
  waiting :: bool

definition new_thread :: "('k, 'f) lock_action list \<Rightarrow> ('k, 'f) lock_thread" where
  "new_thread p = \<lparr>todo = p, held = [], waiting = False\<rparr>"

fun drop_lock :: "'k \<Rightarrow> ('k \<times> lock_mode) list \<Rightarrow> ('k \<times> lock_mode) list" where
  "drop_lock k [] = []"
| "drop_lock k ((k', m) # hs) = (if k' = k then hs else (k', m) # drop_lock k hs)"

definition waits_unique :: "'k \<Rightarrow> ('k, 'f) lock_thread \<Rightarrow> bool" where
  "waits_unique k t \<longleftrightarrow> waiting t \<and> (\<exists>p. todo t = Acquire k Unique # p)"

definition lock_free :: "('k, 'f) lock_thread list \<Rightarrow> nat \<Rightarrow> 'k \<Rightarrow> lock_mode \<Rightarrow> bool" where
  "lock_free ts i k m = (case m of
     Unique \<Rightarrow> (\<forall>t \<in> set ts. k \<notin> fst ` set (held t))
   | Shared \<Rightarrow> (\<forall>t \<in> set ts. (k, Unique) \<notin> set (held t)) \<and>
       (\<forall>j < length ts. j \<noteq> i \<longrightarrow> \<not> waits_unique k (ts ! j)))"

inductive lock_step :: "('k, 'f) lock_thread list \<Rightarrow> ('k, 'f) lock_thread list \<Rightarrow> bool" where
  arrive: "i < length ts \<Longrightarrow> todo (ts ! i) = Acquire k m # p \<Longrightarrow> \<not> waiting (ts ! i) \<Longrightarrow>
     lock_step ts (ts[i := (ts ! i)\<lparr>waiting := True\<rparr>])"
| acquire: "i < length ts \<Longrightarrow> todo (ts ! i) = Acquire k m # p \<Longrightarrow> waiting (ts ! i) \<Longrightarrow> lock_free ts i k m \<Longrightarrow>
     lock_step ts (ts[i := \<lparr>todo = p, held = (k, m) # held (ts ! i), waiting = False\<rparr>])"
| release: "i < length ts \<Longrightarrow> todo (ts ! i) = Release k # p \<Longrightarrow>
     lock_step ts (ts[i := \<lparr>todo = p, held = drop_lock k (held (ts ! i)), waiting = False\<rparr>])"
| read_field: "i < length ts \<Longrightarrow> todo (ts ! i) = ReadField f # p \<Longrightarrow>
     lock_step ts (ts[i := \<lparr>todo = p, held = held (ts ! i), waiting = False\<rparr>])"
| write_field: "i < length ts \<Longrightarrow> todo (ts ! i) = WriteField f # p \<Longrightarrow>
     lock_step ts (ts[i := \<lparr>todo = p, held = held (ts ! i), waiting = False\<rparr>])"

text \<open>Operations of \<open>Ps\<close> are started at any time.\<close>

inductive lock_run :: "('k, 'f) lock_action list set \<Rightarrow> ('k, 'f) lock_thread list \<Rightarrow> bool" for Ps where
  no_threads: "lock_run Ps []"
| start_thread: "lock_run Ps ts \<Longrightarrow> p \<in> Ps \<Longrightarrow> lock_run Ps (ts @ [new_thread p])"
| thread_step: "lock_run Ps ts \<Longrightarrow> lock_step ts ts' \<Longrightarrow> lock_run Ps ts'"

definition finished :: "('k, 'f) lock_thread list \<Rightarrow> bool" where
  "finished ts \<longleftrightarrow> (\<forall>t \<in> set ts. todo t = [])"

definition deadlock :: "('k, 'f) lock_thread list \<Rightarrow> bool" where
  "deadlock ts \<longleftrightarrow> \<not> finished ts \<and> (\<forall>ts'. \<not> lock_step ts ts')"

definition data_race :: "'f \<Rightarrow> ('k, 'f) lock_thread list \<Rightarrow> bool" where
  "data_race f ts \<longleftrightarrow> (\<exists>i < length ts. \<exists>j < length ts. i \<noteq> j \<and> (\<exists>p. todo (ts ! i) = WriteField f # p) \<and>
     (\<exists>p. todo (ts ! j) \<in> {WriteField f # p, ReadField f # p}))"

section \<open>What a thread may do\<close>

fun ordered :: "('k \<Rightarrow> nat) \<Rightarrow> ('k \<times> lock_mode) list \<Rightarrow> ('k, 'f) lock_action list \<Rightarrow> bool" where
  "ordered rank hs [] \<longleftrightarrow> True"
| "ordered rank hs (Acquire k m # p) \<longleftrightarrow> (\<forall>h \<in> set hs. rank (fst h) < rank k) \<and> ordered rank ((k, m) # hs) p"
| "ordered rank hs (Release k # p) \<longleftrightarrow> k \<in> fst ` set hs \<and> ordered rank (drop_lock k hs) p"
| "ordered rank hs (ReadField f # p) \<longleftrightarrow> ordered rank hs p"
| "ordered rank hs (WriteField f # p) \<longleftrightarrow> ordered rank hs p"

datatype 'k protection = Guard 'k | Constant | Unprotected

fun guarded :: "('f \<Rightarrow> 'k protection) \<Rightarrow> ('k \<times> lock_mode) list \<Rightarrow> ('k, 'f) lock_action list \<Rightarrow> bool" where
  "guarded prot hs [] \<longleftrightarrow> True"
| "guarded prot hs (Acquire k m # p) \<longleftrightarrow> guarded prot ((k, m) # hs) p"
| "guarded prot hs (Release k # p) \<longleftrightarrow> guarded prot (drop_lock k hs) p"
| "guarded prot hs (ReadField f # p) \<longleftrightarrow>
     (case prot f of Guard k \<Rightarrow> k \<in> fst ` set hs | _ \<Rightarrow> True) \<and> guarded prot hs p"
| "guarded prot hs (WriteField f # p) \<longleftrightarrow>
     (case prot f of Guard k \<Rightarrow> (k, Unique) \<in> set hs | Constant \<Rightarrow> False | Unprotected \<Rightarrow> True) \<and> guarded prot hs p"

text \<open>An operation that keeps to the rules and gives back its locks can be followed by another.\<close>

fun held_after :: "('k \<times> lock_mode) list \<Rightarrow> ('k, 'f) lock_action list \<Rightarrow> ('k \<times> lock_mode) list" where
  "held_after hs [] = hs"
| "held_after hs (Acquire k m # p) = held_after ((k, m) # hs) p"
| "held_after hs (Release k # p) = held_after (drop_lock k hs) p"
| "held_after hs (_ # p) = held_after hs p"

lemma guarded_append: "guarded prot hs (p @ q) \<longleftrightarrow> guarded prot hs p \<and> guarded prot (held_after hs p) q"
  by (induction hs p rule: held_after.induct) auto

lemma held_after_append: "held_after hs (p @ q) = held_after (held_after hs p) q"
  by (induction hs p rule: held_after.induct) auto

lemma ordered_append: "ordered rank hs (p @ q) \<longleftrightarrow> ordered rank hs p \<and> ordered rank (held_after hs p) q"
  by (induction hs p rule: held_after.induct) auto

lemma drop_lock_subset: "set (drop_lock k hs) \<subseteq> set hs"
  by (induction k hs rule: drop_lock.induct) auto

section \<open>Mutual exclusion\<close>

definition excludes :: "('k, 'f) lock_thread list \<Rightarrow> bool" where
  "excludes ts \<longleftrightarrow> (\<forall>i < length ts. \<forall>j < length ts. \<forall>k m. i \<noteq> j \<longrightarrow> (k, Unique) \<in> set (held (ts ! i)) \<longrightarrow>
     (k, m) \<notin> set (held (ts ! j)))"

lemma excludesD:
  "excludes ts \<Longrightarrow> i < length ts \<Longrightarrow> (k, Unique) \<in> set (held (ts ! i)) \<Longrightarrow> j < length ts \<Longrightarrow> i \<noteq> j \<Longrightarrow>
    (k, m) \<notin> set (held (ts ! j))"
  unfolding excludes_def by blast

lemma excludesI:
  assumes "\<And>i j k m. i < length ts \<Longrightarrow> j < length ts \<Longrightarrow> i \<noteq> j \<Longrightarrow> (k, Unique) \<in> set (held (ts ! i)) \<Longrightarrow>
    (k, m) \<in> set (held (ts ! j)) \<Longrightarrow> False"
  shows "excludes ts"
  unfolding excludes_def using assms by blast

lemma excludes_shrink:
  assumes "excludes ts" and "i < length ts" and "set (held t) \<subseteq> set (held (ts ! i))"
  shows "excludes (ts[i := t])"
proof (rule excludesI)
  fix a b k m
  assume "a < length (ts[i := t])" "b < length (ts[i := t])" "a \<noteq> b"
    "(k, Unique) \<in> set (held (ts[i := t] ! a))" "(k, m) \<in> set (held (ts[i := t] ! b))"
  moreover from this have "(k, Unique) \<in> set (held (ts ! a))" "(k, m) \<in> set (held (ts ! b))"
    using assms(2,3) by (auto simp: nth_list_update split: if_splits)
  ultimately show False using excludesD [OF assms(1), of a k b m] by simp
qed

lemma excludes_acquire:
  assumes ex: "excludes ts" and i: "i < length ts" and free: "lock_free ts i k m"
    and t: "held t = (k, m) # held (ts ! i)"
  shows "excludes (ts[i := t])"
proof (rule excludesI)
  fix a b k' m'
  assume *: "a < length (ts[i := t])" "b < length (ts[i := t])" "a \<noteq> b"
    "(k', Unique) \<in> set (held (ts[i := t] ! a))" "(k', m') \<in> set (held (ts[i := t] ! b))"
  have none: "(k, n) \<notin> set (held (ts ! j))" if "j < length ts" "m = Unique \<or> n = Unique" for j n
    using free nth_mem [OF that(1)] that(2) by (cases m) (force simp: lock_free_def)+
  show False
  proof (cases "a = i")
    case True
    with * i t have "(k', Unique) \<in> set (held (ts ! i)) \<or> k' = k \<and> m = Unique" by auto
    moreover have "(k', m') \<in> set (held (ts ! b))" using * True by simp
    ultimately show False using excludesD [OF ex i, of k' b m'] none [of b m'] * True by auto
  next
    case False
    then have "(k', Unique) \<in> set (held (ts ! a))" using * by simp
    moreover have "(k', m') \<in> set (held (ts ! b)) \<or> b = i \<and> k' = k" using * i t by (cases "b = i") auto
    ultimately show False using excludesD [OF ex, of a k' b m'] none [of a Unique] * by auto
  qed
qed

lemma excludes_step:
  assumes "lock_step ts ts'" and "excludes ts"
  shows "excludes ts'"
  using assms
proof (cases rule: lock_step.cases)
  case (acquire i k m p)
  then show ?thesis using excludes_acquire [OF assms(2)] by simp
next
  case (release i k p)
  then show ?thesis by (simp add: excludes_shrink [OF assms(2)] drop_lock_subset)
qed (use excludes_shrink [OF assms(2)] in auto)

lemma run_excludes: "lock_run Ps ts \<Longrightarrow> excludes ts"
proof (induction rule: lock_run.induct)
  case (start_thread ts p)
  show ?case
  proof (rule excludesI)
    fix i j k m
    assume "i < length (ts @ [new_thread p])" "j < length (ts @ [new_thread p])" "i \<noteq> j"
      "(k, Unique) \<in> set (held ((ts @ [new_thread p]) ! i))" "(k, m) \<in> set (held ((ts @ [new_thread p]) ! j))"
    then show False using excludesD [OF start_thread.IH, of i k j m]
      by (auto simp: nth_append new_thread_def less_Suc_eq split: if_splits)
  qed
qed (auto intro: excludesI excludes_step)

text \<open>What holds of every thread at the start and is kept by every action.\<close>

lemma threads_step:
  assumes step: "lock_step ts ts'" and all: "\<forall>t \<in> set ts. P (held t) (todo t)"
    and acq: "\<And>hs k m p. P hs (Acquire k m # p) \<Longrightarrow> P ((k, m) # hs) p"
    and rel: "\<And>hs k p. P hs (Release k # p) \<Longrightarrow> P (drop_lock k hs) p"
    and rd: "\<And>hs f p. P hs (ReadField f # p) \<Longrightarrow> P hs p"
    and wrt: "\<And>hs f p. P hs (WriteField f # p) \<Longrightarrow> P hs p"
  shows "\<forall>t \<in> set ts'. P (held t) (todo t)"
proof -
  have keep: "\<forall>t \<in> set (ts[i := u]). P (held t) (todo t)" if "P (held u) (todo u)" for i u
    using all that set_update_subset_insert [of ts i u] by blast
  have at: "P (held (ts ! i)) (todo (ts ! i))" if "i < length ts" for i using all that by simp
  from step show ?thesis
  proof (cases rule: lock_step.cases)
    case (arrive i k m p)
    then show ?thesis using at [of i] keep [of "(ts ! i)\<lparr>waiting := True\<rparr>" i] by simp
  next
    case (acquire i k m p)
    then have "P ((k, m) # held (ts ! i)) p" using at [of i] acq by simp
    then show ?thesis unfolding acquire(1) by (intro keep) simp
  next
    case (release i k p)
    then have "P (drop_lock k (held (ts ! i))) p" using at [of i] rel by simp
    then show ?thesis unfolding release(1) by (intro keep) simp
  next
    case (read_field i f p)
    then have "P (held (ts ! i)) p" using at [of i] rd by metis
    then show ?thesis unfolding read_field(1) by (intro keep) simp
  next
    case (write_field i f p)
    then have "P (held (ts ! i)) p" using at [of i] wrt by metis
    then show ?thesis unfolding write_field(1) by (intro keep) simp
  qed
qed

section \<open>Every operation returns\<close>

definition lock_work :: "('k, 'f) lock_thread list \<Rightarrow> nat" where
  "lock_work ts = (\<Sum>t \<leftarrow> ts. 2 * length (todo t) + (if waiting t then 0 else 1))"

lemma lock_work_update:
  assumes "i < length ts"
    and "2 * length (todo t) + (if waiting t then 0 else 1) <
      2 * length (todo (ts ! i)) + (if waiting (ts ! i) then 0 else (1::nat))"
  shows "lock_work (ts[i := t]) < lock_work ts"
proof -
  have "lock_work ts = lock_work (take i ts @ ts ! i # drop (Suc i) ts)"
    using assms(1) by (simp add: id_take_nth_drop [symmetric])
  then show ?thesis using assms by (simp add: lock_work_def upd_conv_take_nth_drop)
qed

lemma step_work: "lock_step ts ts' \<Longrightarrow> lock_work ts' < lock_work ts"
  by (cases rule: lock_step.cases) (auto intro!: lock_work_update)

lemma steps_work: "(lock_step ^^ n) ts ts' \<Longrightarrow> n + lock_work ts' \<le> lock_work ts"
proof (induction n arbitrary: ts')
  case (Suc n)
  then obtain ts1 where "(lock_step ^^ n) ts ts1" "lock_step ts1 ts'" by auto
  with Suc.IH step_work show ?case by fastforce
qed simp

locale lock_protocol =
  fixes rank :: "'k \<Rightarrow> nat" and Ps :: "('k, 'f) lock_action list set"
  assumes ordered_Ps: "p \<in> Ps \<Longrightarrow> ordered rank [] p"
    and returned_Ps: "p \<in> Ps \<Longrightarrow> held_after [] p = []"
begin

lemma ordered_step:
  assumes "lock_step ts ts'" and "\<forall>t \<in> set ts. ordered rank (held t) (todo t) \<and> held_after (held t) (todo t) = []"
  shows "\<forall>t \<in> set ts'. ordered rank (held t) (todo t) \<and> held_after (held t) (todo t) = []"
  by (rule threads_step [OF assms]) simp_all

lemma run_ordered:
  "lock_run Ps ts \<Longrightarrow> \<forall>t \<in> set ts. ordered rank (held t) (todo t) \<and> held_after (held t) (todo t) = []"
proof (induction rule: lock_run.induct)
  case (thread_step ts ts')
  then show ?case using ordered_step by blast
qed (auto simp: new_thread_def ordered_Ps returned_Ps)

text \<open>A thread that cannot go on wants a lock and has asked for it.\<close>

lemma stuck_thread:
  assumes "\<And>ts'. \<not> lock_step ts ts'" and "i < length ts" and "todo (ts ! i) \<noteq> []"
  obtains k m p where "todo (ts ! i) = Acquire k m # p" and "waiting (ts ! i)"
proof (cases "todo (ts ! i)")
  case Nil
  with assms(3) show thesis by simp
next
  case (Cons a p)
  then show thesis
  proof (cases a)
    case (Acquire k m)
    with Cons that assms(1) lock_step.arrive [OF assms(2)] show thesis by (metis (full_types))
  qed (use Cons assms(1) lock_step.intros(3-5) [OF assms(2)] in \<open>blast+\<close>)
qed

theorem progress:
  assumes run: "lock_run Ps ts" and "\<not> finished ts"
  shows "\<exists>ts'. lock_step ts ts'"
proof (rule ccontr)
  assume "\<nexists>ts'. lock_step ts ts'"
  then have stuck: "\<And>ts'. \<not> lock_step ts ts'" by blast
  define W where "W = {k. \<exists>t \<in> set ts. \<exists>m p. todo t = Acquire k m # p}"
  have "W \<subseteq> (\<lambda>t. case todo t of Acquire k m # p \<Rightarrow> k | _ \<Rightarrow> undefined) ` set ts" by (force simp: W_def)
  then have fin: "finite W" using finite_surj by blast
  obtain i0 where "i0 < length ts" "todo (ts ! i0) \<noteq> []"
    using assms(2) by (auto simp: finished_def in_set_conv_nth)
  with stuck_thread [OF stuck] have "W \<noteq> {}" unfolding W_def by (metis (mono_tags, lifting) empty_iff mem_Collect_eq nth_mem)
  then have "Max (rank ` W) \<in> rank ` W" using fin by simp
  then obtain k where "k \<in> W" and "rank k = Max (rank ` W)" by (metis imageE)
  then have max: "\<And>k'. k' \<in> W \<Longrightarrow> rank k' \<le> rank k" using fin by simp
  from \<open>k \<in> W\<close>
  obtain i m p where i: "i < length ts" and t: "todo (ts ! i) = Acquire k m # p"
    by (auto simp: W_def in_set_conv_nth)
  have unheld: "(k, n) \<notin> set (held u)" if "u \<in> set ts" for u n
  proof
    assume h: "(k, n) \<in> set (held u)"
    have o: "ordered rank (held u) (todo u)" "held_after (held u) (todo u) = []"
      using run_ordered [OF run] that by blast+
    with h have "todo u \<noteq> []" by (cases "todo u") auto
    with stuck_thread [OF stuck] that obtain k' m' p' where u: "todo u = Acquire k' m' # p'"
      by (metis in_set_conv_nth)
    with o h have "rank k < rank k'" by auto
    moreover have "k' \<in> W" using u that unfolding W_def by blast
    ultimately show False using max by fastforce
  qed
  have enabled: "lock_free ts j k Unique" for j using unheld by (auto simp: lock_free_def)
  have waits: "waiting (ts ! j)" if "j < length ts" "todo (ts ! j) = Acquire k' m' # p'" for j k' m' p'
    using stuck_thread [OF stuck that(1)] that(2) by (metis list.distinct(1))
  show False
  proof (cases "m = Unique \<or> lock_free ts i k Shared")
    case True
    then have "lock_free ts i k m" using enabled by (cases m) auto
    with lock_step.acquire [OF i t waits [OF i t]] stuck show False by blast
  next
    case False
    then obtain j where j: "j < length ts" "waits_unique k (ts ! j)"
      using unheld unfolding lock_free_def lock_mode.case by blast
    with lock_step.acquire [OF j(1) _ _ enabled] stuck show False by (auto simp: waits_unique_def)
  qed
qed

theorem all_return:
  assumes "lock_run Ps ts"
  shows "\<exists>ts'. lock_step\<^sup>*\<^sup>* ts ts' \<and> finished ts'"
  using assms
proof (induction "lock_work ts" arbitrary: ts rule: less_induct)
  case less
  show ?case
  proof (cases "finished ts")
    case False
    then obtain ts1 where s: "lock_step ts ts1" using progress [OF less.prems] by blast
    from less.hyps [OF step_work [OF s] lock_run.thread_step [OF less.prems s]] s show ?thesis
      by (meson converse_rtranclp_into_rtranclp)
  qed auto
qed

end

section \<open>No conflicting accesses\<close>

locale race_protocol =
  fixes prot :: "'f \<Rightarrow> 'k protection" and Ps :: "('k, 'f) lock_action list set"
  assumes guarded_Ps: "p \<in> Ps \<Longrightarrow> guarded prot [] p"
begin

lemma guarded_step:
  assumes "lock_step ts ts'" and "\<forall>t \<in> set ts. guarded prot (held t) (todo t)"
  shows "\<forall>t \<in> set ts'. guarded prot (held t) (todo t)"
  by (rule threads_step [OF assms]) simp_all

lemma run_guarded: "lock_run Ps ts \<Longrightarrow> \<forall>t \<in> set ts. guarded prot (held t) (todo t)"
proof (induction rule: lock_run.induct)
  case (thread_step ts ts')
  then show ?case using guarded_step by blast
qed (auto simp: new_thread_def guarded_Ps)

theorem no_race:
  assumes run: "lock_run Ps ts" and "prot f \<noteq> Unprotected"
  shows "\<not> data_race f ts"
proof
  assume "data_race f ts"
  then obtain i j p q where i: "i < length ts" "todo (ts ! i) = WriteField f # p"
    and j: "j < length ts" "todo (ts ! j) = WriteField f # q \<or> todo (ts ! j) = ReadField f # q" and "i \<noteq> j"
    unfolding data_race_def by blast
  have "guarded prot (held (ts ! i)) (todo (ts ! i))" and gj: "guarded prot (held (ts ! j)) (todo (ts ! j))"
    using run_guarded [OF run] i(1) j(1) by auto
  then obtain k where k: "prot f = Guard k" "(k, Unique) \<in> set (held (ts ! i))"
    using i(2) assms(2) by (cases "prot f") auto
  with gj j(2) obtain m where "(k, m) \<in> set (held (ts ! j))" by auto
  with excludesD [OF run_excludes [OF run] i(1) k(2) j(1) \<open>i \<noteq> j\<close>] show False by blast
qed

end

section \<open>Operations built from sections\<close>

text \<open>
  A program that can run while locks below \<open>r\<close> are held climbs from \<open>r\<close>; one that is safe with \<open>G\<close>
  accesses fields by the rules when the locks of \<open>G\<close> are held. Both give back what they take.
\<close>

definition locked :: "'k \<Rightarrow> lock_mode \<Rightarrow> ('k, 'f) lock_action list \<Rightarrow> ('k, 'f) lock_action list" where
  "locked k m p = Acquire k m # p @ [Release k]"

definition climbs :: "('k \<Rightarrow> nat) \<Rightarrow> nat \<Rightarrow> ('k, 'f) lock_action list \<Rightarrow> bool" where
  "climbs rank r p \<longleftrightarrow> (\<forall>hs. (\<forall>h \<in> set hs. rank (fst h) < r) \<longrightarrow> ordered rank hs p \<and> held_after hs p = hs)"

definition safe :: "('f \<Rightarrow> 'k protection) \<Rightarrow> ('k \<times> lock_mode) set \<Rightarrow> ('k, 'f) lock_action list \<Rightarrow> bool" where
  "safe prot G p \<longleftrightarrow> (\<forall>hs. G \<subseteq> set hs \<longrightarrow> guarded prot hs p \<and> held_after hs p = hs)"

named_theorems lock_rules \<open>rules that build a program that keeps to the protocol\<close>

lemma climbs_Nil [lock_rules]: "climbs rank r []"
  by (simp add: climbs_def)

lemma climbs_read [lock_rules]: "climbs rank r p \<Longrightarrow> climbs rank r (ReadField f # p)"
  by (simp add: climbs_def)

lemma climbs_write [lock_rules]: "climbs rank r p \<Longrightarrow> climbs rank r (WriteField f # p)"
  by (simp add: climbs_def)

lemma climbs_append [lock_rules]: "climbs rank r p \<Longrightarrow> climbs rank r q \<Longrightarrow> climbs rank r (p @ q)"
  by (simp add: climbs_def ordered_append held_after_append)

lemma climbs_concat [lock_rules]: "(\<And>p. p \<in> set ps \<Longrightarrow> climbs rank r p) \<Longrightarrow> climbs rank r (concat ps)"
  by (induction ps) (auto intro: lock_rules)

lemma climbs_reads [lock_rules]: "climbs rank r (map ReadField fs)"
  by (induction fs) (auto intro: lock_rules)

lemma climbs_writes [lock_rules]: "climbs rank r (map WriteField fs)"
  by (induction fs) (auto intro: lock_rules)

lemma climbs_locked [lock_rules]:
  assumes "r \<le> rank k" and "climbs rank (Suc (rank k)) p"
  shows "climbs rank r (locked k m p)"
  unfolding climbs_def
proof (intro allI impI)
  fix hs :: "('a \<times> lock_mode) list"
  assume hs: "\<forall>h \<in> set hs. rank (fst h) < r"
  then have "\<forall>h \<in> set ((k, m) # hs). rank (fst h) < Suc (rank k)" using assms(1) by fastforce
  then have "ordered rank ((k, m) # hs) p \<and> held_after ((k, m) # hs) p = (k, m) # hs"
    using assms(2) unfolding climbs_def by blast
  then show "ordered rank hs (locked k m p) \<and> held_after hs (locked k m p) = hs"
    using assms(1) hs by (force simp: locked_def ordered_append held_after_append)
qed

lemma climbs_mono: "climbs rank r p \<Longrightarrow> r' \<le> r \<Longrightarrow> climbs rank r' p"
  unfolding climbs_def by (meson order.strict_trans2)

lemma climbs_ordered: "climbs rank r p \<Longrightarrow> ordered rank [] p \<and> held_after [] p = []"
  by (simp add: climbs_def)

lemma safe_Nil [lock_rules]: "safe prot G []"
  by (simp add: safe_def)

lemma safe_read [lock_rules]:
  assumes "case prot f of Guard k \<Rightarrow> \<exists>m. (k, m) \<in> G | _ \<Rightarrow> True" and "safe prot G p"
  shows "safe prot G (ReadField f # p)"
  using assms unfolding safe_def by (force split: protection.splits)

lemma safe_write [lock_rules]:
  assumes "case prot f of Guard k \<Rightarrow> (k, Unique) \<in> G | Constant \<Rightarrow> False | Unprotected \<Rightarrow> True" and "safe prot G p"
  shows "safe prot G (WriteField f # p)"
  using assms unfolding safe_def by (auto split: protection.splits)

lemma safe_append [lock_rules]: "safe prot G p \<Longrightarrow> safe prot G q \<Longrightarrow> safe prot G (p @ q)"
  by (simp add: safe_def guarded_append held_after_append)

lemma safe_concat [lock_rules]: "(\<And>p. p \<in> set ps \<Longrightarrow> safe prot G p) \<Longrightarrow> safe prot G (concat ps)"
  by (induction ps) (auto intro: lock_rules)

lemma safe_reads [lock_rules]:
  "(\<And>f. f \<in> set fs \<Longrightarrow> case prot f of Guard k \<Rightarrow> \<exists>m. (k, m) \<in> G | _ \<Rightarrow> True) \<Longrightarrow> safe prot G (map ReadField fs)"
  by (induction fs) (auto intro: lock_rules)

lemma safe_writes [lock_rules]:
  "(\<And>f. f \<in> set fs \<Longrightarrow> case prot f of Guard k \<Rightarrow> (k, Unique) \<in> G | Constant \<Rightarrow> False | Unprotected \<Rightarrow> True) \<Longrightarrow>
    safe prot G (map WriteField fs)"
  by (induction fs) (auto intro: lock_rules)

lemma safe_locked [lock_rules]: "safe prot (insert (k, m) G) p \<Longrightarrow> safe prot G (locked k m p)"
  unfolding safe_def
proof (intro allI impI)
  fix hs
  assume p: "\<forall>hs. insert (k, m) G \<subseteq> set hs \<longrightarrow> guarded prot hs p \<and> held_after hs p = hs" and "G \<subseteq> set hs"
  then have "insert (k, m) G \<subseteq> set ((k, m) # hs)" by auto
  with p have "guarded prot ((k, m) # hs) p \<and> held_after ((k, m) # hs) p = (k, m) # hs" by blast
  then show "guarded prot hs (locked k m p) \<and> held_after hs (locked k m p) = hs"
    by (simp add: locked_def guarded_append held_after_append)
qed

lemma safe_mono: "safe prot G p \<Longrightarrow> G \<subseteq> G' \<Longrightarrow> safe prot G' p"
  unfolding safe_def by blast

lemma safe_guarded: "safe prot {} p \<Longrightarrow> guarded prot [] p"
  by (simp add: safe_def)

section \<open>Schedules\<close>

text \<open>The step of one thread as a function, so that a schedule of threads can be executed.\<close>

definition move :: "nat \<Rightarrow> ('k, 'f) lock_thread list \<Rightarrow> ('k, 'f) lock_thread list option" where
  "move i ts =
     (if length ts \<le> i then None
      else let t = ts ! i in case todo t of
        [] \<Rightarrow> None
      | Acquire k m # p \<Rightarrow>
          if \<not> waiting t then Some (ts[i := t\<lparr>waiting := True\<rparr>])
          else if lock_free ts i k m then Some (ts[i := \<lparr>todo = p, held = (k, m) # held t, waiting = False\<rparr>])
          else None
      | Release k # p \<Rightarrow> Some (ts[i := \<lparr>todo = p, held = drop_lock k (held t), waiting = False\<rparr>])
      | ReadField f # p \<Rightarrow> Some (ts[i := \<lparr>todo = p, held = held t, waiting = False\<rparr>])
      | WriteField f # p \<Rightarrow> Some (ts[i := \<lparr>todo = p, held = held t, waiting = False\<rparr>]))"

lemma lock_step_iff: "lock_step ts ts' \<longleftrightarrow> (\<exists>i. move i ts = Some ts')"
proof
  assume "lock_step ts ts'"
  then show "\<exists>i. move i ts = Some ts'"
  proof (cases rule: lock_step.cases)
    case (arrive i k m p)
    then show ?thesis by (intro exI [of _ i]) (simp add: move_def)
  next
    case (acquire i k m p)
    then show ?thesis by (intro exI [of _ i]) (simp add: move_def)
  next
    case (release i k p)
    then show ?thesis by (intro exI [of _ i]) (simp add: move_def)
  next
    case (read_field i f p)
    then show ?thesis by (intro exI [of _ i]) (simp add: move_def)
  next
    case (write_field i f p)
    then show ?thesis by (intro exI [of _ i]) (simp add: move_def)
  qed
next
  assume "\<exists>i. move i ts = Some ts'"
  then obtain i where "move i ts = Some ts'" ..
  then show "lock_step ts ts'"
    by (auto simp: move_def Let_def split: if_splits list.splits lock_action.splits intro: lock_step.intros)
qed

fun schedule :: "nat list \<Rightarrow> ('k, 'f) lock_thread list \<Rightarrow> ('k, 'f) lock_thread list option" where
  "schedule [] ts = Some ts"
| "schedule (i # is) ts = (case move i ts of None \<Rightarrow> None | Some ts' \<Rightarrow> schedule is ts')"

lemma lock_run_schedule: "lock_run Ps ts \<Longrightarrow> schedule is ts = Some ts' \<Longrightarrow> lock_run Ps ts'"
proof (induction "is" ts rule: schedule.induct)
  case (2 i "is" ts)
  then obtain ts1 where "move i ts = Some ts1" "schedule is ts1 = Some ts'" by (auto split: option.splits)
  moreover from this have "lock_run Ps ts1" using 2 lock_run.thread_step by (blast intro: lock_step_iff [THEN iffD2])
  ultimately show ?case using 2 by blast
qed simp

lemma lock_run_two: "p \<in> Ps \<Longrightarrow> q \<in> Ps \<Longrightarrow> lock_run Ps [new_thread p, new_thread q]"
  using lock_run.start_thread [OF lock_run.start_thread [OF lock_run.no_threads]] by force

lemma lock_run_mono: "lock_run Ps ts \<Longrightarrow> Ps \<subseteq> Qs \<Longrightarrow> lock_run Qs ts"
  by (induction rule: lock_run.induct) (auto intro: lock_run.intros)

section \<open>A thread that asks again for what it holds\<close>

lemma drop_lock_other: "h \<in> set hs \<Longrightarrow> fst h \<noteq> k \<Longrightarrow> h \<in> set (drop_lock k hs)"
  by (induction k hs rule: drop_lock.induct) auto

lemma reenter_step:
  assumes "lock_step [t] ts" and "todo t = p @ Acquire k m # r" and "Release k \<notin> set p" and "(k, Unique) \<in> set (held t)"
  shows "\<exists>t' p'. ts = [t'] \<and> todo t' = p' @ Acquire k m # r \<and> Release k \<notin> set p' \<and> (k, Unique) \<in> set (held t')"
proof -
  obtain i where i: "move i [t] = Some ts" using assms(1) lock_step_iff by blast
  then have "i = 0" by (cases i) (simp_all add: move_def)
  with i have move: "move 0 [t] = Some ts" by simp
  show ?thesis
  proof (cases p)
    case Nil
    have "\<not> lock_free [t] 0 k m" using assms(4) by (cases m) (force simp: lock_free_def)+
    with move assms Nil have "ts = [t\<lparr>waiting := True\<rparr>]" by (auto simp: move_def split: if_splits)
    with assms Nil show ?thesis by (intro exI [of _ "t\<lparr>waiting := True\<rparr>"] exI [of _ "[]"]) simp
  next
    case (Cons a p')
    show ?thesis
    proof (cases "\<exists>k' m'. a = Acquire k' m' \<and> \<not> waiting t")
      case True
      with move assms Cons have "ts = [t\<lparr>waiting := True\<rparr>]" by (auto simp: move_def)
      with assms show ?thesis by (intro exI [of _ "t\<lparr>waiting := True\<rparr>"] exI [of _ p]) simp
    next
      case False
      have "\<exists>t'. ts = [t'] \<and> todo t' = p' @ Acquire k m # r \<and> (k, Unique) \<in> set (held t')"
        using move assms Cons False
        by (cases a) (auto simp: move_def Let_def split: if_splits intro!: drop_lock_other)
      with assms(3) Cons show ?thesis by auto
    qed
  qed
qed

text \<open>It waits for itself, whatever it does before.\<close>

lemma self_deadlock:
  assumes "lock_run Ps [t]" and "todo t = p @ Acquire k m # r" and "Release k \<notin> set p" and "(k, Unique) \<in> set (held t)"
  shows "\<exists>ts. lock_run Ps ts \<and> deadlock ts"
  using assms
proof (induction "lock_work [t]" arbitrary: t p rule: less_induct)
  case less
  show ?case
  proof (cases "\<exists>ts. lock_step [t] ts")
    case True
    then obtain ts where step: "lock_step [t] ts" by blast
    from reenter_step [OF this less.prems(2-4)] obtain t' p' where
      t': "ts = [t']" "todo t' = p' @ Acquire k m # r" "Release k \<notin> set p'" "(k, Unique) \<in> set (held t')" by blast
    with step_work [OF step] lock_run.thread_step [OF less.prems(1) step] less.hyps [of t' p'] show ?thesis by simp
  next
    case False
    with less.prems(2) have "deadlock [t]" by (simp add: deadlock_def finished_def)
    with less.prems(1) show ?thesis by blast
  qed
qed

end
