(* ===== verification/Threads.thy ===== *)
theory Threads
  imports Sections Service_System "HOL-Library.Multiset"
begin

text \<open>
  The service at the granularity of its instructions. \<open>Service_System\<close> takes each critical section of
  \<^verbatim>\<open>telephony_state_registry_service.cpp\<close> as one step; here the threads assign one field at a time, visit
  one record at a time and call one observer at a time, interleaved with all others as the lock permits.
  The interface \<open>atomic_sections\<close> is interpreted on them, and shows that the two views have the same
  traces. In the notification of \<^verbatim>\<open>UpdateCallStateForSlotId\<close> this rests on an invariant: \<^verbatim>\<open>operator[]\<close> on
  the cached numbers under the shared lock finds the key that the write section put there.
\<close>

section \<open>The instructions\<close>

datatype ('sig, 'cell, 'net) task =
    UpdateTask "('sig, 'cell, 'net) world" "('sig, 'cell, 'net) update"
  | RegisterTask "('sig, 'cell, 'net) world" registration
  | UnregisterTask "('sig, 'cell, 'net) world" reg_key

datatype ('sig, 'cell, 'net) phase =
    Calling
  | AwaitUnique
  | Writing "(('sig, 'cell, 'net) service \<Rightarrow> ('sig, 'cell, 'net) service) list"
  | AwaitShared
  | Notifying nat "('sig, 'cell, 'net) loop"
  | Sent "('sig, 'cell, 'net) loop"
  | Searching nat
  | Telling "('sig, 'cell, 'net) action list" "('sig, 'cell, 'net) effect list"
  | Erasing nat
  | Erased bool
  | Returned int32 "('sig, 'cell, 'net) effect list"

type_synonym ('sig, 'cell, 'net) thread = "('sig, 'cell, 'net) task \<times> ('sig, 'cell, 'net) phase"

text \<open>The assignments between \<^verbatim>\<open>uniLock(lock_)\<close> and \<^verbatim>\<open>uniLock.unlock()\<close> of each update, in order.\<close>

fun write_steps ::
    "('sig, 'cell, 'net) world \<Rightarrow> ('sig, 'cell, 'net) update \<Rightarrow>
     (('sig, 'cell, 'net) service \<Rightarrow> ('sig, 'cell, 'net) service) list" where
  "write_steps E (UDataConnect k st type) =
     [\<lambda>s. s\<lparr>cellularDataConnectionState_of := (cellularDataConnectionState_of s)(k \<mapsto> st)\<rparr>,
      \<lambda>s. s\<lparr>cellularDataConnectionNetworkType_of := (cellularDataConnectionNetworkType_of s)(k \<mapsto> type)\<rparr>]"
| "write_steps E (UDataFlow k v) = [\<lambda>s. s\<lparr>cellularDataFlow_of := (cellularDataFlow_of s)(k \<mapsto> v)\<rparr>]"
| "write_steps E (UCall st number) =
     [\<lambda>s. s\<lparr>callState_of := (callState_of s)(-1 \<mapsto> st)\<rparr>,
      \<lambda>s. s\<lparr>callIncomingNumber_of := (callIncomingNumber_of s)(-1 \<mapsto> number)\<rparr>]"
| "write_steps E (UCallSlot k st number) =
     [\<lambda>s. s\<lparr>callState_of := (callState_of s)(k \<mapsto> st)\<rparr>,
      \<lambda>s. s\<lparr>callIncomingNumber_of := (callIncomingNumber_of s)(k \<mapsto> number)\<rparr>]"
| "write_steps E (USim k type st reason) =
     [\<lambda>s. s\<lparr>simState_of := (simState_of s)(k \<mapsto> st)\<rparr>,
      \<lambda>s. s\<lparr>simReason_of := (simReason_of s)(k \<mapsto> reason)\<rparr>,
      \<lambda>s. s\<lparr>cardType_of := (cardType_of s)(k \<mapsto> type)\<rparr>]"
| "write_steps E (USignal k v) = [\<lambda>s. s\<lparr>signalInfos_of := (signalInfos_of s)(k \<mapsto> v)\<rparr>]"
| "write_steps E (UCell k v) = [\<lambda>s. s\<lparr>cellInfos_of := (cellInfos_of s)(k \<mapsto> v)\<rparr>]"
| "write_steps E (UNetwork k v) =
     [\<lambda>s. s\<lparr>searchNetworkState_of := (searchNetworkState_of s)(k \<mapsto> v)\<rparr>,
      \<lambda>s. (case v of
             None \<Rightarrow> s
           | Some ns \<Rightarrow> if MakeSptrOk E
               then s\<lparr>searchNetworkState_of := (searchNetworkState_of s)(k \<mapsto> Some (NetworkRemarshal E ns))\<rparr> else s)]"
| "write_steps E (UCfu k v) = [\<lambda>s. s\<lparr>cfuResult_of := (cfuResult_of s)(k \<mapsto> v)\<rparr>]"
| "write_steps E (UVoiceMail k v) = [\<lambda>s. s\<lparr>voiceMailMsgResult_of := (voiceMailMsgResult_of s)(k \<mapsto> v)\<rparr>]"
| "write_steps E (USimActive k v) = [\<lambda>s. s\<lparr>simActiveResult_of := (simActiveResult_of s)(k \<mapsto> v)\<rparr>]"
| "write_steps E UIccAccount = []"
| "write_steps E (UVoIP info) = []"

text \<open>
  One round of the notification loop on the record \<open>r\<close>: the loop variables, whether the function
  returns there, and the state, which \<^verbatim>\<open>callIncomingNumber_[slotId]\<close> may change.
\<close>

fun record_step ::
    "build \<Rightarrow> ('sig, 'cell, 'net) world \<Rightarrow> ('sig, 'cell, 'net) update \<Rightarrow> TelephonyStateRegistryRecord \<Rightarrow>
     ('sig, 'cell, 'net) loop \<Rightarrow> ('sig, 'cell, 'net) service \<Rightarrow>
     ('sig, 'cell, 'net) loop \<times> bool \<times> ('sig, 'cell, 'net) service" where
  "record_step K E (UDataConnect k st type) r acc s = (UpdateCellularDataConnectState_body K E k st type r acc, False, s)"
| "record_step K E (UDataFlow k v) r acc s = (UpdateCellularDataFlow_body K k v r acc, False, s)"
| "record_step K E (UCall st number) r acc s = (UpdateCallState_body K E st number r acc, False, s)"
| "record_step K E (UCallSlot k st number) r acc s =
     (UpdateCallStateForSlotId_body K E s k st number r acc, False,
      if IsExistStateListener r (OBSERVER_MASK K M_CALL_STATE) \<and> slotId_of r = k \<and> telephonyObserver_of r \<noteq> None
      then snd (GetCallIncomingNumberForSlotId K E r k s) else s)"
| "record_step K E (USim k type st reason) r acc s = (UpdateSimState_body K k type st reason r acc, False, s)"
| "record_step K E (USignal k v) r acc s = (UpdateSignalInfo_body K E k v r acc, False, s)"
| "record_step K E (UCell k v) r acc s =
     (UpdateCellInfo_loop K E k v [r] acc,
      IsExistStateListener r (OBSERVER_MASK K M_CELL_INFO) \<and> slotId_of r = k \<and> telephonyObserver_of r = None, s)"
| "record_step K E (UNetwork k v) r acc s = (UpdateNetworkState_body K E k v r acc, False, s)"
| "record_step K E (UCfu k v) r acc s = (UpdateCfuIndicator_body K k v r acc, False, s)"
| "record_step K E (UVoiceMail k v) r acc s = (UpdateVoiceMailMsgIndicator_body K k v r acc, False, s)"
| "record_step K E (USimActive k v) r acc s = (UpdateSimActiveState_body K k v r acc, False, s)"
| "record_step K E UIccAccount r acc s = (UpdateIccAccount_body K r acc, False, s)"
| "record_step K E (UVoIP info) r acc s = (UpdateVoIPCallState_body K E info r acc, False, s)"

text \<open>The statements of \<^verbatim>\<open>UpdateData\<close> and \<^verbatim>\<open>UpdateDataEx\<close> for a record with an observer.\<close>

definition data_steps ::
    "build \<Rightarrow> ('sig, 'cell, 'net) world \<Rightarrow> TelephonyStateRegistryRecord \<Rightarrow> ('sig, 'cell, 'net) action list" where
  "data_steps K E r =
     [if_mask K r M_CALL_STATE (data_call_state K E r), if_mask K r M_SIGNAL_STRENGTHS (data_signal_info r),
      if_mask K r M_NETWORK_STATE (data_network_state r), if_mask K r M_CELL_INFO (data_cell_info r),
      if_mask K r M_SIM_STATE (data_sim_state r), if_mask K r M_DATA_CONNECTION_STATE (data_connection r),
      if_mask K r M_DATA_FLOW (data_flow r), if_mask K r M_CFU_INDICATOR (data_cfu r),
      if_mask K r M_VOICE_MAIL_MSG_INDICATOR (data_voice_mail r), if_mask K r M_ICC_ACCOUNT (data_icc_account r),
      if_mask K r M_CALL_STATE_EX (data_call_state_ex r), if_mask K r M_CCALL_STATE (data_ccall_state K E r),
      if_mask K r M_SIM_ACTIVE_STATE (data_sim_active r)]"

definition tell_steps ::
    "build \<Rightarrow> ('sig, 'cell, 'net) world \<Rightarrow> registration \<Rightarrow> TelephonyStateRegistryRecord \<Rightarrow>
     ('sig, 'cell, 'net) action list" where
  "tell_steps K E q r = (if rq_isUpdate q \<and> telephonyObserver_of r \<noteq> None then data_steps K E r else [])"

definition has_key :: "reg_key \<Rightarrow> TelephonyStateRegistryRecord \<Rightarrow> bool" where
  "has_key k r = (case k of (slotId, msk, tokenId, pid) \<Rightarrow> is_registration slotId msk tokenId pid r)"

section \<open>The threads\<close>

text \<open>Before the lock: the checks of the arguments and of the caller.\<close>

fun thread_outer ::
    "build \<Rightarrow> ('sig, 'cell, 'net) thread \<Rightarrow> ('sig, 'cell, 'net) service \<Rightarrow>
     (('sig, 'cell, 'net) thread \<times> ('sig, 'cell, 'net) event list) option" where
  "thread_outer K (UpdateTask E u, Calling) s = Some
     (if \<not> slot_verified s u
      then ((UpdateTask E u, Returned (ERR K TELEPHONY_STATE_REGISTRY_SLODID_ERROR) []),
            [Rejected E u (ERR K TELEPHONY_STATE_REGISTRY_SLODID_ERROR)])
      else if \<not> update_allowed E u
      then ((UpdateTask E u, Returned (ERR K TELEPHONY_STATE_REGISTRY_PERMISSION_DENIED) []),
            [Rejected E u (ERR K TELEPHONY_STATE_REGISTRY_PERMISSION_DENIED)])
      else if write_steps E u = [] then ((UpdateTask E u, AwaitShared), [Wrote E u])
      else ((UpdateTask E u, AwaitUnique), []))"
| "thread_outer K (RegisterTask E q, Calling) s = (case rq_key q of (slotId, msk, tokenId, pid) \<Rightarrow> Some
     (if \<not> CheckCallerIsSystemApp K E msk
      then ((RegisterTask E q, Returned (ERR K TELEPHONY_ERR_ILLEGAL_USE_OF_SYSTEM_API) []),
            [Registered E q (ERR K TELEPHONY_ERR_ILLEGAL_USE_OF_SYSTEM_API) []])
      else if \<not> CheckPermission_mask K E msk
      then ((RegisterTask E q, Returned (ERR K TELEPHONY_STATE_REGISTRY_PERMISSION_DENIED) []),
            [Registered E q (ERR K TELEPHONY_STATE_REGISTRY_PERMISSION_DENIED) []])
      else if \<not> IsMultiSimsCapabilitySupported K E slotId \<or>
              (slotId > MAX_SLOT_COUNT K + 1 \<or> slotId < -1) \<and> slotId \<noteq> DEFAULT_CONN_SLOT
      then ((RegisterTask E q, Returned (ERR K TELEPHONY_SUCCESS) []), [Registered E q (ERR K TELEPHONY_SUCCESS) []])
      else ((RegisterTask E q, AwaitUnique), [])))"
| "thread_outer K (UnregisterTask E k, Calling) s = (case k of (slotId, msk, tokenId, pid) \<Rightarrow> Some
     (if \<not> CheckCallerIsSystemApp K E msk
      then ((UnregisterTask E k, Returned (ERR K TELEPHONY_ERR_ILLEGAL_USE_OF_SYSTEM_API) []),
            [Unregistered E k (ERR K TELEPHONY_ERR_ILLEGAL_USE_OF_SYSTEM_API)])
      else if \<not> CheckPermission_mask K E msk
      then ((UnregisterTask E k, Returned (ERR K TELEPHONY_STATE_REGISTRY_PERMISSION_DENIED) []),
            [Unregistered E k (ERR K TELEPHONY_STATE_REGISTRY_PERMISSION_DENIED)])
      else ((UnregisterTask E k, AwaitUnique), [])))"
| "thread_outer K t s = None"

fun thread_wants :: "('sig, 'cell, 'net) thread \<Rightarrow> lock_mode option" where
  "thread_wants (_, AwaitUnique) = Some Unique"
| "thread_wants (UpdateTask _ _, AwaitShared) = Some Shared"
| "thread_wants _ = None"

fun thread_enter :: "build \<Rightarrow> ('sig, 'cell, 'net) thread \<Rightarrow> ('sig, 'cell, 'net) thread" where
  "thread_enter K (UpdateTask E u, AwaitUnique) = (UpdateTask E u, Writing (write_steps E u))"
| "thread_enter K (RegisterTask E q, AwaitUnique) = (RegisterTask E q, Searching 0)"
| "thread_enter K (UnregisterTask E k, AwaitUnique) = (UnregisterTask E k, Erasing 0)"
| "thread_enter K (UpdateTask E u, AwaitShared) =
     (UpdateTask E u, Notifying 0 (ERR K TELEPHONY_STATE_REGISTRY_DATA_NOT_EXIST, []))"
| "thread_enter K t = t"

fun phase_holds :: "('sig, 'cell, 'net) phase \<Rightarrow> lock_mode option" where
  "phase_holds (Writing _) = Some Unique"
| "phase_holds (Notifying _ _) = Some Shared"
| "phase_holds (Sent _) = Some Shared"
| "phase_holds (Searching _) = Some Unique"
| "phase_holds (Telling _ _) = Some Unique"
| "phase_holds (Erasing _) = Some Unique"
| "phase_holds (Erased _) = Some Unique"
| "phase_holds _ = None"

fun thread_instr ::
    "build \<Rightarrow> ('sig, 'cell, 'net) thread \<Rightarrow> ('sig, 'cell, 'net) service \<Rightarrow>
     (('sig, 'cell, 'net) thread \<times> ('sig, 'cell, 'net) service) option" where
  "thread_instr K (UpdateTask E u, Writing (f # fs)) s = Some ((UpdateTask E u, Writing fs), f s)"
| "thread_instr K (UpdateTask E u, Notifying i acc) s =
     (if i < length (stateRecords_of s)
      then let (acc', stop, s') = record_step K E u (stateRecords_of s ! i) acc s
           in Some ((UpdateTask E u, if stop then Sent acc' else Notifying (Suc i) acc'), s')
      else Some ((UpdateTask E u, Sent (fst acc, snd acc @ update_events E u)), s))"
| "thread_instr K (RegisterTask E q, Searching i) s =
     (if i < length (stateRecords_of s)
      then if has_key (rq_key q) (stateRecords_of s ! i)
           then Some ((RegisterTask E q, Telling (tell_steps K E q (stateRecords_of s ! i)) []), s)
           else Some ((RegisterTask E q, Searching (Suc i)), s)
      else let r = new_record (rq_key q) (rq_observer q, rq_bundleName q, rq_uid q, rq_appIdentifier q)
           in Some ((RegisterTask E q, Telling (tell_steps K E q r) []),
                    s\<lparr>stateRecords_of := stateRecords_of s @ [r]\<rparr>))"
| "thread_instr K (RegisterTask E q, Telling (a # as) es) s =
     (let (s', e) = a s in Some ((RegisterTask E q, Telling as (es @ e)), s'))"
| "thread_instr K (UnregisterTask E k, Erasing i) s =
     (if i < length (stateRecords_of s)
      then if has_key k (stateRecords_of s ! i)
           then Some ((UnregisterTask E k, Erased True),
                      s\<lparr>stateRecords_of := take i (stateRecords_of s) @ drop (Suc i) (stateRecords_of s)\<rparr>)
           else Some ((UnregisterTask E k, Erasing (Suc i)), s)
      else Some ((UnregisterTask E k, Erased False), s))"
| "thread_instr K t s = None"

text \<open>The release of the lock. The last equation is for phases a task does not have.\<close>

fun thread_leave ::
    "build \<Rightarrow> ('sig, 'cell, 'net) thread \<Rightarrow> ('sig, 'cell, 'net) thread \<times> ('sig, 'cell, 'net) event list" where
  "thread_leave K (UpdateTask E u, Writing []) = ((UpdateTask E u, AwaitShared), [Wrote E u])"
| "thread_leave K (UpdateTask E u, Sent (res, es)) = ((UpdateTask E u, Returned res es), [Notified E u res es])"
| "thread_leave K (RegisterTask E q, Telling [] es) =
     ((RegisterTask E q, Returned (ERR K TELEPHONY_SUCCESS) es), [Registered E q (ERR K TELEPHONY_SUCCESS) es])"
| "thread_leave K (UnregisterTask E k, Erased found) =
     (let res = (if found then ERR K TELEPHONY_SUCCESS else ERR K TELEPHONY_STATE_UNREGISTRY_DATA_NOT_EXIST)
      in ((UnregisterTask E k, Returned res []), [Unregistered E k res]))"
| "thread_leave K (task, phase) = ((task, Returned 0 []), [])"

definition service_threads ::
    "build \<Rightarrow> (('sig, 'cell, 'net) thread, ('sig, 'cell, 'net) service, ('sig, 'cell, 'net) event) machine" where
  "service_threads K = \<lparr>fresh = (\<lambda>t. snd t = Calling), outer = thread_outer K, wants = thread_wants,
     enter = thread_enter K, holds = (\<lambda>t. phase_holds (snd t)), instr = thread_instr K, leave = thread_leave K\<rparr>"

section \<open>The rules of locking hold\<close>

text \<open>What a thread relies on: its checks, and, from the write section on, the cached number.\<close>

fun thread_ok :: "build \<Rightarrow> ('sig, 'cell, 'net) thread \<Rightarrow> ('sig, 'cell, 'net) service \<Rightarrow> bool" where
  "thread_ok K (UpdateTask E u, AwaitUnique) s = (slot_verified s u \<and> update_allowed E u)"
| "thread_ok K (UpdateTask E u, Writing fs) s = (slot_verified s u \<and> update_allowed E u \<and>
     (\<forall>f \<in> set fs. \<forall>s. grows s (f s)) \<and> number_cached (fold (\<lambda>f. f) fs s) u)"
| "thread_ok K (UpdateTask E u, AwaitShared) s = (slot_verified s u \<and> update_allowed E u \<and> number_cached s u)"
| "thread_ok K (UpdateTask E u, Notifying i acc) s = (slot_verified s u \<and> update_allowed E u \<and> number_cached s u)"
| "thread_ok K (RegisterTask E q, AwaitUnique) s = may_register K E (fst (rq_key q)) (fst (snd (rq_key q)))"
| "thread_ok K (UnregisterTask E k, AwaitUnique) s = may_unregister K E (fst (snd k))"
| "thread_ok K (RegisterTask E q, Telling as es) s = (\<forall>a \<in> set as. \<forall>s. grows s (fst (a s)))"
| "thread_ok K t s = True"

lemma write_steps_fold: "fold (\<lambda>f. f) (write_steps E u) s = update_write E u s"
  by (cases u) (auto simp: write_defs Let_def split: option.split)

lemma write_steps_grow: "f \<in> set (write_steps E u) \<Longrightarrow> grows s (f s)"
  by (cases u) (auto simp: grows_def split: option.split)

lemma grows_if_mask: "(\<And>s. grows s (fst (a s))) \<Longrightarrow> grows s (fst (if_mask K r m a s))"
  by (simp add: if_mask_def skip_def)

lemma grows_data:
  "grows s (fst (data_call_state K E r s))" "grows s (fst (data_signal_info r s))"
  "grows s (fst (data_network_state r s))" "grows s (fst (data_cell_info r s))"
  "grows s (fst (data_sim_state r s))" "grows s (fst (data_connection r s))" "grows s (fst (data_flow r s))"
  "grows s (fst (data_cfu r s))" "grows s (fst (data_voice_mail r s))" "grows s (fst (data_icc_account r s))"
  "grows s (fst (data_call_state_ex r s))" "grows s (fst (data_ccall_state K E r s))"
  "grows s (fst (data_sim_active r s))"
  by (auto simp: grows_def data_defs Let_def map_index_def split: option.splits)

lemma data_steps_grow: "a \<in> set (data_steps K E r) \<Longrightarrow> grows s (fst (a s))"
  by (auto simp: data_steps_def intro!: grows_if_mask grows_data)

lemma tell_steps_grow: "a \<in> set (tell_steps K E q r) \<Longrightarrow> grows s (fst (a s))"
  by (auto simp: tell_steps_def data_steps_grow split: if_splits)

lemma record_step_keeps: "number_cached s u \<Longrightarrow> snd (snd (record_step K E u r acc s)) = s"
  by (cases u) (auto simp: number_cached_def GetCallIncomingNumber_keeps)

lemma instr_grows:
  assumes "thread_ok K t s" and "thread_instr K t s = Some (t', s')"
  shows "grows s s'"
proof (cases "(K, t, s)" rule: thread_instr.cases)
  case (2 K' E u i acc s1)
  then have "snd (snd (record_step K E u r acc s)) = s" for r
    using assms(1) record_step_keeps [of s u K E r acc] by simp
  with 2 assms(2) show ?thesis by (auto simp: Let_def case_prod_beta split: if_splits)
next
  case (4 K' E q a as es s1)
  with assms show ?thesis by (auto simp: case_prod_beta)
qed (use assms in \<open>auto simp: Let_def split: if_splits\<close>)

lemma thread_ok_grows:
  assumes "thread_ok K t s" and "grows s s'" and "phase_holds (snd t) = None"
  shows "thread_ok K t s'"
  using assms
  by (cases "(K, t, s)" rule: thread_ok.cases) (simp_all add: grows_slot_verified grows_number_cached)

lemma no_write_cached: "write_steps E u = [] \<Longrightarrow> number_cached s u"
  by (cases u) (auto simp: number_cached_def)

lemma thread_ok_outer:
  assumes "thread_outer K t s = Some (t', vs)"
  shows "thread_ok K t' s \<and> phase_holds (snd t') = None"
proof (cases "(K, t, s)" rule: thread_outer.cases)
  case (1 K' E u s1)
  with assms show ?thesis by (auto simp: no_write_cached split: if_splits)
next
  case (2 K' E q s1)
  with assms show ?thesis
    by (cases "rq_key q") (auto simp: may_register_def slot_in_range_def split: if_splits)
next
  case (3 K' E k s1)
  with assms show ?thesis by (cases k) (auto simp: may_unregister_def split: if_splits)
qed (use assms in auto)

lemma thread_wants_out: "thread_wants t = Some m \<Longrightarrow> phase_holds (snd t) = None"
  by (cases t rule: thread_wants.cases) auto

lemma thread_enter_holds: "thread_wants t = Some m \<Longrightarrow> phase_holds (snd (thread_enter K t)) = Some m"
  by (cases "(K, t)" rule: thread_enter.cases) auto

lemma thread_ok_enter: "thread_ok K t s \<Longrightarrow> thread_wants t = Some m \<Longrightarrow> thread_ok K (thread_enter K t) s"
  by (cases "(K, t)" rule: thread_enter.cases)
    (auto simp: write_steps_fold number_cached_write write_steps_grow)

lemma thread_instr_holds: "thread_instr K t s = Some (t', s') \<Longrightarrow> phase_holds (snd t') = phase_holds (snd t)"
  by (cases "(K, t, s)" rule: thread_instr.cases) (auto simp: Let_def split: if_splits prod.splits)

lemma thread_ok_instr:
  assumes "thread_ok K t s" and "thread_instr K t s = Some (t', s')"
  shows "thread_ok K t' s'"
proof (cases "(K, t, s)" rule: thread_instr.cases)
  case (1 K' E u f fs s1)
  with assms have "grows s s'" using instr_grows by blast
  with 1 assms show ?thesis by (auto simp: grows_slot_verified)
next
  case (2 K' E u i acc s1)
  then have "snd (snd (record_step K E u r acc s)) = s" for r
    using assms(1) record_step_keeps [of s u K E r acc] by simp
  with 2 assms show ?thesis by (auto simp: Let_def case_prod_beta split: if_splits)
next
  case (3 K' E q i s1)
  with assms show ?thesis by (auto simp: Let_def tell_steps_grow split: if_splits)
next
  case (4 K' E q a as es s1)
  with assms show ?thesis by (auto simp: case_prod_beta)
qed (use assms in \<open>auto simp: Let_def split: if_splits\<close>)

lemma thread_leave_holds: "thread_leave K t = (t', vs) \<Longrightarrow> phase_holds (snd t') = None"
  by (cases "(K, t)" rule: thread_leave.cases) (auto simp: Let_def)

lemma thread_ok_leave: "thread_ok K t s \<Longrightarrow> thread_leave K t = (t', vs) \<Longrightarrow> thread_ok K t' s"
  by (cases "(K, t)" rule: thread_leave.cases) (auto simp: Let_def)

lemma thread_shared_reads:
  assumes "thread_ok K t s" and "phase_holds (snd t) = Some Shared" and "thread_instr K t s = Some (t', s')"
  shows "s' = s"
proof (cases "(K, t, s)" rule: thread_instr.cases)
  case (2 K' E u i acc s1)
  then have "snd (snd (record_step K E u r acc s)) = s" for r
    using assms(1) record_step_keeps [of s u K E r acc] by simp
  with 2 assms show ?thesis by (auto simp: Let_def case_prod_beta split: if_splits)
qed (use assms in auto)

lemma thread_outer_static: "slotSize_of s = slotSize_of s' \<Longrightarrow> thread_outer K t s = thread_outer K t s'"
  by (cases "(K, t, s)" rule: thread_outer.cases)
    (auto simp: slot_verified_def VerifySlotId_def split: option.splits)

interpretation svc: atomic_sections "service_threads K" "thread_ok K" slotSize_of
proof unfold_locales
  fix l l' k k' :: "('a, 'b, 'c) thread" and s s' :: "('a, 'b, 'c) service" and m vs
  show "fresh (service_threads K) l \<Longrightarrow> thread_ok K l s"
    by (cases "(K, l, s)" rule: thread_ok.cases) (auto simp: service_threads_def)
  show "thread_ok K l s \<Longrightarrow> holds (service_threads K) l = None \<Longrightarrow> thread_ok K k s \<Longrightarrow>
      instr (service_threads K) k s = Some (k', s') \<Longrightarrow> thread_ok K l s'"
    by (simp add: service_threads_def) (blast intro: thread_ok_grows instr_grows)
  show "thread_ok K l s \<Longrightarrow> instr (service_threads K) l s = Some (l', s') \<Longrightarrow> slotSize_of s' = slotSize_of s"
    by (simp add: service_threads_def) (drule (1) instr_grows, simp add: grows_def)
  show "thread_ok K l s \<Longrightarrow> holds (service_threads K) l = Some m \<Longrightarrow> instr (service_threads K) l s = None \<Longrightarrow>
      leave (service_threads K) l = (l', vs) \<Longrightarrow> thread_ok K l' s"
    by (simp add: service_threads_def) (blast intro: thread_ok_leave)
  show "thread_ok K l s \<Longrightarrow> holds (service_threads K) l = Some Shared \<Longrightarrow>
      instr (service_threads K) l s = Some (l', s') \<Longrightarrow> s' = s"
    by (simp add: service_threads_def) (blast intro: thread_shared_reads)
  show "slotSize_of s = slotSize_of s' \<Longrightarrow> outer (service_threads K) l s = outer (service_threads K) l s'"
    by (simp add: service_threads_def) (rule thread_outer_static)
qed (auto simp: service_threads_def thread_wants_out thread_enter_holds thread_instr_holds thread_ok_enter
    thread_ok_instr dest: thread_ok_outer thread_leave_holds)

section \<open>What a section does\<close>

lemma threads_sel [simp]:
  "fresh (service_threads K) t \<longleftrightarrow> snd t = Calling" "outer (service_threads K) = thread_outer K"
  "wants (service_threads K) = thread_wants" "enter (service_threads K) = thread_enter K"
  "holds (service_threads K) t = phase_holds (snd t)" "instr (service_threads K) = thread_instr K"
  "leave (service_threads K) = thread_leave K"
  by (simp_all add: service_threads_def)

text \<open>A property of a thread and the state that every instruction keeps holds to the end of the section.\<close>

lemma in_section_invariant:
  assumes "in_section M p q" and "case_prod P p"
    and "\<And>l s l' s'. P l s \<Longrightarrow> instr M l s = Some (l', s') \<Longrightarrow> P l' s'"
  shows "case_prod P q"
  using assms(1,2)
proof (induction rule: in_section.induct)
  case (further p l s q)
  then show ?case using assms(3) [of l s "fst q" "snd q"] by (simp add: case_prod_beta)
qed

lemma write_section:
  assumes "in_section (service_threads K) (thread_enter K (UpdateTask E u, AwaitUnique), s0) (t, s')"
    and "thread_instr K t s' = None"
  shows "t = (UpdateTask E u, Writing []) \<and> s' = update_write E u s0"
proof -
  define P where "P t s' \<longleftrightarrow> (\<exists>fs. t = (UpdateTask E u, Writing fs) \<and> fold (\<lambda>f. f) fs s' = update_write E u s0)"
    for t s'
  have "case_prod P (t, s')"
  proof (rule in_section_invariant [OF assms(1)])
    show "case_prod P (thread_enter K (UpdateTask E u, AwaitUnique), s0)"
      by (simp add: P_def write_steps_fold)
    fix l s l' s'
    assume "P l s" and step: "instr (service_threads K) l s = Some (l', s')"
    then obtain fs where "l = (UpdateTask E u, Writing fs)" and fold: "fold (\<lambda>f. f) fs s = update_write E u s0"
      by (auto simp: P_def)
    with step show "P l' s'" by (cases fs) (auto simp: P_def)
  qed
  then obtain fs where "t = (UpdateTask E u, Writing fs)" and "fold (\<lambda>f. f) fs s' = update_write E u s0"
    by (auto simp: P_def)
  then show ?thesis using assms(2) by (cases fs) auto
qed

text \<open>The rest of the notification loop, from a given record on.\<close>

fun notify_rest ::
    "build \<Rightarrow> ('sig, 'cell, 'net) world \<Rightarrow> ('sig, 'cell, 'net) update \<Rightarrow> ('sig, 'cell, 'net) service \<Rightarrow>
     TelephonyStateRegistryRecord list \<Rightarrow> ('sig, 'cell, 'net) loop \<Rightarrow> ('sig, 'cell, 'net) loop" where
  "notify_rest K E u s [] acc = (fst acc, snd acc @ update_events E u)"
| "notify_rest K E u s (r # rs) acc =
     (let (acc', stop, s') = record_step K E u r acc s in if stop then acc' else notify_rest K E u s rs acc')"

lemma notify_rest_for_each:
  assumes "\<And>r acc. fst (record_step K E u r acc s) = body r acc \<and> \<not> fst (snd (record_step K E u r acc s))"
  shows "notify_rest K E u s rs acc =
    (fst (for_each body rs acc), snd (for_each body rs acc) @ update_events E u)"
  by (induction rs arbitrary: acc) (simp_all add: case_prod_beta Let_def assms)

lemma notify_rest_cell: "notify_rest K E (UCell k v) s rs acc = UpdateCellInfo_loop K E k v rs acc"
proof (induction rs arbitrary: acc)
  case Nil
  then show ?case by (cases acc) simp
next
  case (Cons r rs)
  then show ?case by (cases acc) (auto split: option.split)
qed

lemma notify_rest_all:
  "notify_rest K E u s (stateRecords_of s) (ERR K TELEPHONY_STATE_REGISTRY_DATA_NOT_EXIST, []) = update_notify K E u s"
proof (cases "\<exists>k v. u = UCell k v")
  case True
  then show ?thesis by (auto simp: notify_rest_cell UpdateCellInfo_notify_def)
next
  case False
  then have "notify_rest K E u s rs acc =
      (let out = for_each (\<lambda>r acc. fst (record_step K E u r acc s)) rs acc in (fst out, snd out @ update_events E u))"
    for rs acc
    unfolding Let_def by (intro notify_rest_for_each) (cases u; simp)
  with False show ?thesis by (cases u) (simp_all add: notify_defs Let_def case_prod_beta)
qed

lemma notify_section:
  assumes "in_section (service_threads K) (thread_enter K (UpdateTask E u, AwaitShared), s0) (t, s')"
    and "thread_instr K t s' = None" and cached: "number_cached s0 u"
  shows "t = (UpdateTask E u, Sent (update_notify K E u s0)) \<and> s' = s0"
proof -
  define P where "P t s' \<longleftrightarrow> s' = s0 \<and>
      ((\<exists>i acc. t = (UpdateTask E u, Notifying i acc) \<and>
          notify_rest K E u s0 (drop i (stateRecords_of s0)) acc = update_notify K E u s0) \<or>
       t = (UpdateTask E u, Sent (update_notify K E u s0)))" for t s'
  have "case_prod P (t, s')"
  proof (rule in_section_invariant [OF assms(1)])
    show "case_prod P (thread_enter K (UpdateTask E u, AwaitShared), s0)"
      by (simp add: P_def notify_rest_all)
    fix l s l' s'
    assume "P l s" and step: "instr (service_threads K) l s = Some (l', s')"
    then obtain i acc where l: "l = (UpdateTask E u, Notifying i acc)" and s: "s = s0"
      and rest: "notify_rest K E u s0 (drop i (stateRecords_of s0)) acc = update_notify K E u s0"
      by (auto simp: P_def)
    show "P l' s'"
    proof (cases "i < length (stateRecords_of s0)")
      case True
      then have "drop i (stateRecords_of s0) = stateRecords_of s0 ! i # drop (Suc i) (stateRecords_of s0)"
        by (simp add: Cons_nth_drop_Suc)
      moreover obtain acc' stop s1 where r: "record_step K E u (stateRecords_of s0 ! i) acc s0 = (acc', stop, s1)"
        by (cases "record_step K E u (stateRecords_of s0 ! i) acc s0")
      moreover have "s1 = s0" using record_step_keeps [OF cached, of K E "stateRecords_of s0 ! i" acc] r by simp
      ultimately show ?thesis using True step rest by (cases acc') (auto simp: P_def l s split: if_splits)
    next
      case False
      with step rest show ?thesis by (auto simp: P_def l s)
    qed
  qed
  then show ?thesis using assms(2) by (auto simp: P_def Let_def case_prod_beta split: if_splits)
qed

text \<open>The statements of the immediate notification, one after the other.\<close>

definition run_steps ::
    "('sig, 'cell, 'net) action list \<Rightarrow> ('sig, 'cell, 'net) service \<times> ('sig, 'cell, 'net) effect list \<Rightarrow>
     ('sig, 'cell, 'net) service \<times> ('sig, 'cell, 'net) effect list" where
  "run_steps as = fold (\<lambda>a (s, es). (fst (a s), es @ snd (a s))) as"

lemma run_steps_simps [simp]:
  "run_steps [] p = p" "run_steps (a # as) (s, es) = run_steps as (fst (a s), es @ snd (a s))"
  by (simp_all add: run_steps_def)

lemma run_steps_seq:
  assumes "\<And>p. run_steps as p = (fst (g (fst p)), snd p @ snd (g (fst p)))"
  shows "run_steps (a # as) p = (fst (seq a g (fst p)), snd p @ snd (seq a g (fst p)))"
  by (cases p) (simp add: assms seq_def case_prod_beta Let_def)

lemma run_steps_data:
  assumes "telephonyObserver_of r \<noteq> None"
  shows "run_steps (data_steps K E r) p = (fst (UpdateData K E r (fst p)), snd p @ snd (UpdateData K E r (fst p)))"
proof -
  have last: "run_steps [a] p = (fst (a (fst p)), snd p @ snd (a (fst p)))" for a :: "('a, 'b, 'c) action" and p
    by (cases p) simp
  show ?thesis
    unfolding data_steps_def UpdateData_def UpdateDataEx_def if_not_P [OF assms]
    by (intro run_steps_seq last)
qed

lemma run_steps_tell:
  "run_steps (tell_steps K E q r) (s, []) = (if rq_isUpdate q then UpdateData K E r s else (s, []))"
proof (cases "telephonyObserver_of r")
  case None
  then show ?thesis by (simp add: tell_steps_def UpdateData_def skip_def)
next
  case (Some ob)
  then show ?thesis by (simp add: tell_steps_def run_steps_data)
qed

lemma has_key_iff: "has_key k r \<longleftrightarrow> key_of r = k"
  by (cases k) (simp add: has_key_def is_registration_key)

text \<open>A search that stops at the position \<open>i\<close> finds what is there.\<close>

lemma find_at:
  assumes "\<forall>r \<in> set (take i rs). \<not> P r"
  shows "List.find P rs = List.find P (drop i rs)"
proof -
  have "List.find P (take i rs) = None" using assms by (simp add: find_None_iff)
  then have "List.find P (take i rs @ drop i rs) = List.find P (drop i rs)" by (simp add: find_append del: append_take_drop_id)
  then show ?thesis by simp
qed

lemma registered_at:
  assumes "\<forall>r \<in> set (take i (stateRecords_of s)). \<not> has_key k r"
  shows "i < length (stateRecords_of s) \<Longrightarrow> has_key k (stateRecords_of s ! i) \<Longrightarrow>
      registered s k = Some (stateRecords_of s ! i)"
    and "\<not> i < length (stateRecords_of s) \<Longrightarrow> registered s k = None"
  using find_at [OF assms] by (simp_all add: registered_eq has_key_iff flip: Cons_nth_drop_Suc)

lemma take_Suc_all:
  "\<forall>r \<in> set (take i rs). P r \<Longrightarrow> i < length rs \<Longrightarrow> P (rs ! i) \<Longrightarrow> \<forall>r \<in> set (take (Suc i) rs). P r"
  by (auto simp: take_Suc_conv_app_nth)

lemma register_section:
  assumes "in_section (service_threads K) (thread_enter K (RegisterTask E q, AwaitUnique), s0) (t, s')"
    and "thread_instr K t s' = None" and may: "may_register K E (fst (rq_key q)) (fst (snd (rq_key q)))"
  shows "\<exists>es. t = (RegisterTask E q, Telling [] es) \<and> run_register K E q s0 = (ERR K TELEPHONY_SUCCESS, s', es)"
proof -
  define out where "out = snd (run_register K E q s0)"
  define r1 where "r1 = new_record (rq_key q) (rq_observer q, rq_bundleName q, rq_uid q, rq_appIdentifier q)"
  have reg: "run_register K E q s0 = (ERR K TELEPHONY_SUCCESS,
      case registered s0 (rq_key q) of
        None \<Rightarrow> if rq_isUpdate q then UpdateData K E r1 (s0\<lparr>stateRecords_of := stateRecords_of s0 @ [r1]\<rparr>)
                else (s0\<lparr>stateRecords_of := stateRecords_of s0 @ [r1]\<rparr>, [])
      | Some r \<Rightarrow> if rq_isUpdate q then UpdateData K E r s0 else (s0, []))"
    using may by (cases "rq_key q")
      (auto simp: run_register_def RegisterStateChange_eq may_register_def r1_def Let_def split: option.split)
  define P where "P t s' \<longleftrightarrow> (\<exists>i. t = (RegisterTask E q, Searching i) \<and> s' = s0 \<and>
        (\<forall>r \<in> set (take i (stateRecords_of s0)). \<not> has_key (rq_key q) r)) \<or>
      (\<exists>as es. t = (RegisterTask E q, Telling as es) \<and> run_steps as (s', es) = out)" for t s'
  have "case_prod P (t, s')"
  proof (rule in_section_invariant [OF assms(1)])
    show "case_prod P (thread_enter K (RegisterTask E q, AwaitUnique), s0)" by (simp add: P_def)
    fix l s l' s'
    assume "P l s" and step: "instr (service_threads K) l s = Some (l', s')"
    then consider (search) i where "l = (RegisterTask E q, Searching i)" "s = s0"
        "\<forall>r \<in> set (take i (stateRecords_of s0)). \<not> has_key (rq_key q) r"
      | (tell) as es where "l = (RegisterTask E q, Telling as es)" "run_steps as (s, es) = out"
      unfolding P_def by blast
    then show "P l' s'"
    proof cases
      case search
      consider (hit) "i < length (stateRecords_of s0)" "has_key (rq_key q) (stateRecords_of s0 ! i)"
        | (miss) "i < length (stateRecords_of s0)" "\<not> has_key (rq_key q) (stateRecords_of s0 ! i)"
        | (past) "\<not> i < length (stateRecords_of s0)" by blast
      then show ?thesis
      proof cases
        case hit
        then have "out = (if rq_isUpdate q then UpdateData K E (stateRecords_of s0 ! i) s0 else (s0, []))"
          using registered_at(1) [OF search(3)] by (simp add: out_def reg)
        with hit step search(1,2) show ?thesis by (auto simp: P_def run_steps_tell)
      next
        case miss
        with step search(1,2) take_Suc_all [OF search(3) miss(1)] show ?thesis by (auto simp: P_def)
      next
        case past
        then have "out = (if rq_isUpdate q then UpdateData K E r1 (s0\<lparr>stateRecords_of := stateRecords_of s0 @ [r1]\<rparr>)
            else (s0\<lparr>stateRecords_of := stateRecords_of s0 @ [r1]\<rparr>, []))"
          using registered_at(2) [OF search(3)] by (simp add: out_def reg)
        with past step search(1,2) show ?thesis by (auto simp: P_def run_steps_tell r1_def Let_def)
      qed
    next
      case tell
      then show ?thesis using step by (cases as) (auto simp: P_def case_prod_beta)
    qed
  qed
  then consider i where "t = (RegisterTask E q, Searching i)"
    | as es where "t = (RegisterTask E q, Telling as es)" "run_steps as (s', es) = out"
    by (auto simp: P_def)
  then show ?thesis
  proof cases
    case 1
    with assms(2) show ?thesis by (simp add: Let_def split: if_splits)
  next
    case 2
    with assms(2) show ?thesis by (cases as) (auto simp: case_prod_beta out_def reg)
  qed
qed

lemma erase_skips:
  assumes "\<forall>r \<in> set xs. \<not> has_key (slotId, msk, tokenId, pid) r"
  shows "erase_registration slotId msk tokenId pid (xs @ ys) =
    (xs @ fst (erase_registration slotId msk tokenId pid ys), snd (erase_registration slotId msk tokenId pid ys))"
  using assms by (induction xs) (simp_all add: has_key_def case_prod_beta Let_def)

lemma erase_at:
  assumes "\<forall>r \<in> set (take i rs). \<not> has_key (slotId, msk, tokenId, pid) r"
  shows "i < length rs \<Longrightarrow> has_key (slotId, msk, tokenId, pid) (rs ! i) \<Longrightarrow>
      erase_registration slotId msk tokenId pid rs = (take i rs @ drop (Suc i) rs, True)"
    and "\<not> i < length rs \<Longrightarrow> erase_registration slotId msk tokenId pid rs = (rs, False)"
proof -
  have skips: "erase_registration slotId msk tokenId pid rs =
      (take i rs @ fst (erase_registration slotId msk tokenId pid (drop i rs)),
       snd (erase_registration slotId msk tokenId pid (drop i rs)))"
    using erase_skips [OF assms, of "drop i rs"] by simp
  show "erase_registration slotId msk tokenId pid rs = (take i rs @ drop (Suc i) rs, True)"
    if "i < length rs" "has_key (slotId, msk, tokenId, pid) (rs ! i)"
    unfolding skips Cons_nth_drop_Suc [OF that(1), symmetric] using that(2) by (simp add: has_key_def)
  show "erase_registration slotId msk tokenId pid rs = (rs, False)" if "\<not> i < length rs"
    unfolding skips using that by simp
qed

lemma unregister_section:
  assumes "in_section (service_threads K) (thread_enter K (UnregisterTask E k, AwaitUnique), s0) (t, s')"
    and "thread_instr K t s' = None" and may: "may_unregister K E (fst (snd k))"
  shows "\<exists>found. t = (UnregisterTask E k, Erased found) \<and> run_unregister K E k s0 =
    (if found then ERR K TELEPHONY_SUCCESS else ERR K TELEPHONY_STATE_UNREGISTRY_DATA_NOT_EXIST, s', [])"
proof -
  obtain slotId msk tokenId pid where k: "k = (slotId, msk, tokenId, pid)" by (cases k)
  have unreg: "run_unregister K E k s0 =
      (let (rs, found) = erase_registration slotId msk tokenId pid (stateRecords_of s0)
       in (if found then ERR K TELEPHONY_SUCCESS else ERR K TELEPHONY_STATE_UNREGISTRY_DATA_NOT_EXIST,
           s0\<lparr>stateRecords_of := rs\<rparr>, []))"
    using may by (simp add: k run_unregister_def UnregisterStateChange_def may_unregister_def)
  define P where "P t s' \<longleftrightarrow> (\<exists>i. t = (UnregisterTask E k, Erasing i) \<and> s' = s0 \<and>
        (\<forall>r \<in> set (take i (stateRecords_of s0)). \<not> has_key k r)) \<or>
      (\<exists>found rs. t = (UnregisterTask E k, Erased found) \<and> s' = s0\<lparr>stateRecords_of := rs\<rparr> \<and>
        erase_registration slotId msk tokenId pid (stateRecords_of s0) = (rs, found))"
    for t :: "('a, 'b, 'c) thread" and s'
  have "case_prod P (t, s')"
  proof (rule in_section_invariant [OF assms(1)])
    show "case_prod P (thread_enter K (UnregisterTask E k, AwaitUnique), s0)" by (simp add: P_def)
    fix l s l' s'
    assume "P l s" and step: "instr (service_threads K) l s = Some (l', s')"
    then obtain i where i: "l = (UnregisterTask E k, Erasing i)" "s = s0"
        "\<forall>r \<in> set (take i (stateRecords_of s0)). \<not> has_key k r"
      by (auto simp: P_def)
    consider (hit) "i < length (stateRecords_of s0)" "has_key k (stateRecords_of s0 ! i)"
      | (miss) "i < length (stateRecords_of s0)" "\<not> has_key k (stateRecords_of s0 ! i)"
      | (past) "\<not> i < length (stateRecords_of s0)" by blast
    then show "P l' s'"
    proof cases
      case hit
      with step i(1,2) erase_at(1) [OF i(3) [unfolded k] hit [unfolded k]] show ?thesis by (auto simp: P_def)
    next
      case miss
      with step i(1,2) take_Suc_all [OF i(3) miss(1)] show ?thesis by (auto simp: P_def)
    next
      case past
      with step i(1,2) erase_at(2) [OF i(3) [unfolded k] past] show ?thesis by (auto simp: P_def)
    qed
  qed
  then consider i where "t = (UnregisterTask E k, Erasing i)"
    | found rs where "t = (UnregisterTask E k, Erased found)" "s' = s0\<lparr>stateRecords_of := rs\<rparr>"
        "erase_registration slotId msk tokenId pid (stateRecords_of s0) = (rs, found)"
    unfolding P_def by auto
  then show ?thesis
  proof cases
    case 1
    with assms(2) show ?thesis by (simp split: if_splits)
  next
    case 2
    then show ?thesis by (simp add: unreg)
  qed
qed

section \<open>The same traces\<close>

text \<open>The updates between their two sections.\<close>

fun awaits ::
    "('sig, 'cell, 'net) thread \<Rightarrow> (('sig, 'cell, 'net) world \<times> ('sig, 'cell, 'net) update) option" where
  "awaits (UpdateTask E u, AwaitShared) = Some (E, u)"
| "awaits _ = None"

definition awaiting ::
    "('sig, 'cell, 'net) thread list \<Rightarrow> (('sig, 'cell, 'net) world \<times> ('sig, 'cell, 'net) update) multiset" where
  "awaiting ts = mset (List.map_filter awaits ts)"

lemma awaiting_append [simp]: "awaiting (xs @ ys) = awaiting xs + awaiting ys"
  by (simp add: awaiting_def map_filter_def)

lemma awaiting_Cons [simp]:
  "awaiting (t # ts) = (case awaits t of None \<Rightarrow> {#} | Some p \<Rightarrow> {#p#}) + awaiting ts"
  by (simp add: awaiting_def map_filter_simps split: option.split)

lemma awaiting_Nil [simp]: "awaiting [] = {#}"
  by (simp add: awaiting_def map_filter_def)

lemma awaiting_update:
  assumes "i < length ts"
  shows "awaiting (ts[i := t]) + (case awaits (ts ! i) of None \<Rightarrow> {#} | Some p \<Rightarrow> {#p#}) =
    awaiting ts + (case awaits t of None \<Rightarrow> {#} | Some p \<Rightarrow> {#p#})"
proof -
  have "awaiting ts = awaiting (take i ts @ ts ! i # drop (Suc i) ts)"
    using assms by (simp add: id_take_nth_drop [symmetric])
  then show ?thesis using assms by (simp add: upd_conv_take_nth_drop ac_simps)
qed

definition agrees ::
    "('sig, 'cell, 'net) thread list \<times> ('sig, 'cell, 'net) service \<Rightarrow> ('sig, 'cell, 'net) sys \<Rightarrow> bool" where
  "agrees p x \<longleftrightarrow> svc x = snd p \<and> mset (pend x) = awaiting (fst p)"

lemma threads_ok:
  assumes "coarse_run (service_threads K) s0 tr (ts, s)" and "i < length ts"
  shows "thread_ok K (ts ! i) s"
proof -
  obtain ts' s' where "svc.sim K (ts, s) (ts', s')"
    using svc.coarse_fine [OF assms(1)] svc.sections_refine by blast
  then show ?thesis using assms(2) by (auto simp: svc.sim_def svc.thread_sim_def list_all2_conv_all_nth)
qed

lemma outer_step:
  assumes "thread_outer K (ts ! i) s = Some (t, vs)" and i: "i < length ts" and x: "agrees (ts, s) x"
  shows "\<exists>y. agrees (ts[i := t], s) y \<and> (vs = [] \<and> y = x \<or> (\<exists>v. vs = [v] \<and> step K x v y))"
proof -
  have s: "svc x = s" and p: "mset (pend x) = awaiting ts" using x by (simp_all add: agrees_def)
  note upd = awaiting_update [OF i, of t]
  show ?thesis
  proof (cases "(K, ts ! i, s)" rule: thread_outer.cases)
    case (1 K' E u s1)
    consider "\<not> (slot_verified s u \<and> update_allowed E u)"
      | "slot_verified s u" "update_allowed E u" "write_steps E u = []"
      | "slot_verified s u" "update_allowed E u" "write_steps E u \<noteq> []" by blast
    then show ?thesis
    proof cases
      case not_ok: 1
      then have "step K x (Rejected E u (fst (run_update K E u s))) x"
        using step.reject [of x u E K "fst (run_update K E u s)" s] by (simp add: s run_update_rejected flip: s)
      with not_ok 1 assms(1) upd show ?thesis
        by (intro exI [of _ x]) (auto simp: agrees_def s p run_update_rejected split: if_splits)
    next
      case no_write: 2
      then have "update_write E u s = s" using write_steps_fold [of E u s] by simp
      with no_write have "step K x (Wrote E u) (x\<lparr>pend := pend x @ [(E, u)]\<rparr>)"
        using step.begin_update [of x u E K] by (simp add: s flip: s)
      with no_write 1 assms(1) upd show ?thesis
        by (intro exI [of _ "x\<lparr>pend := pend x @ [(E, u)]\<rparr>"]) (auto simp: agrees_def s p)
    next
      case 3
      with 1 assms(1) upd show ?thesis by (intro exI [of _ x]) (auto simp: agrees_def s p)
    qed
  next
    case (2 K' E q s1)
    obtain slotId msk tokenId pid where k: "rq_key q = (slotId, msk, tokenId, pid)" by (cases "rq_key q")
    show ?thesis
    proof (cases "t = (RegisterTask E q, AwaitUnique)")
      case True
      with 2 assms(1) upd show ?thesis by (intro exI [of _ x]) (auto simp: agrees_def s p k split: if_splits)
    next
      case False
      then obtain res where "t = (RegisterTask E q, Returned res [])" "vs = [Registered E q res []]"
        "run_register K E q s = (res, s, [])"
        using 2 assms(1) by (auto simp: k run_register_def RegisterStateChange_eq may_register_def slot_in_range_def
            split: if_splits)
      with 2 upd step.register [of K E q x res s "[]"] show ?thesis
        by (intro exI [of _ x]) (auto simp: agrees_def s p simp flip: s)
    qed
  next
    case (3 K' E k s1)
    obtain slotId msk tokenId pid where k: "k = (slotId, msk, tokenId, pid)" by (cases k)
    show ?thesis
    proof (cases "t = (UnregisterTask E k, AwaitUnique)")
      case True
      with 3 assms(1) upd show ?thesis by (intro exI [of _ x]) (auto simp: agrees_def s p k split: if_splits)
    next
      case False
      then obtain res where "t = (UnregisterTask E k, Returned res [])" "vs = [Unregistered E k res]"
        "run_unregister K E k s = (res, s, [])"
        using 3 assms(1) by (auto simp: k run_unregister_def UnregisterStateChange_def split: if_splits)
      with 3 upd step.unregister [of K E k x res s] show ?thesis
        by (intro exI [of _ x]) (auto simp: agrees_def s p simp flip: s)
    qed
  qed (use assms(1) in auto)
qed

lemma section_step:
  assumes "thread_wants (ts ! i) = Some m" and "in_section (service_threads K) (thread_enter K (ts ! i), s) (l, s')"
    and "thread_instr K l s' = None" and "thread_leave K l = (t, vs)"
    and ok: "thread_ok K (ts ! i) s" and i: "i < length ts" and x: "agrees (ts, s) x"
  shows "\<exists>y v. agrees (ts[i := t], s') y \<and> vs = [v] \<and> step K x v y"
proof -
  have s: "svc x = s" and p: "mset (pend x) = awaiting ts" using x by (simp_all add: agrees_def)
  note upd = awaiting_update [OF i, of t]
  from assms(1) consider (wr) E u where "ts ! i = (UpdateTask E u, AwaitUnique)"
    | (reg) E q where "ts ! i = (RegisterTask E q, AwaitUnique)"
    | (unreg) E k where "ts ! i = (UnregisterTask E k, AwaitUnique)"
    | (notify) E u where "ts ! i = (UpdateTask E u, AwaitShared)"
    by (cases "fst (ts ! i)"; cases "snd (ts ! i)"; cases "ts ! i"; simp)
  then show ?thesis
  proof cases
    case wr
    have l: "l = (UpdateTask E u, Writing []) \<and> s' = update_write E u s"
      using write_section assms(2,3) wr by metis
    have "step K x (Wrote E u) (x\<lparr>svc := s', pend := pend x @ [(E, u)]\<rparr>)"
      using step.begin_update [of x u E K] ok wr l by (simp add: s)
    with l assms(4) upd wr show ?thesis
      by (intro exI [of _ "x\<lparr>svc := s', pend := pend x @ [(E, u)]\<rparr>"]) (auto simp: agrees_def p)
  next
    case reg
    then obtain es where l: "l = (RegisterTask E q, Telling [] es)"
      and r: "run_register K E q s = (ERR K TELEPHONY_SUCCESS, s', es)"
      using register_section [of K E q s l s'] assms(2,3) ok by auto
    have "step K x (Registered E q (ERR K TELEPHONY_SUCCESS) es) (x\<lparr>svc := s'\<rparr>)"
      using step.register [of K E q x] r by (simp add: s)
    with l assms(4) upd reg show ?thesis
      by (intro exI [of _ "x\<lparr>svc := s'\<rparr>"]) (auto simp: agrees_def p)
  next
    case unreg
    then obtain found where l: "l = (UnregisterTask E k, Erased found)"
      and r: "run_unregister K E k s =
        (if found then ERR K TELEPHONY_SUCCESS else ERR K TELEPHONY_STATE_UNREGISTRY_DATA_NOT_EXIST, s', [])"
      using unregister_section [of K E k s l s'] assms(2,3) ok by auto
    from step.unregister [of K E k x, unfolded s, OF r] l assms(4) upd unreg show ?thesis
      by (intro exI [of _ "x\<lparr>svc := s'\<rparr>"]) (auto simp: agrees_def p Let_def)
  next
    case notify
    then have l: "l = (UpdateTask E u, Sent (update_notify K E u s)) \<and> s' = s"
      using notify_section [of K E u s l s'] assms(2,3) ok by auto
    obtain res es where n: "update_notify K E u s = (res, es)" by (cases "update_notify K E u s")
    have "(E, u) \<in># mset (pend x)"
      unfolding p using nth_mem [OF i] notify by (force simp: awaiting_def map_filter_def)
    then obtain ps qs where pq: "pend x = ps @ (E, u) # qs" by (auto dest: split_list)
    have "step K x (Notified E u res es) (x\<lparr>pend := ps @ qs\<rparr>)"
      by (rule step.finish_update [OF pq]) (simp add: s n)
    moreover have "mset (ps @ qs) = awaiting (ts[i := t])"
    proof -
      have "add_mset (E, u) (mset (ps @ qs)) = add_mset (E, u) (awaiting (ts[i := t]))"
        using p upd l assms(4) notify n by (auto simp: pq)
      then show ?thesis by simp
    qed
    ultimately show ?thesis using l assms(4) n
      by (intro exI [of _ "x\<lparr>pend := ps @ qs\<rparr>"]) (auto simp: agrees_def s)
  qed
qed

theorem coarse_run_runs:
  assumes "coarse_run (service_threads K) (construct_service K) tr (ts, s)"
  shows "\<exists>x. run K tr x \<and> agrees (ts, s) x"
  using assms
proof (induction tr "(ts, s)" arbitrary: ts s rule: coarse_run.induct)
  case coarse_start
  show ?case using run.run_start [of K] by (intro exI [of _ "start_system K"]) (simp add: agrees_def start_system_def)
next
  case (coarse_spawn tr ts s l)
  moreover have "awaits l = None" using coarse_spawn.hyps(3) by (cases l rule: awaits.cases) auto
  ultimately show ?case by (auto simp: agrees_def)
next
  case (coarse_outer tr ts s i l vs)
  then obtain x where "run K tr x" and "agrees (ts, s) x" by blast
  with outer_step [of K ts i s l vs x] coarse_outer.hyps show ?case by (auto intro: run.run_step)
next
  case (coarse_section tr ts s i m l s' l' vs)
  then obtain x where "run K tr x" and "agrees (ts, s) x" by blast
  with section_step [of ts i m K s l s' l' vs x] threads_ok [OF coarse_section.hyps(1,3)] coarse_section.hyps
  show ?case by (auto intro: run.run_step)
qed

text \<open>Conversely: every section ends, so every step of the coarse system is taken by some thread.\<close>

fun thread_work :: "('sig, 'cell, 'net) thread \<Rightarrow> ('sig, 'cell, 'net) service \<Rightarrow> nat" where
  "thread_work (_, Writing fs) s = length fs"
| "thread_work (_, Notifying i acc) s = Suc (length (stateRecords_of s) - i)"
| "thread_work (_, Searching i) s = 14 + (length (stateRecords_of s) - i)"
| "thread_work (_, Telling as es) s = length as"
| "thread_work (_, Erasing i) s = Suc (length (stateRecords_of s) - i)"
| "thread_work _ s = 0"

lemma record_step_records: "stateRecords_of (snd (snd (record_step K E u r acc s))) = stateRecords_of s"
  by (cases u) (auto simp: GetCallIncomingNumberForSlotId_def case_prod_beta Let_def)

lemma tell_steps_length: "length (tell_steps K E q r) \<le> 13"
  by (simp add: tell_steps_def data_steps_def)

lemma instr_work:
  assumes "thread_instr K t s = Some (t', s')"
  shows "thread_work t' s' < thread_work t s"
proof (cases "(K, t, s)" rule: thread_instr.cases)
  case (2 K' E u i acc s1)
  with assms record_step_records [of K E u "stateRecords_of s ! i" acc s] show ?thesis
    by (auto simp: Let_def case_prod_beta split: if_splits)
next
  case (3 K' E q i s1)
  have "length (tell_steps K E q r) < 14" for r using tell_steps_length [of K E q r] by linarith
  moreover from this have "length (tell_steps K E q r) < 14 + (n - i)" for r n by (rule trans_less_add1)
  ultimately show ?thesis using 3 assms by (auto simp: Let_def simp del: Nat.add_diff_assoc split: if_splits)
next
  case (4 K' E q a as es s1)
  with assms show ?thesis by (auto simp: case_prod_beta)
qed (use assms in \<open>auto split: if_splits\<close>)

lemma in_section_prepend: "in_section M q r \<Longrightarrow> instr M l s = Some q \<Longrightarrow> in_section M (l, s) r"
proof (induction rule: in_section.induct)
  case (at_start q)
  then show ?case using in_section.further [OF in_section.at_start, of M l s q] by simp
next
  case (further q l' s' r)
  then show ?case using in_section.further by metis
qed

lemma section_ends: "\<exists>t' s'. in_section (service_threads K) (t, s) (t', s') \<and> thread_instr K t' s' = None"
proof (induction "thread_work t s" arbitrary: t s rule: less_induct)
  case less
  show ?case
  proof (cases "thread_instr K t s")
    case None
    then show ?thesis using in_section.at_start by blast
  next
    case (Some q)
    with less [of "fst q" "snd q"] instr_work [of K t s "fst q" "snd q"]
    obtain t' s' where "in_section (service_threads K) q (t', s')" "thread_instr K t' s' = None" by auto
    moreover have "in_section (service_threads K) (t, s) (t', s')"
      using in_section_prepend [OF calculation(1), of t s] Some by simp
    ultimately show ?thesis by blast
  qed
qed

lemma coarse_sectionI:
  assumes "coarse_run (service_threads K) s0 tr (ts, s)" and "i < length ts" and "thread_wants (ts ! i) = Some m"
  shows "\<exists>l s'. in_section (service_threads K) (thread_enter K (ts ! i), s) (l, s') \<and> thread_instr K l s' = None \<and>
    coarse_run (service_threads K) s0 (tr @ snd (thread_leave K l)) (ts[i := fst (thread_leave K l)], s')"
proof -
  obtain l s' where "in_section (service_threads K) (thread_enter K (ts ! i), s) (l, s')" "thread_instr K l s' = None"
    using section_ends by blast
  moreover from this have "coarse_run (service_threads K) s0 (tr @ snd (thread_leave K l)) (ts[i := fst (thread_leave K l)], s')"
    by (intro coarse_run.coarse_section [OF assms(1,2), of m l s']) (use assms(3) in auto)
  ultimately show ?thesis by blast
qed

lemma coarse_call:
  assumes "coarse_run (service_threads K) s0 tr (ts, s)" and "thread_outer K (task, Calling) s = Some (t, vs)"
  shows "coarse_run (service_threads K) s0 (tr @ vs) (ts @ [t], s)"
  using coarse_run.coarse_outer [OF coarse_run.coarse_spawn [OF assms(1), of "(task, Calling)"], of "length ts" t vs]
    assms(2) by simp

lemma coarse_called:
  assumes "coarse_run (service_threads K) s0 tr (ts, s)"
  shows "\<exists>t vs. thread_outer K (task, Calling) s = Some (t, vs) \<and>
    coarse_run (service_threads K) s0 (tr @ vs) (ts @ [t], s)"
proof -
  have "thread_outer K (task, Calling) s \<noteq> None" by (cases task) (simp_all split: prod.split)
  then obtain t vs where "thread_outer K (task, Calling) s = Some (t, vs)" by auto
  with coarse_call [OF assms this] show ?thesis by blast
qed

lemma coarse_section_last:
  assumes "coarse_run (service_threads K) s0 tr (ts @ [t], s)" and "thread_wants t = Some m"
  shows "\<exists>l s'. in_section (service_threads K) (thread_enter K t, s) (l, s') \<and> thread_instr K l s' = None \<and>
    coarse_run (service_threads K) s0 (tr @ snd (thread_leave K l)) (ts @ [fst (thread_leave K l)], s')"
  using coarse_sectionI [OF assms(1), of "length ts" m] assms(2) by simp

lemma register_taken:
  assumes "coarse_run (service_threads K) s0 tr (ts, s)" and run: "run_register K E q s = (res, s', es)"
  shows "\<exists>t. coarse_run (service_threads K) s0 (tr @ [Registered E q res es]) (ts @ [t], s') \<and> awaits t = None"
proof -
  obtain t vs where o: "thread_outer K (RegisterTask E q, Calling) s = Some (t, vs)"
    and c: "coarse_run (service_threads K) s0 (tr @ vs) (ts @ [t], s)"
    using coarse_called [OF assms(1)] by blast
  show ?thesis
  proof (cases "t = (RegisterTask E q, AwaitUnique)")
    case True
    then have "vs = []" and may: "may_register K E (fst (rq_key q)) (fst (snd (rq_key q)))"
      using o thread_ok_outer [OF o] by (auto split: if_splits prod.splits)
    with coarse_section_last [OF c, of Unique] True
    obtain l s1 where l: "in_section (service_threads K) (thread_enter K (RegisterTask E q, AwaitUnique), s) (l, s1)"
      "thread_instr K l s1 = None"
      "coarse_run (service_threads K) s0 (tr @ snd (thread_leave K l)) (ts @ [fst (thread_leave K l)], s1)"
      by auto
    from register_section [OF l(1,2) may] l(3) run show ?thesis
      by (intro exI [of _ "fst (thread_leave K l)"]) auto
  next
    case False
    then have "vs = [Registered E q res es] \<and> s' = s \<and> awaits t = None"
      using o run by (cases "rq_key q")
        (auto simp: run_register_def RegisterStateChange_eq may_register_def slot_in_range_def split: if_splits)
    with c show ?thesis by blast
  qed
qed

lemma unregister_taken:
  assumes "coarse_run (service_threads K) s0 tr (ts, s)" and run: "run_unregister K E k s = (res, s', [])"
  shows "\<exists>t. coarse_run (service_threads K) s0 (tr @ [Unregistered E k res]) (ts @ [t], s') \<and> awaits t = None"
proof -
  obtain t vs where o: "thread_outer K (UnregisterTask E k, Calling) s = Some (t, vs)"
    and c: "coarse_run (service_threads K) s0 (tr @ vs) (ts @ [t], s)"
    using coarse_called [OF assms(1)] by blast
  show ?thesis
  proof (cases "t = (UnregisterTask E k, AwaitUnique)")
    case True
    then have "vs = []" and may: "may_unregister K E (fst (snd k))"
      using o thread_ok_outer [OF o] by (auto split: if_splits prod.splits)
    with coarse_section_last [OF c, of Unique] True
    obtain l s1 where l: "in_section (service_threads K) (thread_enter K (UnregisterTask E k, AwaitUnique), s) (l, s1)"
      "thread_instr K l s1 = None"
      "coarse_run (service_threads K) s0 (tr @ snd (thread_leave K l)) (ts @ [fst (thread_leave K l)], s1)"
      by auto
    from unregister_section [OF l(1,2) may] l(3) run show ?thesis
      by (intro exI [of _ "fst (thread_leave K l)"]) (auto simp: Let_def)
  next
    case False
    then have "vs = [Unregistered E k res] \<and> s' = s \<and> awaits t = None"
      using o run by (cases k) (auto simp: run_unregister_def UnregisterStateChange_def split: if_splits)
    with c show ?thesis by blast
  qed
qed

lemma write_taken:
  assumes c: "coarse_run (service_threads K) s0 tr (ts, s)" and ok: "slot_verified s u" "update_allowed E u"
  shows "coarse_run (service_threads K) s0 (tr @ [Wrote E u]) (ts @ [(UpdateTask E u, AwaitShared)], update_write E u s)"
proof (cases "write_steps E u = []")
  case True
  then have "update_write E u s = s" using write_steps_fold [of E u s] by simp
  with True ok coarse_call [OF c, of "UpdateTask E u"] show ?thesis by simp
next
  case False
  with ok coarse_call [OF c, of "UpdateTask E u" "(UpdateTask E u, AwaitUnique)" "[]"]
  have "coarse_run (service_threads K) s0 tr (ts @ [(UpdateTask E u, AwaitUnique)], s)" by simp
  from coarse_section_last [OF this, of Unique] show ?thesis using write_section [of K E u s] by fastforce
qed

lemma notify_taken:
  assumes c: "coarse_run (service_threads K) s0 tr (ts, s)" and i: "i < length ts"
    and t: "ts ! i = (UpdateTask E u, AwaitShared)" and n: "update_notify K E u s = (res, es)"
  shows "coarse_run (service_threads K) s0 (tr @ [Notified E u res es]) (ts[i := (UpdateTask E u, Returned res es)], s)"
proof -
  have "number_cached s u" using threads_ok [OF c i] t by simp
  from coarse_sectionI [OF c i, of Shared] t notify_section [OF _ _ this, of K E] n show ?thesis by fastforce
qed

theorem runs_coarse_run:
  assumes "run K tr x"
  shows "\<exists>ts. coarse_run (service_threads K) (construct_service K) tr (ts, svc x) \<and> mset (pend x) = awaiting ts"
  using assms
proof (induction rule: run.induct)
  case run_start
  show ?case
    using coarse_run.coarse_start [of "service_threads K" "construct_service K"]
    by (intro exI [of _ "[]"]) (simp add: start_system_def)
next
  case (run_step tr x ev y)
  then obtain ts where c: "coarse_run (service_threads K) (construct_service K) tr (ts, svc x)"
    and x: "mset (pend x) = awaiting ts" by auto
  from \<open>step K x ev y\<close> show ?case
  proof (cases rule: step.cases)
    case (register E q res s' es)
    with register_taken [OF c] x show ?thesis by fastforce
  next
    case (unregister E k res s')
    with unregister_taken [OF c] x show ?thesis by fastforce
  next
    case (reject u E res s')
    then have "thread_outer K (UpdateTask E u, Calling) (svc x) = Some ((UpdateTask E u, Returned res []), [Rejected E u res])"
      and "s' = svc x" by (auto simp: run_update_rejected split: if_splits)
    with coarse_call [OF c this(1)] reject x show ?thesis
      by (intro exI [of _ "ts @ [(UpdateTask E u, Returned res [])]"]) simp
  next
    case (begin_update u E)
    with write_taken [OF c] x show ?thesis by (intro exI [of _ "ts @ [(UpdateTask E u, AwaitShared)]"]) simp
  next
    case (finish_update ps E u qs res es)
    then have "(E, u) \<in># awaiting ts" by (simp flip: x)
    then obtain t where "t \<in> set ts" "awaits t = Some (E, u)" by (auto simp: awaiting_def map_filter_def)
    then obtain i where i: "i < length ts" and t: "ts ! i = (UpdateTask E u, AwaitShared)"
      by (cases t rule: awaits.cases) (auto simp: in_set_conv_nth)
    have "add_mset (E, u) (mset (pend y)) = add_mset (E, u) (awaiting (ts[i := (UpdateTask E u, Returned res es)]))"
      using awaiting_update [OF i, of "(UpdateTask E u, Returned res es)"] x finish_update t by simp
    with notify_taken [OF c i t finish_update(4)] finish_update show ?thesis by auto
  qed
qed

section \<open>What a thread returned is in the trace\<close>

text \<open>The phases a task has, and the events that report its result.\<close>

fun phase_fits :: "('sig, 'cell, 'net) thread \<Rightarrow> bool" where
  "phase_fits (UpdateTask E u, ph) = (case ph of Searching _ \<Rightarrow> False | Telling _ _ \<Rightarrow> False | Erasing _ \<Rightarrow> False
     | Erased _ \<Rightarrow> False | _ \<Rightarrow> True)"
| "phase_fits (RegisterTask E q, ph) = (case ph of Calling \<Rightarrow> True | AwaitUnique \<Rightarrow> True | Searching _ \<Rightarrow> True
     | Telling _ _ \<Rightarrow> True | Returned _ _ \<Rightarrow> True | _ \<Rightarrow> False)"
| "phase_fits (UnregisterTask E k, ph) = (case ph of Calling \<Rightarrow> True | AwaitUnique \<Rightarrow> True | Erasing _ \<Rightarrow> True
     | Erased _ \<Rightarrow> True | Returned _ _ \<Rightarrow> True | _ \<Rightarrow> False)"

fun result_events :: "('sig, 'cell, 'net) thread \<Rightarrow> ('sig, 'cell, 'net) event set" where
  "result_events (UpdateTask E u, Returned res es) = {Notified E u res es} \<union> (if es = [] then {Rejected E u res} else {})"
| "result_events (RegisterTask E q, Returned res es) = {Registered E q res es}"
| "result_events (UnregisterTask E k, Returned res es) = {Unregistered E k res}"
| "result_events _ = {}"

fun has_returned :: "('sig, 'cell, 'net) thread \<Rightarrow> bool" where
  "has_returned (task, Returned res es) = True"
| "has_returned _ = False"

definition reported :: "('sig, 'cell, 'net) event list \<Rightarrow> ('sig, 'cell, 'net) thread \<Rightarrow> bool" where
  "reported tr t \<longleftrightarrow> phase_fits t \<and> (has_returned t \<longrightarrow> (\<exists>ev \<in> result_events t. ev \<in> set tr))"

lemma reported_more: "reported tr t \<Longrightarrow> reported (tr @ vs) t"
  by (auto simp: reported_def)

lemma reported_outer: "phase_fits t \<Longrightarrow> thread_outer K t s = Some (t', vs) \<Longrightarrow> reported (tr @ vs) t'"
  by (cases "(K, t, s)" rule: thread_outer.cases) (auto simp: reported_def split: if_splits prod.splits)

lemma reported_enter: "phase_fits t \<Longrightarrow> thread_wants t = Some m \<Longrightarrow> reported tr (thread_enter K t)"
  by (cases "(K, t)" rule: thread_enter.cases) (auto simp: reported_def)

lemma reported_instr: "phase_fits t \<Longrightarrow> thread_instr K t s = Some (t', s') \<Longrightarrow> reported tr t'"
  by (cases "(K, t, s)" rule: thread_instr.cases)
    (auto simp: reported_def Let_def split: if_splits prod.splits)

lemma reported_leave:
  assumes "phase_fits t" and "phase_holds (snd t) = Some m" and "thread_instr K t s = None"
    and "thread_leave K t = (t', vs)"
  shows "reported (tr @ vs) t'"
proof -
  obtain task ph where t: "t = (task, ph)" by (cases t)
  show ?thesis
  proof (cases task)
    case (UpdateTask E u)
    show ?thesis
    proof (cases ph)
      case (Writing fs)
      with UpdateTask assms t show ?thesis by (cases fs) (auto simp: reported_def)
    qed (use UpdateTask assms t in \<open>auto simp: reported_def Let_def split: if_splits prod.splits\<close>)
  next
    case (RegisterTask E q)
    show ?thesis
    proof (cases ph)
      case (Telling as es)
      with RegisterTask assms t show ?thesis by (cases as) (auto simp: reported_def split: prod.splits)
    qed (use RegisterTask assms t in \<open>auto simp: reported_def Let_def split: if_splits prod.splits\<close>)
  next
    case (UnregisterTask E k)
    with assms t show ?thesis
      by (cases ph) (auto simp: reported_def Let_def split: if_splits prod.splits)
  qed
qed

lemma threads_report:
  assumes "fine_run (service_threads K) s0 tr (ts, s)"
  shows "\<forall>t \<in> set ts. reported tr t"
  using assms
proof (induction tr "(ts, s)" arbitrary: ts s rule: fine_run.induct)
  case (fine_spawn tr ts s l)
  then show ?case by (cases "fst l"; cases l) (auto simp: reported_def service_threads_def)
next
  case (fine_outer tr ts s i l vs)
  then have "reported (tr @ vs) l" using reported_outer [of "ts ! i"] by (auto simp: service_threads_def reported_def)
  with fine_outer show ?case using reported_more set_update_subset_insert by fastforce
next
  case (fine_enter tr ts s i m)
  then have "reported tr (thread_enter K (ts ! i))"
    using reported_enter [of "ts ! i"] by (auto simp: service_threads_def reported_def)
  with fine_enter show ?case using set_update_subset_insert by (fastforce simp: service_threads_def)
next
  case (fine_instr tr ts s i m l s')
  then have "reported tr l" using reported_instr [of "ts ! i"] by (auto simp: service_threads_def reported_def)
  with fine_instr show ?case using set_update_subset_insert by fastforce
next
  case (fine_leave tr ts s i m l vs)
  then have "reported (tr @ vs) l"
    using reported_leave [of "ts ! i"] by (auto simp: service_threads_def reported_def)
  with fine_leave show ?case using reported_more set_update_subset_insert by fastforce
qed simp

corollary threads_return:
  assumes "fine_run (service_threads K) s0 tr (ts, s)"
  shows "\<forall>t \<in> set ts. has_returned t \<longrightarrow> result_events t \<inter> set tr \<noteq> {}"
  using threads_report [OF assms] unfolding reported_def by blast

section \<open>Both views have the same traces\<close>

corollary fine_run_runs:
  assumes "fine_run (service_threads K) (construct_service K) tr (ts, s)"
  shows "\<exists>x. run K tr x \<and> ((\<forall>t \<in> set ts. phase_holds (snd t) \<noteq> Some Unique) \<longrightarrow> svc x = s)"
proof -
  obtain ts' s' where c: "coarse_run (service_threads K) (construct_service K) tr (ts', s')"
    and sim: "svc.sim K (ts, s) (ts', s')"
    using svc.sections_refine [OF assms] by blast
  from sim have "(\<forall>t \<in> set ts. phase_holds (snd t) \<noteq> Some Unique) \<longrightarrow> s = s'"
    unfolding svc.sim_def svc.no_writer_def by (auto simp: service_threads_def)
  with coarse_run_runs [OF c] show ?thesis by (auto simp: agrees_def)
qed

corollary runs_fine_run:
  assumes "run K tr x"
  shows "\<exists>ts. fine_run (service_threads K) (construct_service K) tr (ts, svc x) \<and>
    (\<forall>t \<in> set ts. phase_holds (snd t) = None) \<and> mset (pend x) = awaiting ts"
proof -
  obtain ts where "coarse_run (service_threads K) (construct_service K) tr (ts, svc x)" "mset (pend x) = awaiting ts"
    using runs_coarse_run [OF assms] by blast
  with svc.coarse_fine [OF this(1)] show ?thesis by (auto simp: service_threads_def)
qed

end
