(* ===== verification/Dump.thy ===== *)
theory Dump
  imports Service_Update
begin

text \<open>
  The text dump (\<^verbatim>\<open>services/src/telephony_state_registry_dump_helper.cpp\<close> and \<^verbatim>\<open>Dump\<close> of the
  service): \<^verbatim>\<open>std::to_string\<close>, the block of each slot that has a SIM card and the list of the
  registrations. The names of the enumeration values (\<^verbatim>\<open>enum_convert.h\<close>) and \<^verbatim>\<open>HasSimCard\<close> belong to
  the core service and are parameters.
\<close>

section \<open>Numbers as text\<close>

text \<open>\<^verbatim>\<open>std::to_string\<close> and \<^verbatim>\<open>operator<<\<close> of an integer: decimal digits, a minus sign if negative.\<close>

definition digit_char :: "nat \<Rightarrow> char" where
  "digit_char d = char_of (48 + d)"

fun digits :: "nat \<Rightarrow> string" where
  "digits n = (if n < 10 then [digit_char n] else digits (n div 10) @ [digit_char (n mod 10)])"

declare digits.simps [simp del]

definition to_string :: "int \<Rightarrow> string" where
  "to_string n = (if n < 0 then CHR 0x2D # digits (nat (- n)) else digits (nat n))"

section \<open>The dump\<close>

record dump_env =
  HasSimCard :: "int32 \<Rightarrow> bool"
  SimStateName :: "int32 \<Rightarrow> string"
  CardTypeName :: "int32 \<Rightarrow> string"
  LockReasonName :: "int32 \<Rightarrow> string"
  CallStateName :: "int32 \<Rightarrow> string"
  CellularDataConnectionStateName :: "int32 \<Rightarrow> string"
  CellularDataFlowName :: "int32 \<Rightarrow> string"
  CellularDataConnectionNetworkTypeName :: "int32 \<Rightarrow> string"

abbreviation newline :: string where
  "newline \<equiv> [CHR 0x0A]"

definition GetBindStartTime :: "('sig, 'cell, 'net) service \<Rightarrow> string" where
  "GetBindStartTime s = to_string (bindStartTime_of s)"

definition GetBindEndTime :: "('sig, 'cell, 'net) service \<Rightarrow> string" where
  "GetBindEndTime s = to_string (bindEndTime_of s)"

definition GetBindSpendTime :: "('sig, 'cell, 'net) service \<Rightarrow> string" where
  "GetBindSpendTime s = to_string (bindEndTime_of s - bindStartTime_of s)"

definition WhetherHasSimCard :: "dump_env \<Rightarrow> int32 \<Rightarrow> bool" where
  "WhetherHasSimCard D slotId = HasSimCard D slotId"

definition slot_block :: "build \<Rightarrow> dump_env \<Rightarrow> ('sig, 'cell, 'net) service \<Rightarrow> int32 \<Rightarrow> string" where
  "slot_block K D s slot =
     ''SlotId = '' @ to_string slot @ newline @
     ''SimState = '' @ SimStateName D (GetSimState K s slot) @ newline @
     ''CardType = '' @ CardTypeName D (GetCardType K s slot) @ newline @
     ''LockReason = '' @ LockReasonName D (GetLockReason K s slot) @ newline @
     ''CallState = '' @ CallStateName D (GetCallState K s slot) @ newline @
     ''CellularDataConnectionState = '' @
       CellularDataConnectionStateName D (GetCellularDataConnectionState K s slot) @ newline @
     ''CellularDataFlow = '' @ CellularDataFlowName D (GetCellularDataFlow K s slot) @ newline @
     ''CellularDataConnectionNetworkType = '' @
       CellularDataConnectionNetworkTypeName D (GetCellularDataConnectionNetworkType K s slot) @ newline"

text \<open>\<^verbatim>\<open>for (int32_t i = 0; i < SIM_SLOT_COUNT; i++)\<close>\<close>

function show_slots ::
    "build \<Rightarrow> dump_env \<Rightarrow> ('sig, 'cell, 'net) service \<Rightarrow> int32 \<Rightarrow> string \<Rightarrow> string" where
  "show_slots K D s i result =
     (if i < SIM_SLOT_COUNT K
      then let slot = (if i \<ge> SIM_SLOT_2 K then i + 1 else i)
           in show_slots K D s (i + 1)
                (if WhetherHasSimCard D slot then result @ slot_block K D s slot else result)
      else result)"
  by pat_completeness auto
termination
  by (relation "measure (\<lambda>(K, D, s, i, result). nat (SIM_SLOT_COUNT K - i))") auto

declare show_slots.simps [simp del]

text \<open>\<open>svc\<close> is what \<^verbatim>\<open>DelayedSingleton::GetInstance\<close> gives.\<close>

definition ShowTelephonyChangeState ::
    "build \<Rightarrow> dump_env \<Rightarrow> ('sig, 'cell, 'net) service option \<Rightarrow> string \<Rightarrow> string" where
  "ShowTelephonyChangeState K D svc result =
     (case svc of
        None \<Rightarrow> result
      | Some s \<Rightarrow>
          show_slots K D s 0
            (result @ ''TelephonyStateRegistry BindStartTime = '' @ GetBindStartTime s @ newline @
             ''TelephonyStateRegistry BindEndTime = '' @ GetBindEndTime s @ newline @
             ''TelephonyStateRegistry BindSpendTime = '' @ GetBindSpendTime s @ newline @
             ''TelephonyStateRegistry ServiceRunningState = '' @
               to_string (GetServiceRunningState s) @ newline))"

definition subscriber_title :: "build \<Rightarrow> TelephonyStateRegistryRecord \<Rightarrow> string" where
  "subscriber_title K r =
     (if IsExistStateListener r (OBSERVER_MASK K M_DATA_CONNECTION_STATE)
      then ''CellularDataConnectState Register: ''
      else if IsExistStateListener r (OBSERVER_MASK K M_DATA_FLOW) then ''CellularDataFlow Register: ''
      else if IsExistStateListener r (OBSERVER_MASK K M_CALL_STATE) then ''CallState Register: ''
      else if IsExistStateListener r (OBSERVER_MASK K M_SIM_STATE) then ''SimState Register: ''
      else if IsExistStateListener r (OBSERVER_MASK K M_SIGNAL_STRENGTHS) then ''SignalInfo Register: ''
      else if IsExistStateListener r (OBSERVER_MASK K M_CELL_INFO) then ''CellInfo Register: ''
      else if IsExistStateListener r (OBSERVER_MASK K M_NETWORK_STATE) then ''NetworkState Register: ''
      else if IsExistStateListener r (OBSERVER_MASK K M_CALL_STATE_EX) then ''CallStateEx Register: ''
      else ''Unknown Subscriber: '')"

definition show_record :: "build \<Rightarrow> TelephonyStateRegistryRecord \<Rightarrow> string \<Rightarrow> string" where
  "show_record K r result =
     result @ subscriber_title K r @ newline @ ''    { '' @
     ''package: '' @ bundleName_of r @ '' pid: '' @ to_string (pid_of r) @
     '' mask: '' @ to_string (uint (mask_of r)) @ '' slotId: '' @ to_string (slotId_of r) @
     '' }'' @ newline"

definition ShowTelephonyStateRegistryInfo ::
    "build \<Rightarrow> TelephonyStateRegistryRecord list \<Rightarrow> string \<Rightarrow> bool \<times> string" where
  "ShowTelephonyStateRegistryInfo K stateRecords result =
     (let result = result @ ''registrations: count= '' @ to_string (int (length stateRecords)) @ newline;
          result = (if stateRecords \<noteq> [] then for_each (show_record K) stateRecords result else result)
      in (True, result))"

definition DumpHelper_Dump ::
    "build \<Rightarrow> dump_env \<Rightarrow> ('sig, 'cell, 'net) service option \<Rightarrow> string list \<Rightarrow>
     TelephonyStateRegistryRecord list \<Rightarrow> string \<Rightarrow> bool \<times> string" where
  "DumpHelper_Dump K D svc args stateRecords result =
     (let result = [];
          result = ShowTelephonyChangeState K D svc result
      in ShowTelephonyStateRegistryInfo K stateRecords result)"

text \<open>
  \<^verbatim>\<open>Dump(fd, args)\<close> of the service \<open>s\<close>: the result code and the text written to the file
  descriptor; \<open>dprintf_ok\<close> tells whether \<^verbatim>\<open>dprintf\<close> succeeds. \<^verbatim>\<open>"%s"\<close> with \<^verbatim>\<open>c_str()\<close> prints up to the
  first null character.
\<close>

definition c_str :: "string \<Rightarrow> string" where
  "c_str t = takeWhile (\<lambda>c. c \<noteq> CHR 0x00) t"

definition Service_Dump ::
    "build \<Rightarrow> ('sig, 'cell, 'net) world \<Rightarrow> dump_env \<Rightarrow> bool \<Rightarrow> int32 \<Rightarrow> string16 list \<Rightarrow>
     ('sig, 'cell, 'net) service \<Rightarrow> int32 \<times> string" where
  "Service_Dump K E D dprintf_ok fd args s =
     (if fd < 0 then (ERR K TELEPHONY_ERR_FAIL, [])
      else let argsInStr = map (Str16ToStr8 E) args;
               (ok, result) = DumpHelper_Dump K D (Some s) argsInStr (stateRecords_of s) []
           in if ok
              then if \<not> dprintf_ok then (ERR K TELEPHONY_ERR_FAIL, [])
                   else (ERR K TELEPHONY_SUCCESS, c_str result)
              else (ERR K TELEPHONY_ERR_FAIL, []))"

section \<open>Lemmas\<close>

text \<open>The number read back from its digits.\<close>

definition digit_value :: "char \<Rightarrow> nat" where
  "digit_value c = of_char c - 48"

definition digits_value :: "string \<Rightarrow> nat" where
  "digits_value t = foldl (\<lambda>n c. 10 * n + digit_value c) 0 t"

definition string_value :: "string \<Rightarrow> int" where
  "string_value t = (case t of [] \<Rightarrow> 0 | c # t' \<Rightarrow>
     if c = CHR 0x2D then - int (digits_value t') else int (digits_value t))"

lemma digit_value_char: "d < 10 \<Longrightarrow> digit_value (digit_char d) = d"
  by (simp add: digit_value_def digit_char_def)

lemma digits_value_digits: "digits_value (digits n) = n"
proof (induction n rule: digits.induct)
  case (1 n)
  then show ?case
    by (subst digits.simps) (simp add: digits_value_def digit_value_char)
qed

lemma digits_numeric: "c \<in> set (digits n) \<Longrightarrow> c \<in> digit_char ` {..<10}"
proof (induction n rule: digits.induct)
  case (1 n)
  then show ?case by (subst (asm) digits.simps) (auto split: if_splits)
qed

lemma digits_not_Nil: "digits n \<noteq> []"
  by (subst digits.simps) simp

lemma minus_not_digit: "CHR 0x2D \<notin> digit_char ` {..<10}"
proof
  assume "CHR 0x2D \<in> digit_char ` {..<10}"
  then obtain d where "d < 10" "CHR 0x2D = digit_char d" by auto
  then have "(of_char (CHR 0x2D) :: nat) = 48 + d" by (simp add: digit_char_def)
  then show False by simp
qed

lemma to_string_roundtrip: "string_value (to_string n) = n"
proof (cases "n < 0")
  case True
  then show ?thesis by (simp add: string_value_def to_string_def digits_value_digits)
next
  case False
  obtain c t where ct: "digits (nat n) = c # t" by (cases "digits (nat n)") (simp add: digits_not_Nil)
  then have "c \<in> digit_char ` {..<10}" by (intro digits_numeric [of c "nat n"]) simp
  with minus_not_digit have "c \<noteq> CHR 0x2D" by metis
  with False ct digits_value_digits [of "nat n"] show ?thesis
    by (simp add: string_value_def to_string_def)
qed

lemma show_slots_eq:
  "show_slots K D s i result = result @
     concat (map (\<lambda>i. let slot = (if i \<ge> SIM_SLOT_2 K then i + 1 else i)
                      in if HasSimCard D slot then slot_block K D s slot else [])
       [i..SIM_SLOT_COUNT K - 1])"
proof (induction K D s i result rule: show_slots.induct)
  case (1 K D s i result)
  show ?case
  proof (cases "i < SIM_SLOT_COUNT K")
    case True
    with 1 show ?thesis
      by (subst show_slots.simps) (simp add: upto_rec1 WhetherHasSimCard_def Let_def)
  next
    case False
    then show ?thesis by (subst show_slots.simps) simp
  qed
qed

lemma show_records_eq:
  "for_each (show_record K) rs result = result @ concat (map (\<lambda>r. show_record K r []) rs)"
  by (induction rs arbitrary: result) (simp_all add: show_record_def)

text \<open>The whole text: the header, a block per slot with a card, the count, an entry per record.\<close>

lemma DumpHelper_Dump_eq:
  "DumpHelper_Dump K D (Some s) args rs result =
     (True,
      ''TelephonyStateRegistry BindStartTime = '' @ GetBindStartTime s @ newline @
      ''TelephonyStateRegistry BindEndTime = '' @ GetBindEndTime s @ newline @
      ''TelephonyStateRegistry BindSpendTime = '' @ GetBindSpendTime s @ newline @
      ''TelephonyStateRegistry ServiceRunningState = '' @ to_string (GetServiceRunningState s) @ newline @
      concat (map (\<lambda>i. let slot = (if i \<ge> SIM_SLOT_2 K then i + 1 else i)
                       in if HasSimCard D slot then slot_block K D s slot else [])
        [0..SIM_SLOT_COUNT K - 1]) @
      ''registrations: count= '' @ to_string (int (length rs)) @ newline @
      concat (map (\<lambda>r. show_record K r []) rs))"
  by (simp add: DumpHelper_Dump_def ShowTelephonyChangeState_def ShowTelephonyStateRegistryInfo_def
      show_slots_eq show_records_eq Let_def)

end
