(* ===== verification/Lock_Programs.thy ===== *)
theory Lock_Programs
  imports Locking Threads Dump Client Dispatch_Js Listener_Cj
begin

text \<open>
  What every operation of the service, the client and the JavaScript and Cangjie bindings does to the
  mutexes and the shared fields, in the order of the code. The service's lock is \<open>Registry\<close>; each process
  \<open>p\<close> of an application has the client's \<^verbatim>\<open>mutexProxy_\<close> and the static \<^verbatim>\<open>operatorMutex_\<close> of each binding. A
  request of a client is a synchronous IPC call, so its thread holds its own locks until the service has answered. The
  calls of observers are asynchronous (\<^verbatim>\<open>TF_ASYNC\<close>), so the service does not wait for a client; but an observer
  that lives in the service's own process runs in the thread that calls it, under the lock, and may use the service again. The interfaces
  \<open>lock_protocol\<close> and \<open>race_protocol\<close> are interpreted on these programs.
\<close>

section \<open>Locks and fields\<close>

datatype lock_id =
    Registry
  | MutexProxy nat
  | OperatorMutex nat
  | OperatorMutex_cj nat

datatype field =
    F_state | F_slotSize | F_bindStartTime | F_bindEndTime | F_ext | F_stateRecords
  | F_cfuResult | F_voiceMailMsgResult | F_callState | F_callIncomingNumber | F_signalInfos | F_cellInfos
  | F_searchNetworkState | F_simState | F_cardType | F_simReason | F_cellularDataConnectionState
  | F_cellularDataConnectionNetworkType | F_cellularDataFlow | F_simActiveResult
  | P_proxy nat | P_deathRecipient nat
  | J_listenerList nat | J_isDeleting nat nat
  | C_listenerList nat | C_isDeleting nat nat

type_synonym program = "(lock_id, field) lock_action list"

section \<open>The service\<close>

text \<open>The field each assignment of a write section changes, and the fields a notification reads besides the records.\<close>

fun update_fields :: "('sig, 'cell, 'net) update \<Rightarrow> field list" where
  "update_fields (UDataConnect k st type) = [F_cellularDataConnectionState, F_cellularDataConnectionNetworkType]"
| "update_fields (UDataFlow k v) = [F_cellularDataFlow]"
| "update_fields (UCall st number) = [F_callState, F_callIncomingNumber]"
| "update_fields (UCallSlot k st number) = [F_callState, F_callIncomingNumber]"
| "update_fields (USim k type st reason) = [F_simState, F_simReason, F_cardType]"
| "update_fields (USignal k v) = [F_signalInfos]"
| "update_fields (UCell k v) = [F_cellInfos]"
| "update_fields (UNetwork k v) = [F_searchNetworkState, F_searchNetworkState]"
| "update_fields (UCfu k v) = [F_cfuResult]"
| "update_fields (UVoiceMail k v) = [F_voiceMailMsgResult]"
| "update_fields (USimActive k v) = [F_simActiveResult]"
| "update_fields UIccAccount = []"
| "update_fields (UVoIP info) = []"

fun round_fields :: "('sig, 'cell, 'net) update \<Rightarrow> field list" where
  "round_fields (UDataConnect k st type) = [F_ext]"
| "round_fields (UCallSlot k st number) = [F_callIncomingNumber]"
| "round_fields (USignal k v) = [F_ext]"
| "round_fields (UCell k v) = [F_ext]"
| "round_fields (UNetwork k v) = [F_ext]"
| "round_fields _ = []"

fun send_fields :: "('sig, 'cell, 'net) update \<Rightarrow> field list" where
  "send_fields (USignal k v) = [F_ext]"
| "send_fields (UNetwork k v) = [F_ext]"
| "send_fields _ = []"

text \<open>
  An update that finds the records \<open>rs\<close>. \<open>cb r\<close> is what the call of the observer of \<open>r\<close> does in this thread: nothing for an
  observer of another process, its whole callback for one of the service's process.
\<close>

definition update_program ::
    "build \<Rightarrow> ('sig, 'cell, 'net) world \<Rightarrow> ('sig, 'cell, 'net) service \<Rightarrow> TelephonyStateRegistryRecord list \<Rightarrow>
     (TelephonyStateRegistryRecord \<Rightarrow> program) \<Rightarrow> ('sig, 'cell, 'net) update \<Rightarrow> program" where
  "update_program K E s rs cb u =
     (if update_slot u = None then [] else [ReadField F_slotSize]) @
     (if \<not> slot_verified s u \<or> \<not> update_allowed E u then []
      else (if update_fields u = [] then [] else locked Registry Unique (map WriteField (update_fields u))) @
           locked Registry Shared
             (ReadField F_stateRecords #
              concat (map (\<lambda>r. ReadField F_stateRecords # map ReadField (round_fields u) @
                (if telephonyObserver_of r = None \<or> update_want K E (update_write E u s) u r = None then [] else cb r)) rs) @
              map ReadField (send_fields u)))"

text \<open>
  The steps of the immediate notification: the mask that asks for the step and the caches it looks up; \<^verbatim>\<open>operator[]\<close>
  inserts what is missing, so a look-up counts as a write. \<open>cb m\<close> is what the call of the observer does in this thread.
\<close>

definition data_fields :: "(observer_mask \<times> field list) list" where
  "data_fields =
     [(M_CALL_STATE, [F_callIncomingNumber, F_callState]), (M_SIGNAL_STRENGTHS, [F_signalInfos]),
      (M_NETWORK_STATE, [F_searchNetworkState]), (M_CELL_INFO, [F_cellInfos]),
      (M_SIM_STATE, [F_cardType, F_simState, F_simReason]),
      (M_DATA_CONNECTION_STATE, [F_cellularDataConnectionState, F_cellularDataConnectionNetworkType]),
      (M_DATA_FLOW, [F_cellularDataFlow]), (M_CFU_INDICATOR, [F_cfuResult]),
      (M_VOICE_MAIL_MSG_INDICATOR, [F_voiceMailMsgResult]), (M_ICC_ACCOUNT, []), (M_CALL_STATE_EX, [F_callState]),
      (M_CCALL_STATE, [F_callState, F_callIncomingNumber]), (M_SIM_ACTIVE_STATE, [F_simActiveResult])]"

definition data_program ::
    "build \<Rightarrow> ('sig, 'cell, 'net) world \<Rightarrow> TelephonyStateRegistryRecord \<Rightarrow> (observer_mask \<Rightarrow> program) \<Rightarrow> program" where
  "data_program K E r cb =
     (if telephonyObserver_of r = None then []
      else concat (map (\<lambda>(m, fs).
        if \<not> wants_mask K m r \<or> (m = M_CCALL_STATE \<and> \<not> CanManageCallForDevices K E r) then []
        else map WriteField fs @ cb m) data_fields))"

definition register_program ::
    "build \<Rightarrow> ('sig, 'cell, 'net) world \<Rightarrow> ('sig, 'cell, 'net) service \<Rightarrow> registration \<Rightarrow> (observer_mask \<Rightarrow> program) \<Rightarrow>
     program" where
  "register_program K E s q cb =
     (if \<not> may_register K E (fst (rq_key q)) (fst (snd (rq_key q))) then []
      else let new = new_record (rq_key q) (rq_observer q, rq_bundleName q, rq_uid q, rq_appIdentifier q);
               r = (case registered s (rq_key q) of None \<Rightarrow> new | Some r0 \<Rightarrow> r0)
           in locked Registry Unique
             (ReadField F_stateRecords #
              (if registered s (rq_key q) = None then [WriteField F_stateRecords] else []) @
              (if rq_isUpdate q then data_program K E r cb else [])))"

definition unregister_program ::
    "build \<Rightarrow> ('sig, 'cell, 'net) world \<Rightarrow> ('sig, 'cell, 'net) service \<Rightarrow> reg_key \<Rightarrow> program" where
  "unregister_program K E s k =
     (if \<not> may_unregister K E (fst (snd k)) then []
      else locked Registry Unique
        (ReadField F_stateRecords # (if registered s k = None then [] else [WriteField F_stateRecords])))"

definition query_fields :: "field list" where
  "query_fields = [F_simState, F_cardType, F_simReason, F_callState, F_cellularDataConnectionState,
     F_cellularDataFlow, F_cellularDataConnectionNetworkType]"

definition query_program :: "field \<Rightarrow> program" where
  "query_program f = locked Registry Shared [ReadField f]"

text \<open>The getters of the start times and the running state take no lock.\<close>

definition getter_programs :: "program list" where
  "getter_programs = [[ReadField F_bindStartTime], [ReadField F_bindEndTime],
     [ReadField F_bindEndTime, ReadField F_bindStartTime], [ReadField F_state]]"

definition OnStart_program :: "build \<Rightarrow> ('sig, 'cell, 'net) service \<Rightarrow> program" where
  "OnStart_program K s =
     WriteField F_bindStartTime #
     locked Registry Unique
       (ReadField F_state #
        (if state_of s = STATE_RUNNING then []
         else WriteField F_state # (if BUILD_TELEPHONY_EXT K then [WriteField F_ext] else []) @
              [WriteField F_bindEndTime, ReadField F_slotSize]))"

definition OnStop_program :: program where
  "OnStop_program = locked Registry Unique [WriteField F_state]"

text \<open>The dump holds the lock while the helper's queries take it again.\<close>

definition slot_program :: "dump_env \<Rightarrow> int32 \<Rightarrow> program" where
  "slot_program D slot = (if WhetherHasSimCard D slot then concat (map query_program query_fields) else [])"

definition dump_slots :: "build \<Rightarrow> int32 list" where
  "dump_slots K = map (\<lambda>i. if i \<ge> SIM_SLOT_2 K then i + 1 else i) [0..SIM_SLOT_COUNT K - 1]"

definition Dump_program :: "build \<Rightarrow> dump_env \<Rightarrow> int32 \<Rightarrow> program" where
  "Dump_program K D fd =
     (if fd < 0 then []
      else locked Registry Shared
        (map ReadField [F_bindStartTime, F_bindEndTime, F_bindEndTime, F_bindStartTime, F_state] @
         concat (map (slot_program D) (dump_slots K)) @ [ReadField F_stateRecords]))"

section \<open>The client\<close>

definition connects :: "client_env \<Rightarrow> client \<Rightarrow> bool" where
  "connects W c \<longleftrightarrow> proxy_of c = None \<and> SystemAbilityManager W \<and>
     (case CheckSystemAbility W of None \<Rightarrow> False | Some obj \<Rightarrow> \<not> (IsProxyObject W obj \<and> \<not> AddDeathRecipient W obj))"

definition GetProxy_program :: "nat \<Rightarrow> client_env \<Rightarrow> client \<Rightarrow> program" where
  "GetProxy_program p W c = locked (MutexProxy p) Unique
     (ReadField (P_proxy p) #
      (if connects W c then [WriteField (P_proxy p), WriteField (P_deathRecipient p), ReadField (P_proxy p)]
       else if proxy_of c \<noteq> None then [ReadField (P_proxy p)] else []))"

definition OnRemoteDied_program :: "nat \<Rightarrow> client_env \<Rightarrow> nat option \<Rightarrow> client \<Rightarrow> program" where
  "OnRemoteDied_program p W remote c =
     (if remote = None then []
      else locked (MutexProxy p) Unique
        (ReadField (P_proxy p) #
         (if snd (OnRemoteDied W remote c) = [] then [] else [ReadField (P_deathRecipient p), WriteField (P_proxy p)])))"

text \<open>\<^verbatim>\<open>AddStateObserver\<close> and \<^verbatim>\<open>RemoveStateObserver\<close>, where \<open>q\<close> is what the service does for the request.\<close>

definition request_program :: "nat \<Rightarrow> client_env \<Rightarrow> client \<Rightarrow> program \<Rightarrow> program" where
  "request_program p W c q = GetProxy_program p W c @ (if fst (GetProxy W c) = None then [] else q)"

section \<open>The bindings\<close>

text \<open>
  The functions of the listener tables are run with a client that records: \<open>add\<close> and \<open>rem\<close> give the
  result of a request and its program.
\<close>

definition recording_add ::
    "(int32 \<Rightarrow> uint32 \<Rightarrow> int32 \<times> program) \<Rightarrow> observer option \<Rightarrow> int32 \<Rightarrow> uint32 \<Rightarrow> bool \<Rightarrow> program \<Rightarrow> int32 \<times> program" where
  "recording_add req ob slotId msk isUpdate x = (fst (req slotId msk), x @ snd (req slotId msk))"

definition recording_remove ::
    "(int32 \<Rightarrow> uint32 \<Rightarrow> int32 \<times> program) \<Rightarrow> int32 \<Rightarrow> uint32 \<Rightarrow> program \<Rightarrow> int32 \<times> program" where
  "recording_remove req slotId msk x = (fst (req slotId msk), x @ snd (req slotId msk))"

definition flag_fields :: "(nat \<Rightarrow> field) \<Rightarrow> nat option list \<Rightarrow> field list" where
  "flag_fields F flags = concat (map (\<lambda>f. case f of None \<Rightarrow> [] | Some i \<Rightarrow> [F i]) flags)"

definition js_on_program where
  "js_on_program K N p req ob e h =
     (let (ret, h', x) = RegisterEventListener K N (recording_add req) ob e (h, [])
      in locked (OperatorMutex p) Unique
        (ReadField (J_listenerList p) # x @ (if h' = h then [] else [WriteField (J_listenerList p)])))"

definition js_off_ref_program where
  "js_off_ref_program K N p req env eventType ref h =
     (let (ret, removed, h', x) = UnregisterEventListener_ref K N (recording_remove req) env eventType ref (h, [])
      in locked (OperatorMutex p) Unique
        (ReadField (J_listenerList p) # map WriteField (flag_fields (J_isDeleting p) (map l_isDeleting removed)) @
         (if removed = [] then [] else [WriteField (J_listenerList p)]) @ x))"

definition js_off_program where
  "js_off_program K p req env eventType h =
     (let (ret, removed, h', x) = UnregisterEventListener K (recording_remove req) env eventType (h, [])
      in locked (OperatorMutex p) Unique
        (ReadField (J_listenerList p) # map WriteField (flag_fields (J_isDeleting p) (map l_isDeleting removed)) @
         (if removed = [] then [] else [WriteField (J_listenerList p)]) @ x))"

definition js_off_all_program where
  "js_off_all_program K p req env h =
     (let ((h', x), refs) = UnRegisterAllListener K (recording_remove req) env (h, []);
          removed = filter (\<lambda>l. l_env l = env) (listenerList_of h)
      in locked (OperatorMutex p) Unique
        (ReadField (J_listenerList p) # map WriteField (flag_fields (J_isDeleting p) (map l_isDeleting removed)) @
         (if removed = [] then [] else [WriteField (J_listenerList p)]) @ x))"

definition js_handle_program :: "nat \<Rightarrow> program" where
  "js_handle_program p = locked (OperatorMutex p) Unique [ReadField (J_listenerList p)]"

text \<open>
  A piece of work: the lock is taken, the flag is read, and the events of the work function follow.
  The function of the listener may do what \<open>cb\<close> says.
\<close>

definition work_actions :: "nat \<Rightarrow> program \<Rightarrow> napi_event list \<Rightarrow> program" where
  "work_actions p cb es = concat (map (\<lambda>e. case e of
     UnlockMutex \<Rightarrow> [Release (OperatorMutex p)] | CallFunction f v \<Rightarrow> cb | _ \<Rightarrow> []) es)"

definition js_work_program where
  "js_work_program p N L h w cb =
     Acquire (OperatorMutex p) Unique # map ReadField (flag_fields (J_isDeleting p) [l_isDeleting (fst w)]) @
     work_actions p cb (WorkUpdated N L h w)"

definition cj_on_program where
  "cj_on_program K p req ob e h =
     (let (ret, h', x) = RegisterEventListener_cj K (recording_add req) ob e (h, [])
      in locked (OperatorMutex_cj p) Unique
        (ReadField (C_listenerList p) # x @ (if h' = h then [] else [WriteField (C_listenerList p)])))"

definition cj_off_program where
  "cj_off_program K p req eventType funcId h =
     (let (ret, h', x) = UnregisterEventListener_cj K (recording_remove req) eventType funcId (h, []);
          removed = filter (\<lambda>l. eventType = cj_eventType l \<and> (cj_funcId l = funcId \<or> funcId = -1)) (cj_listenerList h)
      in locked (OperatorMutex_cj p) Unique
        (ReadField (C_listenerList p) # map WriteField (flag_fields (C_isDeleting p) (map cj_isDeleting removed)) @
         (if removed = [] then [] else [WriteField (C_listenerList p)]) @ x))"

text \<open>The Cangjie dispatch reads the flags of its snapshot and runs the callbacks after the lock is released.\<close>

definition cj_event_program :: "nat \<Rightarrow> CjListener list \<Rightarrow> (CjListener \<Rightarrow> program) \<Rightarrow> program" where
  "cj_event_program p snapshot cb =
     locked (OperatorMutex_cj p) Unique [ReadField (C_listenerList p)] @
     concat (map (\<lambda>l. map ReadField (flag_fields (C_isDeleting p) [cj_isDeleting l]) @ cb l) snapshot)"

section \<open>All operations\<close>

text \<open>
  What a callback of an observer in the service's process may do: any sequence of registrations, removals and
  queries, directly or through the client library, each registration with callbacks of its own. \<open>C\<close> is what
  such observers do in the system at hand. What a callback of a binding does is any sequence of requests to this binding. \<open>L\<close>
  fixes the payload classes.
\<close>

inductive_set callbacks :: "build \<Rightarrow> ('sig, 'cell, 'net) payload \<Rightarrow> program set"
  for K and L :: "('sig, 'cell, 'net) payload" where
  cb_none: "[] \<in> callbacks K L"
| cb_register: "(\<And>m. cb m \<in> callbacks K L) \<Longrightarrow> r \<in> callbacks K L \<Longrightarrow>
    register_program K (E :: ('sig, 'cell, 'net) world) s q cb @ r \<in> callbacks K L"
| cb_unregister: "r \<in> callbacks K L \<Longrightarrow>
    unregister_program K (E :: ('sig, 'cell, 'net) world) s k @ r \<in> callbacks K L"
| cb_query: "f \<in> set query_fields \<Longrightarrow> r \<in> callbacks K L \<Longrightarrow> query_program f @ r \<in> callbacks K L"
| cb_client: "r \<in> callbacks K L \<Longrightarrow> GetProxy_program p W c @ r \<in> callbacks K L"

definition reenters :: "program \<Rightarrow> bool" where
  "reenters q \<longleftrightarrow> (\<exists>m. Acquire Registry m \<in> set q)"

inductive_set requests :: "build \<Rightarrow> ('sig, 'cell, 'net) payload \<Rightarrow> program set \<Rightarrow> program set"
  for K and L :: "('sig, 'cell, 'net) payload" and C where
  "(\<And>m. cb m \<in> insert [] C) \<Longrightarrow> register_program K (E :: ('sig, 'cell, 'net) world) s q cb \<in> requests K L C"
| "unregister_program K (E :: ('sig, 'cell, 'net) world) s k \<in> requests K L C"

definition remote_requests ::
    "build \<Rightarrow> ('sig, 'cell, 'net) payload \<Rightarrow> program set \<Rightarrow> nat \<Rightarrow> (int32 \<Rightarrow> uint32 \<Rightarrow> int32 \<times> program) \<Rightarrow> bool" where
  "remote_requests K L C p req \<longleftrightarrow>
     (\<forall>slotId msk. \<exists>W c. \<exists>q \<in> requests K L C. snd (req slotId msk) = request_program p W c q)"

inductive_set js_calls :: "build \<Rightarrow> ('sig, 'cell, 'net) payload \<Rightarrow> program set \<Rightarrow> nat \<Rightarrow> program set" for K L C p where
  "remote_requests K L C p req \<Longrightarrow> js_on_program K N p req ob e h \<in> js_calls K L C p"
| "remote_requests K L C p req \<Longrightarrow> js_off_ref_program K N p req env eventType ref h \<in> js_calls K L C p"
| "remote_requests K L C p req \<Longrightarrow> js_off_program K p req env eventType h \<in> js_calls K L C p"
| "remote_requests K L C p req \<Longrightarrow> js_off_all_program K p req env h \<in> js_calls K L C p"

inductive_set cj_calls :: "build \<Rightarrow> ('sig, 'cell, 'net) payload \<Rightarrow> program set \<Rightarrow> nat \<Rightarrow> program set" for K L C p where
  "remote_requests K L C p req \<Longrightarrow> cj_on_program K p req ob e h \<in> cj_calls K L C p"
| "remote_requests K L C p req \<Longrightarrow> cj_off_program K p req eventType funcId h \<in> cj_calls K L C p"

inductive_set operations :: "build \<Rightarrow> ('sig, 'cell, 'net) payload \<Rightarrow> program set \<Rightarrow> program set"
  for K and L :: "('sig, 'cell, 'net) payload" and C where
  op_update: "(\<And>r. cb r \<in> insert [] C) \<Longrightarrow>
    update_program K (E :: ('sig, 'cell, 'net) world) s rs cb u \<in> operations K L C"
| op_request: "q \<in> requests K L C \<Longrightarrow> q \<in> operations K L C"
| op_remote: "q \<in> requests K L C \<Longrightarrow> request_program p W c q \<in> operations K L C"
| op_query: "f \<in> set query_fields \<Longrightarrow> query_program f \<in> operations K L C"
| op_getter: "q \<in> set getter_programs \<Longrightarrow> q \<in> operations K L C"
| op_start: "OnStart_program K (s :: ('sig, 'cell, 'net) service) \<in> operations K L C"
| op_stop: "OnStop_program \<in> operations K L C"
| op_died: "OnRemoteDied_program p W remote c \<in> operations K L C"
| op_js_call: "q \<in> js_calls K L C p \<Longrightarrow> q \<in> operations K L C"
| op_js_handle: "js_handle_program p \<in> operations K L C"
| op_js_work: "qs \<in> lists (js_calls K L C p) \<Longrightarrow> NullCrash \<notin> set (WorkUpdated N L h w) \<Longrightarrow>
    js_work_program p N L h w (concat qs) \<in> operations K L C"
| op_cj_call: "q \<in> cj_calls K L C p \<Longrightarrow> q \<in> operations K L C"
| op_cj_event: "(\<And>l. \<exists>qs \<in> lists (cj_calls K L C p). cb l = concat qs) \<Longrightarrow>
    cj_event_program p snapshot cb \<in> operations K L C"

definition dumps :: "build \<Rightarrow> program set" where
  "dumps K = {Dump_program K D fd | D fd. True}"

section \<open>The programs describe the model\<close>

text \<open>The value of a field of the service.\<close>

fun same_field :: "field \<Rightarrow> ('sig, 'cell, 'net) service \<Rightarrow> ('sig, 'cell, 'net) service \<Rightarrow> bool" where
  "same_field F_state s t = (state_of s = state_of t)"
| "same_field F_slotSize s t = (slotSize_of s = slotSize_of t)"
| "same_field F_bindStartTime s t = (bindStartTime_of s = bindStartTime_of t)"
| "same_field F_bindEndTime s t = (bindEndTime_of s = bindEndTime_of t)"
| "same_field F_stateRecords s t = (stateRecords_of s = stateRecords_of t)"
| "same_field F_cfuResult s t = (cfuResult_of s = cfuResult_of t)"
| "same_field F_voiceMailMsgResult s t = (voiceMailMsgResult_of s = voiceMailMsgResult_of t)"
| "same_field F_callState s t = (callState_of s = callState_of t)"
| "same_field F_callIncomingNumber s t = (callIncomingNumber_of s = callIncomingNumber_of t)"
| "same_field F_signalInfos s t = (signalInfos_of s = signalInfos_of t)"
| "same_field F_cellInfos s t = (cellInfos_of s = cellInfos_of t)"
| "same_field F_searchNetworkState s t = (searchNetworkState_of s = searchNetworkState_of t)"
| "same_field F_simState s t = (simState_of s = simState_of t)"
| "same_field F_cardType s t = (cardType_of s = cardType_of t)"
| "same_field F_simReason s t = (simReason_of s = simReason_of t)"
| "same_field F_cellularDataConnectionState s t = (cellularDataConnectionState_of s = cellularDataConnectionState_of t)"
| "same_field F_cellularDataConnectionNetworkType s t =
     (cellularDataConnectionNetworkType_of s = cellularDataConnectionNetworkType_of t)"
| "same_field F_cellularDataFlow s t = (cellularDataFlow_of s = cellularDataFlow_of t)"
| "same_field F_simActiveResult s t = (simActiveResult_of s = simActiveResult_of t)"
| "same_field _ s t = True"

definition changes_only :: "field set \<Rightarrow> (('sig, 'cell, 'net) service \<Rightarrow> ('sig, 'cell, 'net) service) \<Rightarrow> bool" where
  "changes_only A g \<longleftrightarrow> (\<forall>f s. f \<notin> A \<longrightarrow> same_field f s (g s))"

lemma changes_onlyI: "(\<And>f s. f \<notin> A \<Longrightarrow> same_field f s (g s)) \<Longrightarrow> changes_only A g"
  by (simp add: changes_only_def)

lemma same_field_refl [simp]: "same_field f s s"
  by (cases f) simp_all

lemma same_field_update [simp]:
  "f \<noteq> F_stateRecords \<Longrightarrow> same_field f s (t\<lparr>stateRecords_of := v0\<rparr>) = same_field f s t"
  "f \<noteq> F_cfuResult \<Longrightarrow> same_field f s (t\<lparr>cfuResult_of := v1\<rparr>) = same_field f s t"
  "f \<noteq> F_voiceMailMsgResult \<Longrightarrow> same_field f s (t\<lparr>voiceMailMsgResult_of := v2\<rparr>) = same_field f s t"
  "f \<noteq> F_callState \<Longrightarrow> same_field f s (t\<lparr>callState_of := v3\<rparr>) = same_field f s t"
  "f \<noteq> F_callIncomingNumber \<Longrightarrow> same_field f s (t\<lparr>callIncomingNumber_of := v4\<rparr>) = same_field f s t"
  "f \<noteq> F_signalInfos \<Longrightarrow> same_field f s (t\<lparr>signalInfos_of := v5\<rparr>) = same_field f s t"
  "f \<noteq> F_cellInfos \<Longrightarrow> same_field f s (t\<lparr>cellInfos_of := v6\<rparr>) = same_field f s t"
  "f \<noteq> F_searchNetworkState \<Longrightarrow> same_field f s (t\<lparr>searchNetworkState_of := v7\<rparr>) = same_field f s t"
  "f \<noteq> F_simState \<Longrightarrow> same_field f s (t\<lparr>simState_of := v8\<rparr>) = same_field f s t"
  "f \<noteq> F_cardType \<Longrightarrow> same_field f s (t\<lparr>cardType_of := v9\<rparr>) = same_field f s t"
  "f \<noteq> F_simReason \<Longrightarrow> same_field f s (t\<lparr>simReason_of := v10\<rparr>) = same_field f s t"
  "f \<noteq> F_cellularDataConnectionState \<Longrightarrow> same_field f s (t\<lparr>cellularDataConnectionState_of := v11\<rparr>) = same_field f s t"
  "f \<noteq> F_cellularDataConnectionNetworkType \<Longrightarrow> same_field f s (t\<lparr>cellularDataConnectionNetworkType_of := v12\<rparr>) = same_field f s t"
  "f \<noteq> F_cellularDataFlow \<Longrightarrow> same_field f s (t\<lparr>cellularDataFlow_of := v13\<rparr>) = same_field f s t"
  "f \<noteq> F_simActiveResult \<Longrightarrow> same_field f s (t\<lparr>simActiveResult_of := v14\<rparr>) = same_field f s t"
  by (cases f; simp)+

lemma write_steps_fields: "list_all2 (\<lambda>f. changes_only {f}) (update_fields u) (write_steps E u)"
  by (cases u) (auto simp: changes_only_def split: option.split)

lemma if_mask_changes: "changes_only A (\<lambda>s. fst (a s)) \<Longrightarrow> changes_only A (\<lambda>s. fst (if_mask K r m a s))"
  by (simp add: if_mask_def skip_def changes_only_def)

lemma data_steps_fields:
  "list_all2 (\<lambda>(m, fs) a. changes_only (set fs) (\<lambda>s. fst (a s))) data_fields (data_steps K E r)"
  by (simp add: data_fields_def data_steps_def)
    (intro conjI if_mask_changes;
     auto simp: changes_only_def data_defs GetCallIncomingNumberForSlotId_def map_index_def Let_def
       split: option.splits prod.splits)

section \<open>The protocol\<close>

fun lock_rank :: "lock_id \<Rightarrow> nat" where
  "lock_rank (OperatorMutex p) = 0"
| "lock_rank (OperatorMutex_cj p) = 0"
| "lock_rank Registry = 1"
| "lock_rank (MutexProxy p) = 2"

fun field_protection :: "field \<Rightarrow> lock_id protection" where
  "field_protection F_slotSize = Constant"
| "field_protection F_state = Unprotected"
| "field_protection F_bindStartTime = Unprotected"
| "field_protection F_bindEndTime = Unprotected"
| "field_protection (P_proxy p) = Guard (MutexProxy p)"
| "field_protection (P_deathRecipient p) = Guard (MutexProxy p)"
| "field_protection (J_listenerList p) = Guard (OperatorMutex p)"
| "field_protection (J_isDeleting p i) = Guard (OperatorMutex p)"
| "field_protection (C_listenerList p) = Guard (OperatorMutex_cj p)"
| "field_protection (C_isDeleting p i) = Unprotected"
| "field_protection _ = Guard Registry"

abbreviation "keeps_order \<equiv> climbs lock_rank"
abbreviation "keeps_guards \<equiv> safe field_protection"

lemma update_fields_guarded: "f \<in> set (update_fields u) \<Longrightarrow> field_protection f = Guard Registry"
  by (cases u) auto

lemma notify_fields_guarded:
  "f \<in> set (round_fields u) \<Longrightarrow> field_protection f = Guard Registry"
  "f \<in> set (send_fields u) \<Longrightarrow> field_protection f = Guard Registry"
  by (cases u; auto)+

lemma data_fields_guarded: "(m, fs) \<in> set data_fields \<Longrightarrow> f \<in> set fs \<Longrightarrow> field_protection f = Guard Registry"
  by (auto simp: data_fields_def)

lemma query_fields_guarded: "f \<in> set query_fields \<Longrightarrow> field_protection f = Guard Registry"
  by (auto simp: query_fields_def)

text \<open>The programs of the service use its lock only, apart from what callbacks in its process do.\<close>

lemma update_order:
  assumes "\<And>r. keeps_order (Suc (Suc 0)) (cb r)"
  shows "keeps_order (Suc 0) (update_program K E s rs cb u)"
  unfolding update_program_def using assms by (auto intro!: lock_rules)

lemma update_guards:
  assumes "\<And>r G. keeps_guards G (cb r)"
  shows "keeps_guards G (update_program K E s rs cb u)"
  unfolding update_program_def using assms
  by (auto intro!: lock_rules simp: update_fields_guarded notify_fields_guarded) blast+

lemma register_order:
  assumes "\<And>m. keeps_order (Suc (Suc 0)) (cb m)"
  shows "keeps_order (Suc 0) (register_program K E s q cb)"
  unfolding register_program_def data_program_def Let_def using assms by (auto intro!: lock_rules)

lemma register_guards:
  assumes "\<And>m G. keeps_guards G (cb m)"
  shows "keeps_guards G (register_program K E s q cb)"
  unfolding register_program_def data_program_def Let_def using assms
  by (auto intro!: lock_rules simp: data_fields_guarded)

lemma unregister_order: "keeps_order (Suc 0) (unregister_program K E s k)"
  unfolding unregister_program_def by (auto intro!: lock_rules)

lemma unregister_guards: "keeps_guards G (unregister_program K E s k)"
  unfolding unregister_program_def by (auto intro!: lock_rules)

lemma proxy_order: "keeps_order (Suc (Suc 0)) (GetProxy_program p W c)"
  unfolding GetProxy_program_def by (auto intro!: lock_rules)

lemma proxy_guards: "keeps_guards G (GetProxy_program p W c)"
  unfolding GetProxy_program_def by (auto intro!: lock_rules)

lemma query_order: "keeps_order (Suc 0) (query_program f)"
  unfolding query_program_def by (auto intro!: lock_rules)

lemma query_guards: "f \<in> set query_fields \<Longrightarrow> keeps_guards G (query_program f)"
  unfolding query_program_def by (auto intro!: lock_rules simp: query_fields_guarded)

lemma getter_order: "q \<in> set getter_programs \<Longrightarrow> keeps_order (Suc 0) q"
  unfolding getter_programs_def by (auto intro!: lock_rules)

lemma getter_guards: "q \<in> set getter_programs \<Longrightarrow> keeps_guards G q"
  unfolding getter_programs_def by (auto intro!: lock_rules)

lemma life_order:
  "keeps_order (Suc 0) (OnStart_program K s)" "keeps_order (Suc 0) OnStop_program"
  unfolding OnStart_program_def OnStop_program_def by (auto intro!: lock_rules)

lemma life_guards:
  "keeps_guards {} (OnStart_program K s)" "keeps_guards {} OnStop_program"
  unfolding OnStart_program_def OnStop_program_def by (auto intro!: lock_rules)

text \<open>Callbacks in the service's process keep to the fields' locks, and to the order of the locks when they do not re-enter.\<close>

lemma callbacks_guards: "q \<in> callbacks K L \<Longrightarrow> keeps_guards G q"
  by (induction arbitrary: G rule: callbacks.induct)
    (auto intro!: lock_rules register_guards unregister_guards query_guards proxy_guards)

lemma locked_reenters: "reenters (locked Registry m p @ r)"
  by (auto simp: reenters_def locked_def)

lemma callbacks_order:
  assumes "q \<in> callbacks K L" and "\<not> reenters q"
  shows "keeps_order (Suc (Suc 0)) q"
  using assms
proof (induction rule: callbacks.induct)
  case (cb_client r p W c)
  then have "keeps_order (Suc (Suc 0)) r" by (auto simp: reenters_def)
  with proxy_order show ?case by (intro climbs_append)
qed (auto simp: register_program_def unregister_program_def query_program_def Let_def locked_reenters climbs_Nil
    split: if_splits)

text \<open>Before it takes the service's lock, such a callback does not release it.\<close>

lemma callbacks_release:
  assumes "q \<in> callbacks K L" and "q = p @ Acquire Registry m # r" and "\<forall>m. Acquire Registry m \<notin> set p"
  shows "Release Registry \<notin> set p"
  using assms
proof (induction arbitrary: p rule: callbacks.induct)
  case (cb_client r' i W c)
  let ?g = "GetProxy_program i W c"
  have g: "Acquire Registry n \<notin> set ?g" "Release Registry \<notin> set ?g" for n
    by (auto simp: GetProxy_program_def locked_def)
  from cb_client.prems(1) obtain us where "?g = p @ us \<and> us @ r' = Acquire Registry m # r \<or>
      ?g @ us = p \<and> r' = us @ Acquire Registry m # r"
    by (auto simp: append_eq_append_conv2)
  then show ?case
  proof
    assume *: "?g = p @ us \<and> us @ r' = Acquire Registry m # r"
    then have "set p \<subseteq> set ?g" by auto
    with g show ?thesis by auto
  next
    assume *: "?g @ us = p \<and> r' = us @ Acquire Registry m # r"
    then have "\<forall>m. Acquire Registry m \<notin> set us" using cb_client.prems(2) by auto
    with * cb_client.IH [of us] g show ?thesis by auto
  qed
qed (auto simp: register_program_def unregister_program_def query_program_def locked_def Let_def Cons_eq_append_conv
    split: if_splits)

definition quiet_callbacks :: "build \<Rightarrow> ('sig, 'cell, 'net) payload \<Rightarrow> program set" where
  "quiet_callbacks K L = {q \<in> callbacks K L. \<not> reenters q}"

lemma quiet_order: "C \<subseteq> quiet_callbacks K L \<Longrightarrow> q \<in> insert [] C \<Longrightarrow> keeps_order (Suc (Suc 0)) q"
  unfolding quiet_callbacks_def using callbacks_order climbs_Nil by blast

lemma local_guards: "C \<subseteq> callbacks K L \<Longrightarrow> q \<in> insert [] C \<Longrightarrow> keeps_guards G q"
  using callbacks_guards safe_Nil by blast

lemma request_order:
  assumes "C \<subseteq> quiet_callbacks K L" and "q \<in> requests K L C"
  shows "keeps_order (Suc 0) q"
  using assms(2)
proof (cases rule: requests.cases)
  case (1 cb E s q')
  then show ?thesis using quiet_order [OF assms(1)] by (auto intro!: register_order)
qed (simp add: unregister_order)

lemma request_guards:
  assumes "C \<subseteq> callbacks K L" and "q \<in> requests K L C"
  shows "keeps_guards G q"
  using assms(2)
proof (cases rule: requests.cases)
  case (1 cb E s q')
  then show ?thesis using local_guards [OF assms(1)] by (auto intro!: register_guards)
qed (simp add: unregister_guards)

lemma dump_order: "0 \<le> fd \<Longrightarrow> \<forall>slot \<in> set (dump_slots K). \<not> HasSimCard D slot \<Longrightarrow> keeps_order (Suc 0) (Dump_program K D fd)"
  unfolding Dump_program_def by (auto intro!: lock_rules simp: slot_program_def WhetherHasSimCard_def)

lemma dump_guards: "keeps_guards {} (Dump_program K D fd)"
  unfolding Dump_program_def slot_program_def
  by (auto intro!: lock_rules query_guards split: if_splits)

text \<open>The client holds its own lock while it connects, not while the service works.\<close>

lemma remote_order: "C \<subseteq> quiet_callbacks K L \<Longrightarrow> q \<in> requests K L C \<Longrightarrow> keeps_order (Suc 0) (request_program p W c q)"
  unfolding request_program_def
  by (auto intro!: lock_rules intro: climbs_mono [OF proxy_order] request_order)

lemma remote_guards: "C \<subseteq> callbacks K L \<Longrightarrow> q \<in> requests K L C \<Longrightarrow> keeps_guards G (request_program p W c q)"
  unfolding request_program_def
  by (auto intro!: lock_rules intro: proxy_guards request_guards)

lemma died_order: "keeps_order (Suc 0) (OnRemoteDied_program p W remote c)"
  unfolding OnRemoteDied_program_def by (auto intro!: lock_rules)

lemma died_guards: "keeps_guards {} (OnRemoteDied_program p W remote c)"
  unfolding OnRemoteDied_program_def by (auto intro!: lock_rules)

text \<open>What a binding records of its requests is made of programs of requests.\<close>

definition collects :: "(program \<Rightarrow> bool) \<Rightarrow> (int32 \<Rightarrow> uint32 \<Rightarrow> int32 \<times> program) \<Rightarrow> bool" where
  "collects Q req \<longleftrightarrow> Q [] \<and> (\<forall>x slotId msk. Q x \<longrightarrow> Q (x @ snd (req slotId msk)))"

lemma collects_order: "C \<subseteq> quiet_callbacks K L \<Longrightarrow> remote_requests K L C p req \<Longrightarrow> collects (keeps_order (Suc 0)) req"
  unfolding collects_def remote_requests_def by (metis One_nat_def climbs_Nil climbs_append remote_order)

lemma collects_guards: "C \<subseteq> callbacks K L \<Longrightarrow> remote_requests K L C p req \<Longrightarrow> collects (keeps_guards G) req"
  unfolding collects_def remote_requests_def by (metis safe_Nil safe_append remote_guards)

lemma recorded_on:
  assumes "collects Q req"
  shows "Q (snd (snd (RegisterEventListener K N (recording_add req) ob e (h, []))))"
    and "Q (snd (snd (RegisterEventListener_cj K (recording_add req) ob e' (h', []))))"
proof -
  have "Q []" and "Q (snd (req k m))" for k m
    using assms unfolding collects_def by (blast, metis append_Nil)
  then show "Q (snd (snd (RegisterEventListener K N (recording_add req) ob e (h, []))))"
    and "Q (snd (snd (RegisterEventListener_cj K (recording_add req) ob e' (h', []))))"
    by (simp_all add: RegisterEventListener_def RegisterEventListener_cj_def recording_add_def split_beta Let_def)
qed

lemma recorded_check:
  assumes "collects Q req" and "Q x"
  shows "Q (snd (CheckRemoveStateObserver K (recording_remove req) h t k (r, x)))"
    and "Q (snd (CheckRemoveStateObserver_cj K (recording_remove req) h' t k (r, x)))"
  using assms
  by (auto simp: CheckRemoveStateObserver_def CheckRemoveStateObserver_cj_def recording_remove_def collects_def Let_def)

lemma recorded_off:
  assumes "collects Q req"
  shows "Q (snd (snd (snd (UnregisterEventListener_ref K N (recording_remove req) env t ref (h, [])))))"
    and "Q (snd (snd (snd (UnregisterEventListener K (recording_remove req) env t (h, [])))))"
    and "Q (snd (fst (UnRegisterAllListener K (recording_remove req) env (h, []))))"
    and "Q (snd (snd (UnregisterEventListener_cj K (recording_remove req) t funcId (h', []))))"
proof -
  have nil: "Q []" using assms by (simp add: collects_def)
  have each: "Q (snd (for_each (CheckRemoveStateObserver K (recording_remove req) h t) ks (r, [])))" for h t ks r
    by (rule for_each_invariant) (use nil recorded_check(1) [OF assms] in \<open>force+\<close>)
  have each_cj: "Q (snd (for_each (CheckRemoveStateObserver_cj K (recording_remove req) h t) ks (r, [])))" for h t ks r
    by (rule for_each_invariant) (use nil recorded_check(2) [OF assms] in \<open>force+\<close>)
  have each_all: "Q (snd (for_each (\<lambda>(k, t). CheckRemoveStateObserver K (recording_remove req) h t k) kts (r, [])))"
    for h kts r
    by (rule for_each_invariant) (use nil recorded_check(1) [OF assms] in \<open>force+\<close>)
  show "Q (snd (snd (snd (UnregisterEventListener_ref K N (recording_remove req) env t ref (h, [])))))"
    using each nil by (simp add: UnregisterEventListener_ref_def split_beta Let_def)
  show "Q (snd (snd (snd (UnregisterEventListener K (recording_remove req) env t (h, [])))))"
    using each nil by (simp add: UnregisterEventListener_def split_beta Let_def)
  show "Q (snd (fst (UnRegisterAllListener K (recording_remove req) env (h, []))))"
    using each_all nil by (simp add: UnRegisterAllListener_def split_beta Let_def)
  show "Q (snd (snd (UnregisterEventListener_cj K (recording_remove req) t funcId (h', []))))"
    using each_cj nil by (simp add: UnregisterEventListener_cj_def split_beta Let_def)
qed

lemma flag_fields_in: "f \<in> set (flag_fields F flags) \<Longrightarrow> \<exists>i. f = F i"
  by (auto simp: flag_fields_def split: option.splits)

lemma flag_fields_guarded:
  "f \<in> set (flag_fields (J_isDeleting p) flags) \<Longrightarrow> field_protection f = Guard (OperatorMutex p)"
  "f \<in> set (flag_fields (C_isDeleting p) flags) \<Longrightarrow> field_protection f = Unprotected"
  by (auto dest: flag_fields_in)

lemmas binding_programs = js_on_program_def js_off_ref_program_def js_off_program_def js_off_all_program_def
  cj_on_program_def cj_off_program_def

lemma js_calls_order:
  assumes "C \<subseteq> quiet_callbacks K L" and "q \<in> js_calls K L C p"
  shows "keeps_order 0 q"
  using assms(2)
  by (cases rule: js_calls.cases)
    (auto intro!: lock_rules intro: recorded_on [OF collects_order [OF assms(1)]] recorded_off [OF collects_order [OF assms(1)]]
      simp: binding_programs split_beta Let_def)

lemma js_calls_guards:
  assumes "C \<subseteq> callbacks K L" and "q \<in> js_calls K L C p"
  shows "keeps_guards {} q"
  using assms(2)
  by (cases rule: js_calls.cases)
    (auto intro!: lock_rules intro: recorded_on [OF collects_guards [OF assms(1)]] recorded_off [OF collects_guards [OF assms(1)]]
      simp: binding_programs split_beta Let_def flag_fields_guarded)

lemma cj_calls_order:
  assumes "C \<subseteq> quiet_callbacks K L" and "q \<in> cj_calls K L C p"
  shows "keeps_order 0 q"
  using assms(2)
  by (cases rule: cj_calls.cases)
    (auto intro!: lock_rules intro: recorded_on [OF collects_order [OF assms(1)]] recorded_off [OF collects_order [OF assms(1)]]
      simp: binding_programs split_beta Let_def)

lemma cj_calls_guards:
  assumes "C \<subseteq> callbacks K L" and "q \<in> cj_calls K L C p"
  shows "keeps_guards {} q"
  using assms(2)
  by (cases rule: cj_calls.cases)
    (auto intro!: lock_rules intro: recorded_on [OF collects_guards [OF assms(1)]] recorded_off [OF collects_guards [OF assms(1)]]
      simp: binding_programs split_beta Let_def flag_fields_guarded)

lemma callback_order:
  assumes "C \<subseteq> quiet_callbacks K L"
  shows "qs \<in> lists (js_calls K L C p) \<Longrightarrow> keeps_order 0 (concat qs)"
    and "qs \<in> lists (cj_calls K L C p) \<Longrightarrow> keeps_order 0 (concat qs)"
  using js_calls_order [OF assms] cj_calls_order [OF assms] by (auto intro!: climbs_concat)

lemma callback_guards:
  assumes "C \<subseteq> callbacks K L"
  shows "qs \<in> lists (js_calls K L C p) \<Longrightarrow> keeps_guards {} (concat qs)"
    and "qs \<in> lists (cj_calls K L C p) \<Longrightarrow> keeps_guards {} (concat qs)"
  using js_calls_guards [OF assms] cj_calls_guards [OF assms] by (auto intro!: safe_concat)

text \<open>Every work function that does not crash releases the mutex once, before it calls a function.\<close>

lemma work_func_cases:
  assumes "work_func N L t l obj = Some es"
  shows "(\<exists>v. es = work_frame N l v) \<or> (\<exists>ns. es = WorkNetworkStateUpdated N L l ns)"
proof -
  obtain m where "t = Some m" using assms by (cases t) (simp_all add: work_func_def)
  with assms show ?thesis
    by (cases m) (auto simp: work_func_def WorkCallStateUpdated_def WorkCallStateExUpdated_def WorkSignalUpdated_def
        WorkSimStateUpdated_def WorkCellInfomationUpdated_def WorkCellularDataConnectStateUpdated_def
        WorkCellularDataFlowUpdated_def WorkCfuIndicatorUpdated_def WorkVoiceMailMsgIndicatorUpdated_def
        WorkIccAccountUpdated_def WorkSimActiveUpdated_def WorkCCallStateUpdated_def WorkVoIPStateUpdated_def
        split: option.splits update_info.splits)
qed

lemma work_unlocks:
  assumes "NullCrash \<notin> set (WorkUpdated N L h w)"
  shows "holds_lock True (WorkUpdated N L h w) = Some False"
proof -
  have frame: "holds_lock True (work_frame N l v) = Some False" if "NullCrash \<notin> set (work_frame N l v)" for l v
    using that work_frame_contract(1) [of N l] by (cases v) (auto simp: work_frame_def split: if_splits)
  have network: "holds_lock True (WorkNetworkStateUpdated N L l ns) = Some False" for l ns
    by (auto simp: WorkNetworkStateUpdated_def NapiReturnToJS_def split: option.splits)
  show ?thesis
    using assms frame network
    by (cases w) (auto simp: WorkUpdated_def dest!: work_func_cases split: option.splits if_splits)
qed

lemma unlocked_actions: "holds_lock False es = Some b \<Longrightarrow> \<exists>n. work_actions p cb es = concat (replicate n cb) \<and> \<not> b"
proof (induction False es rule: holds_lock.induct)
  case (3 f v es)
  then obtain n where "work_actions p cb es = concat (replicate n cb)" "\<not> b" by auto
  then show ?case by (intro exI [of _ "Suc n"]) (simp add: work_actions_def)
qed (auto simp: work_actions_def)

lemma work_actions_unlock:
  "holds_lock True es = Some False \<Longrightarrow> \<exists>n. work_actions p cb es = Release (OperatorMutex p) # concat (replicate n cb)"
proof (induction True es rule: holds_lock.induct)
  case (2 es)
  then have "holds_lock False es = Some False" by simp
  from unlocked_actions [OF this] obtain n where "work_actions p cb es = concat (replicate n cb)" by blast
  then show ?case by (intro exI [of _ n]) (simp add: work_actions_def)
qed (auto simp: work_actions_def)

lemma js_work_section:
  assumes "NullCrash \<notin> set (WorkUpdated N L h w)"
  obtains n where "js_work_program p N L h w cb =
    locked (OperatorMutex p) Unique (map ReadField (flag_fields (J_isDeleting p) [l_isDeleting (fst w)])) @
    concat (replicate n cb)"
proof -
  from work_actions_unlock [OF work_unlocks [OF assms], of p cb] obtain n where
    "work_actions p cb (WorkUpdated N L h w) = Release (OperatorMutex p) # concat (replicate n cb)" by blast
  then show thesis using that [of n] by (simp add: js_work_program_def locked_def)
qed

lemma operations_order:
  assumes quiet: "C \<subseteq> quiet_callbacks K L" and "q \<in> operations K L C"
  shows "keeps_order 0 q"
  using assms(2)
proof (cases rule: operations.cases)
  case (op_js_work qs p N h w)
  obtain n where n: "q = locked (OperatorMutex p) Unique
      (map ReadField (flag_fields (J_isDeleting p) [l_isDeleting (fst w)])) @ concat (replicate n (concat qs))"
    using js_work_section [OF op_js_work(3), of p "concat qs"] op_js_work(1) by blast
  show ?thesis unfolding n
    by (auto intro!: climbs_append climbs_locked climbs_reads climbs_concat callback_order(1) [OF quiet op_js_work(2)])
next
  case (op_cj_event p cb snapshot)
  then have "keeps_order 0 (cb l)" for l using callback_order(2) [OF quiet] by metis
  with op_cj_event show ?thesis unfolding cj_event_program_def by (auto intro!: lock_rules)
next
  case (op_js_handle p)
  then show ?thesis unfolding js_handle_program_def by (auto intro!: lock_rules)
next
  case (op_update cb E s rs u)
  then have "keeps_order (Suc 0) q" using quiet_order [OF quiet] by (auto intro!: update_order)
  then show ?thesis by (rule climbs_mono) simp
qed (auto intro: js_calls_order [OF quiet] cj_calls_order [OF quiet] climbs_mono [OF request_order [OF quiet]]
    climbs_mono [OF remote_order [OF quiet]] climbs_mono [OF query_order] climbs_mono [OF getter_order]
    climbs_mono [OF life_order(1)] climbs_mono [OF life_order(2)] climbs_mono [OF died_order])

lemma operations_guards:
  assumes C: "C \<subseteq> callbacks K L" and "q \<in> operations K L C"
  shows "keeps_guards {} q"
  using assms(2)
proof (cases rule: operations.cases)
  case (op_js_work qs p N h w)
  obtain n where n: "q = locked (OperatorMutex p) Unique
      (map ReadField (flag_fields (J_isDeleting p) [l_isDeleting (fst w)])) @ concat (replicate n (concat qs))"
    using js_work_section [OF op_js_work(3), of p "concat qs"] op_js_work(1) by blast
  show ?thesis unfolding n
    by (auto intro!: safe_append safe_locked safe_reads safe_concat callback_guards(1) [OF C op_js_work(2)]
        simp: flag_fields_guarded)
next
  case (op_cj_event p cb snapshot)
  then have "keeps_guards {} (cb l)" for l using callback_guards(2) [OF C] by metis
  with op_cj_event show ?thesis
    unfolding cj_event_program_def by (auto intro!: lock_rules simp: flag_fields_guarded)
next
  case (op_js_handle p)
  then show ?thesis unfolding js_handle_program_def by (auto intro!: lock_rules)
next
  case (op_update cb E s rs u)
  then show ?thesis using local_guards [OF C] by (auto intro!: update_guards)
qed (auto intro: request_guards [OF C] js_calls_guards [OF C] cj_calls_guards [OF C] remote_guards [OF C] query_guards
    getter_guards life_guards died_guards)

text \<open>A dump is quiet when it takes the lock once.\<close>

definition quiet_dump :: "build \<Rightarrow> dump_env \<Rightarrow> int32 \<Rightarrow> bool" where
  "quiet_dump K D fd \<longleftrightarrow> fd < 0 \<or> (\<forall>slot \<in> set (dump_slots K). \<not> HasSimCard D slot)"

lemma loud_dump_iff:
  "\<not> quiet_dump K D fd \<longleftrightarrow> 0 \<le> fd \<and>
     (\<exists>i. 0 \<le> i \<and> i < SIM_SLOT_COUNT K \<and> HasSimCard D (if i \<ge> SIM_SLOT_2 K then i + 1 else i))"
proof -
  let ?f = "\<lambda>i. if i \<ge> SIM_SLOT_2 K then i + 1 else i"
  have "set (dump_slots K) = ?f ` {0..SIM_SLOT_COUNT K - 1}" unfolding dump_slots_def by (simp only: set_map set_upto)
  then have "(\<exists>slot \<in> set (dump_slots K). HasSimCard D slot) \<longleftrightarrow>
      (\<exists>i \<in> {0..SIM_SLOT_COUNT K - 1}. HasSimCard D (?f i))" by (simp only: bex_simps)
  also have "\<dots> \<longleftrightarrow> (\<exists>i. 0 \<le> i \<and> i < SIM_SLOT_COUNT K \<and> HasSimCard D (?f i))"
    by (simp only: Bex_def atLeastAtMost_iff zle_diff1_eq conj_assoc)
  finally show ?thesis by (simp only: quiet_dump_def de_Morgan_disj not_less ball_simps not_not)
qed

lemma quiet_dump_order: "quiet_dump K D fd \<Longrightarrow> keeps_order 0 (Dump_program K D fd)"
  using climbs_mono [OF dump_order, of fd K D 0] climbs_Nil
  by (cases "fd < 0") (auto simp: quiet_dump_def Dump_program_def)

interpretation all_locks: lock_protocol lock_rank
  "operations K L (quiet_callbacks K L) \<union> {Dump_program K D fd | D fd. quiet_dump K D fd}"
  using climbs_ordered [OF operations_order [OF order_refl]] climbs_ordered [OF quiet_dump_order]
  by unfold_locales blast+

interpretation all_fields: race_protocol field_protection "operations K L (callbacks K L) \<union> dumps K"
  using safe_guarded [OF operations_guards [OF order_refl]] safe_guarded [OF dump_guards]
  by unfold_locales (auto simp: dumps_def)

text \<open>More that observers in the process do is more that operations do.\<close>

lemma requests_mono:
  assumes "C \<subseteq> C'" and "q \<in> requests K L C"
  shows "q \<in> requests K L C'"
  using assms(2,1) by (cases rule: requests.cases) (auto intro!: requests.intros)

lemma remote_requests_mono: "C \<subseteq> C' \<Longrightarrow> remote_requests K L C p req \<Longrightarrow> remote_requests K L C' p req"
  unfolding remote_requests_def using requests_mono by blast

lemma js_calls_mono: "C \<subseteq> C' \<Longrightarrow> q \<in> js_calls K L C p \<Longrightarrow> q \<in> js_calls K L C' p"
  by (erule js_calls.cases) (auto intro: js_calls.intros remote_requests_mono)

lemma cj_calls_mono: "C \<subseteq> C' \<Longrightarrow> q \<in> cj_calls K L C p \<Longrightarrow> q \<in> cj_calls K L C' p"
  by (erule cj_calls.cases) (auto intro: cj_calls.intros remote_requests_mono)

lemma operations_mono:
  assumes "C \<subseteq> C'"
  shows "operations K L C \<subseteq> operations K L C'"
proof
  fix q assume "q \<in> operations K L C"
  then show "q \<in> operations K L C'"
  proof (cases rule: operations.cases)
    case (op_update cb E s rs u)
    with assms show ?thesis by (auto intro!: operations.op_update)
  next
    case (op_js_work qs p N h w)
    then show ?thesis by (auto intro!: operations.op_js_work js_calls_mono [OF assms] simp: in_lists_conv_set)
  next
    case (op_cj_event p cb snapshot)
    have "\<exists>qs \<in> lists (cj_calls K L C' p). cb l = concat qs" for l
      using op_cj_event(2) [of l] by (auto simp: in_lists_conv_set intro!: bexI cj_calls_mono [OF assms])
    with op_cj_event(1) show ?thesis by (auto intro: operations.op_cj_event)
  qed (auto intro: operations.intros requests_mono [OF assms] js_calls_mono [OF assms] cj_calls_mono [OF assms])
qed

section \<open>Where the rules are broken\<close>

text \<open>A dump that is not quiet asks for the lock a second time while it holds it.\<close>

lemma loud_dump:
  assumes "\<not> quiet_dump K D fd"
  obtains rest where "Dump_program K D fd = Acquire Registry Shared # ReadField F_bindStartTime #
    ReadField F_bindEndTime # ReadField F_bindEndTime # ReadField F_bindStartTime # ReadField F_state #
    Acquire Registry Shared # rest"
proof -
  from assms have "0 \<le> fd" and "\<exists>slot \<in> set (dump_slots K). HasSimCard D slot" by (auto simp: quiet_dump_def)
  then obtain xs slot ys where split: "dump_slots K = xs @ slot # ys" "HasSimCard D slot" "\<forall>k \<in> set xs. \<not> HasSimCard D k"
    using split_list_first_prop [of "dump_slots K" "HasSimCard D"] by blast
  then have pre: "concat (map (slot_program D) xs) = []" by (auto simp: slot_program_def WhetherHasSimCard_def)
  from \<open>HasSimCard D slot\<close> obtain rest where "slot_program D slot = Acquire Registry Shared # rest"
    by (simp add: slot_program_def WhetherHasSimCard_def query_fields_def query_program_def locked_def)
  then show thesis
    using that \<open>0 \<le> fd\<close> by (simp add: Dump_program_def locked_def split(1) pre del: concat_eq_Nil_conv)
qed

text \<open>The dump, a writer that arrives, and the second request of the dump.\<close>

lemma loud_dump_deadlock:
  assumes "\<not> quiet_dump K D fd" and "Dump_program K D fd \<in> Ps" and "OnStop_program \<in> Ps"
  shows "\<exists>ts. lock_run Ps ts \<and> deadlock ts"
proof -
  from loud_dump [OF assms(1)] obtain rest where d: "Dump_program K D fd =
    Acquire Registry Shared # ReadField F_bindStartTime #
    ReadField F_bindEndTime # ReadField F_bindEndTime # ReadField F_bindStartTime # ReadField F_state #
    Acquire Registry Shared # rest" by blast
  define ts :: "(lock_id, field) lock_thread list" where
    "ts = [\<lparr>todo = Acquire Registry Shared # rest, held = [(Registry, Shared)], waiting = True\<rparr>,
           \<lparr>todo = OnStop_program, held = [], waiting = True\<rparr>]"
  have "schedule [0, 0, 0, 0, 0, 0, 0, 1, 0] [new_thread (Dump_program K D fd), new_thread OnStop_program] = Some ts"
    by (simp add: d new_thread_def OnStop_program_def locked_def move_def lock_free_def waits_unique_def ts_def)
  with lock_run_two [OF assms(2,3)] have "lock_run Ps ts" by (rule lock_run_schedule)
  moreover have "move i ts = None" for i
    by (cases i; cases "i - 1")
      (auto simp: ts_def move_def lock_free_def waits_unique_def OnStop_program_def locked_def less_Suc_eq)
  then have "deadlock ts" by (simp add: deadlock_def finished_def lock_step_iff) (simp add: ts_def)
  ultimately show ?thesis by blast
qed

text \<open>
  A registration under the exclusive lock calls an observer of the service's process whose callback takes the lock: the
  thread waits for itself.
\<close>

lemma reentry_deadlock:
  assumes masks: "masks_ok K" and q: "q \<in> C" "C \<subseteq> callbacks K L" "reenters q"
  shows "\<exists>ts. lock_run (operations K L C) ts \<and> deadlock ts"
proof -
  obtain p m r where split: "q = p @ Acquire Registry m # r" "\<forall>m. Acquire Registry m \<notin> set p"
    using q(3) split_list_first_prop [of q "\<lambda>a. \<exists>m. a = Acquire Registry m"] unfolding reenters_def by blast
  have release: "Release Registry \<notin> set p" by (rule callbacks_release [OF _ split]) (use q in blast)
  define E :: "('a, 'b, 'c) world" where
    "E = demo_E\<lparr>CheckPermission := (\<lambda>_. True), CallerIsSystemApp := True, IsSystemAppByFullTokenID := True\<rparr>"
  let ?msk = "OBSERVER_MASK K M_SIM_STATE"
  define reg where "reg = \<lparr>rq_observer = Some 0, rq_key = (DEFAULT_CONN_SLOT, ?msk, 0, 0), rq_bundleName = [],
    rq_isUpdate = True, rq_uid = 0, rq_appIdentifier = []\<rparr>"
  define cb where "cb = (\<lambda>m. if m = M_SIM_STATE then q else [])"
  let ?s = "construct_service K :: ('a, 'b, 'c) service"
  have may: "may_register K E DEFAULT_CONN_SLOT ?msk"
    by (simp add: may_register_def CheckCallerIsSystemApp_def CheckPermission_mask_def IsMultiSimsCapabilitySupported_def
        slot_in_range_def E_def)
  have wants: "wants_mask K n (new_record (rq_key reg) (rq_observer reg, rq_bundleName reg, rq_uid reg, rq_appIdentifier reg))
      \<longleftrightarrow> n = M_SIM_STATE" for n
    using masks_okD [OF masks] by (auto simp: wants_mask_def reg_def)
  have program: "register_program K E ?s reg cb = Acquire Registry Unique # ReadField F_stateRecords #
      WriteField F_stateRecords # WriteField F_cardType # WriteField F_simState # WriteField F_simReason # q @ [Release Registry]"
    using may wants by (simp add: register_program_def data_program_def data_fields_def locked_def cb_def registered_eq Let_def)
      (simp add: reg_def)
  have "cb n \<in> insert [] C" for n using q(1) by (simp add: cb_def)
  then have "register_program K E ?s reg cb \<in> operations K L C" by (intro op_request requests.intros)
  then have start: "lock_run (operations K L C) [new_thread (register_program K E ?s reg cb)]"
    using lock_run.start_thread [OF lock_run.no_threads] by force
  have "schedule [0, 0, 0, 0, 0, 0, 0] [new_thread (register_program K E ?s reg cb)] =
      Some [\<lparr>todo = p @ Acquire Registry m # r @ [Release Registry], held = [(Registry, Unique)], waiting = False\<rparr>]"
    by (simp add: program new_thread_def move_def lock_free_def split(1))
  with start have "lock_run (operations K L C)
      [\<lparr>todo = p @ Acquire Registry m # r @ [Release Registry], held = [(Registry, Unique)], waiting = False\<rparr>]"
    by (rule lock_run_schedule)
  then show ?thesis by (rule self_deadlock [where p = p and r = "r @ [Release Registry]"]) (simp, rule release, simp)
qed

text \<open>The time of the start is written without the lock.\<close>

lemma start_time_race:
  assumes "OnStart_program K s \<in> Ps" and "Dump_program K D 0 \<in> Ps"
  shows "\<exists>ts. lock_run Ps ts \<and> data_race F_bindStartTime ts"
proof -
  obtain rest where d: "Dump_program K D 0 = Acquire Registry Shared # ReadField F_bindStartTime # rest"
    by (simp add: Dump_program_def locked_def)
  define ts :: "(lock_id, field) lock_thread list" where
    "ts = [new_thread (OnStart_program K s),
           \<lparr>todo = ReadField F_bindStartTime # rest, held = [(Registry, Shared)], waiting = False\<rparr>]"
  have "schedule [1, 1] [new_thread (OnStart_program K s), new_thread (Dump_program K D 0)] = Some ts"
    by (simp add: d new_thread_def OnStart_program_def locked_def move_def lock_free_def waits_unique_def ts_def less_Suc_eq)
  with lock_run_two [OF assms] have "lock_run Ps ts" by (rule lock_run_schedule)
  moreover have "data_race F_bindStartTime ts"
    unfolding data_race_def by (rule exI [of _ 0], simp add: ts_def, rule exI [of _ 1])
      (simp add: new_thread_def OnStart_program_def)
  ultimately show ?thesis by blast
qed

text \<open>The getters read without the lock what \<^verbatim>\<open>OnStop\<close> and \<^verbatim>\<open>OnStart\<close> write under it.\<close>

lemma state_race:
  assumes "OnStop_program \<in> Ps" and "[ReadField F_state] \<in> Ps"
  shows "\<exists>ts. lock_run Ps ts \<and> data_race F_state ts"
proof -
  define ts :: "(lock_id, field) lock_thread list" where
    "ts = [\<lparr>todo = [WriteField F_state, Release Registry], held = [(Registry, Unique)], waiting = False\<rparr>,
           new_thread [ReadField F_state]]"
  have "schedule [0, 0] [new_thread OnStop_program, new_thread [ReadField F_state]] = Some ts"
    by (simp add: new_thread_def OnStop_program_def locked_def move_def lock_free_def ts_def)
  with lock_run_two [OF assms] have "lock_run Ps ts" by (rule lock_run_schedule)
  moreover have "data_race F_state ts"
    unfolding data_race_def by (rule exI [of _ 0], simp add: ts_def, rule exI [of _ 1]) (simp add: new_thread_def)
  ultimately show ?thesis by blast
qed

lemma end_time_race:
  assumes "OnStart_program K s \<in> Ps" and "[ReadField F_bindEndTime] \<in> Ps" and "state_of s = STATE_STOPPED"
  shows "\<exists>ts. lock_run Ps ts \<and> data_race F_bindEndTime ts"
proof -
  define ts :: "(lock_id, field) lock_thread list" where
    "ts = [\<lparr>todo = [WriteField F_bindEndTime, ReadField F_slotSize, Release Registry], held = [(Registry, Unique)],
            waiting = False\<rparr>, new_thread [ReadField F_bindEndTime]]"
  have "schedule (if BUILD_TELEPHONY_EXT K then [0, 0, 0, 0, 0, 0] else [0, 0, 0, 0, 0])
      [new_thread (OnStart_program K s), new_thread [ReadField F_bindEndTime]] = Some ts"
    by (simp add: new_thread_def OnStart_program_def locked_def move_def lock_free_def ts_def assms(3))
  with lock_run_two [OF assms(1,2)] have "lock_run Ps ts" by (rule lock_run_schedule)
  moreover have "data_race F_bindEndTime ts"
    unfolding data_race_def by (rule exI [of _ 0], simp add: ts_def, rule exI [of _ 1]) (simp add: new_thread_def)
  ultimately show ?thesis by blast
qed

text \<open>The Cangjie dispatch reads the flag of a listener while another thread removes it.\<close>

lemma some_requests:
  fixes L :: "('sig, 'cell, 'net) payload"
  shows "\<exists>req. remote_requests K L C p req"
proof (intro exI)
  let ?q = "unregister_program K (undefined :: ('sig, 'cell, 'net) world) undefined undefined"
  have "?q \<in> requests K L C" by (rule requests.intros)
  then show "remote_requests K L C p (\<lambda>_ _. (0, request_program p undefined undefined ?q))"
    unfolding remote_requests_def by auto
qed

lemma flag_race:
  assumes "operations K L C \<subseteq> Ps"
  shows "\<exists>ts. lock_run Ps ts \<and> data_race (C_isDeleting p i) ts"
proof -
  obtain req where req: "remote_requests K L C p req" using some_requests by blast
  define l where "l = \<lparr>cj_eventType = None, cj_slotId = 0, cj_funcId = 0, cj_callbackRef = True, cj_isDeleting = Some i\<rparr>"
  define h where "h = \<lparr>cj_listenerList = [l], cj_deleting = (\<lambda>_. False)\<rparr>"
  define ev where "ev = cj_event_program p [l] (\<lambda>_. [])"
  define off where "off = cj_off_program K p req None (-1) h"
  have "\<exists>qs \<in> lists (cj_calls K L C p). [] = concat qs" by (intro bexI [of _ "[]"]) simp_all
  then have "ev \<in> operations K L C" unfolding ev_def by (rule op_cj_event)
  then have "ev \<in> Ps" using assms by blast
  moreover have "off \<in> Ps" unfolding off_def using assms req by (blast intro: op_cj_call cj_calls.intros)
  ultimately have start: "lock_run Ps [new_thread ev, new_thread off]" by (rule lock_run_two)
  have ev: "ev = [Acquire (OperatorMutex_cj p) Unique, ReadField (C_listenerList p), Release (OperatorMutex_cj p),
      ReadField (C_isDeleting p i)]"
    by (simp add: ev_def cj_event_program_def locked_def l_def flag_fields_def)
  obtain rest where off: "off = Acquire (OperatorMutex_cj p) Unique # ReadField (C_listenerList p) #
      WriteField (C_isDeleting p i) # rest"
    by (simp add: off_def cj_off_program_def h_def l_def flag_fields_def locked_def split_beta Let_def)
  define ts :: "(lock_id, field) lock_thread list" where
    "ts = [\<lparr>todo = [ReadField (C_isDeleting p i)], held = [], waiting = False\<rparr>,
           \<lparr>todo = WriteField (C_isDeleting p i) # rest, held = [(OperatorMutex_cj p, Unique)], waiting = False\<rparr>]"
  have "schedule [0, 0, 0, 0, 1, 1, 1] [new_thread ev, new_thread off] = Some ts"
    by (simp add: ev off new_thread_def move_def lock_free_def waits_unique_def ts_def less_Suc_eq)
  with start have "lock_run Ps ts" by (rule lock_run_schedule)
  moreover have "data_race (C_isDeleting p i) ts"
    unfolding data_race_def by (rule exI [of _ 1], simp add: ts_def, rule exI [of _ 0]) simp
  ultimately show ?thesis by blast
qed

lemma unprotected_fields:
  "field_protection f = Unprotected \<longleftrightarrow>
     f \<in> {F_bindStartTime, F_bindEndTime, F_state} \<or> (\<exists>p i. f = C_isDeleting p i)"
  by (cases f) auto

section \<open>Deadlocks and races of the whole program\<close>

lemma all_deadlocks:
  assumes "masks_ok K" and "C \<subseteq> callbacks K L"
  shows "(\<exists>ts. lock_run (operations K L C \<union> {Dump_program K D fd}) ts \<and> deadlock ts) \<longleftrightarrow>
    \<not> quiet_dump K D fd \<or> (\<exists>q \<in> C. reenters q)"
proof
  assume "\<exists>ts. lock_run (operations K L C \<union> {Dump_program K D fd}) ts \<and> deadlock ts"
  then obtain ts where ts: "lock_run (operations K L C \<union> {Dump_program K D fd}) ts" "deadlock ts" by blast
  show "\<not> quiet_dump K D fd \<or> (\<exists>q \<in> C. reenters q)"
  proof (rule ccontr)
    assume *: "\<not> (\<not> quiet_dump K D fd \<or> (\<exists>q \<in> C. reenters q))"
    then have "C \<subseteq> quiet_callbacks K L" using assms(2) by (auto simp: quiet_callbacks_def)
    from * operations_mono [OF this]
    have "lock_run (operations K L (quiet_callbacks K L) \<union> {Dump_program K D fd | D fd. quiet_dump K D fd}) ts"
      by (intro lock_run_mono [OF ts(1)]) blast
    from all_locks.progress [OF this] ts(2) show False by (auto simp: deadlock_def)
  qed
next
  assume "\<not> quiet_dump K D fd \<or> (\<exists>q \<in> C. reenters q)"
  then show "\<exists>ts. lock_run (operations K L C \<union> {Dump_program K D fd}) ts \<and> deadlock ts"
  proof
    assume "\<not> quiet_dump K D fd"
    then show ?thesis by (intro loud_dump_deadlock) (auto intro: op_stop)
  next
    assume "\<exists>q \<in> C. reenters q"
    with reentry_deadlock [OF assms(1) _ assms(2)] show ?thesis by (meson Un_upper1 lock_run_mono)
  qed
qed

lemma all_races:
  fixes L :: "('a, 'b, 'c) payload"
  assumes "C \<subseteq> callbacks K L"
  shows "(\<exists>ts. lock_run (operations K L C \<union> dumps K) ts \<and> data_race f ts) \<longleftrightarrow>
     f \<in> {F_bindStartTime, F_bindEndTime, F_state} \<or> (\<exists>p i. f = C_isDeleting p i)" (is "?race f \<longleftrightarrow> _")
proof
  assume "?race f"
  then obtain ts where ts: "lock_run (operations K L C \<union> dumps K) ts" "data_race f ts" by blast
  have "lock_run (operations K L (callbacks K L) \<union> dumps K) ts"
    by (rule lock_run_mono [OF ts(1)]) (use operations_mono [OF assms] in blast)
  then show "f \<in> {F_bindStartTime, F_bindEndTime, F_state} \<or> (\<exists>p i. f = C_isDeleting p i)"
    using all_fields.no_race ts(2) unprotected_fields by blast
next
  let ?s = "construct_service K :: ('a, 'b, 'c) service"
  have ops: "q \<in> operations K L C \<union> dumps K" if "q \<in> {OnStart_program K ?s, OnStop_program} \<union> set getter_programs" for q
    using op_start [of K ?s L C] op_stop [of K L C] op_getter [of q K L C] that by blast
  have "?race F_bindStartTime" by (rule start_time_race [of K ?s]) (simp_all only: ops insertI1 UnI1, auto simp: dumps_def)
  moreover have "?race F_bindEndTime"
    by (rule end_time_race [of K ?s]) (rule ops, simp, rule ops, simp add: getter_programs_def, simp)
  moreover have "?race F_state" by (rule state_race) (rule ops, simp, rule ops, simp add: getter_programs_def)
  moreover have "?race (C_isDeleting p i)" for p i by (rule flag_race) (rule Un_upper1)
  moreover assume "f \<in> {F_bindStartTime, F_bindEndTime, F_state} \<or> (\<exists>p i. f = C_isDeleting p i)"
  ultimately show "?race f" by blast
qed

lemma all_returns:
  assumes C: "C \<subseteq> quiet_callbacks K L"
    and run: "lock_run (operations K L C \<union> {Dump_program K D fd | D fd. quiet_dump K D fd}) ts"
    and steps: "(lock_step ^^ n) ts ts'"
  shows "n \<le> lock_work ts \<and> (finished ts' \<or> (\<exists>ts''. lock_step ts' ts''))"
proof -
  let ?Ps = "operations K L (quiet_callbacks K L) \<union> {Dump_program K D fd | D fd. quiet_dump K D fd}"
  have "lock_run ?Ps ts" by (rule lock_run_mono [OF run]) (use operations_mono [OF C] in blast)
  with steps have "lock_run ?Ps ts'"
  proof (induction n arbitrary: ts')
    case (Suc n)
    then show ?case by (auto intro: lock_run.thread_step)
  qed simp
  with all_locks.progress steps_work [OF steps] show ?thesis by fastforce
qed

end
