(* ===== verification/Spec2Isabelle.thy ===== *)
theory Spec2Isabelle
  imports Listener_Ani Context_Js Serving Iterators Module_Js Lock_Programs
begin

text \<open>
  The telephony state registry, verified.

  \<^bold>\<open>The program.\<close> The state registry is a system service that caches the state of the telephony
  subsystem (calls, SIM cards, signal, cells, network, data connection, indicators) per SIM slot
  and tells the applications that subscribed to it. Producers send updates over IPC to the service's
  stub; the service checks the caller, stores the value, calls the observer of every matching
  subscription through a proxy, and publishes common events. In the application's process, the
  observer's stub turns the request into a callback, and one of three bindings (JavaScript, Cangjie,
  ArkTS) hands it to the listeners the application registered. Subscriptions go the other way: a
  binding keeps a table of listeners and asks the service, through the client library, for one
  subscription per slot and kind of state.

  \<^bold>\<open>The theories\<close>, in the order of the code (paths under \<^verbatim>\<open>src/\<close>):
  \<^item> \<open>Prelude\<close>: the C++ scalar types, maps with \<^verbatim>\<open>operator[]\<close>, the loop over a vector, and two interfaces
    the service uses: \<open>fanout\<close> (a loop that calls some observers) and \<open>slot_cache\<close> (a query that returns the
    last write).
  \<^item> \<open>External\<close>: what the code uses of other repositories, as records of parameters: \<open>build\<close> (constants
    and enumerations), \<open>world\<close> (permissions, tokens, string conversions, the extension library during one
    call), and the registration record \<^verbatim>\<open>TelephonyStateRegistryRecord\<close>.
  \<^item> \<open>Service_State\<close>: \<^verbatim>\<open>services/src/telephony_state_registry_record.cpp\<close>, and of
    \<^verbatim>\<open>telephony_state_registry_service.cpp\<close> the fields (record \<open>service\<close>), constructor, \<^verbatim>\<open>OnStart\<close>, \<^verbatim>\<open>OnStop\<close>, the
    queries and the published events; the extension wrapper.
  \<^item> \<open>Service_Update\<close>: the thirteen \<^verbatim>\<open>UpdateXxx\<close> operations. Each is a write section (\<open>_write\<close>), a loop body
    (\<open>_body\<close>), a notification section (\<open>_notify\<close>) and the whole function. The interface \<open>update_spec\<close> says what
    an update promises; it is interpreted on all thirteen.
  \<^item> \<open>Service_Registry\<close>: \<^verbatim>\<open>RegisterStateChange\<close>, \<^verbatim>\<open>UnregisterStateChange\<close>, the checks of the caller and the
    immediate notification \<^verbatim>\<open>UpdateData\<close>. The interface \<open>observer_registry\<close> is a finite map of subscriptions,
    interpreted on the vector of records.
  \<^item> \<open>Service_System\<close>: the service under concurrent requests. \<open>step\<close> has one rule per critical section (the
    write of an update, its notification, a registration, a removal), \<open>run\<close> is a history of them.
  \<^item> \<open>Sections\<close>, \<open>Threads\<close>: the same service, one assignment, one record and one call of an observer at a time. The
    interface \<open>atomic_sections\<close> asks what threads must keep for their critical sections to be atomic (what
    happens under the shared lock changes nothing, what happens outside the locks reads constants); it is interpreted on the
    threads of the service.
  \<^item> \<open>Locking\<close>, \<open>Lock_Programs\<close>: deadlocks and data races. \<open>Locking\<close> interleaves operations given as lists of what
    they do to locks and fields; \<open>lock_protocol\<close> (locks are taken in increasing order) and \<open>race_protocol\<close>
    (fields are accessed under their lock) say when nothing gets stuck and when no accesses conflict. \<open>Lock_Programs\<close> has the
    list of every operation of the service, the client and the JavaScript and Cangjie bindings, and interprets both.
  \<^item> \<open>Dump\<close>: \<^verbatim>\<open>services/src/telephony_state_registry_dump_helper.cpp\<close> and \<^verbatim>\<open>Dump\<close> of the service.
  \<^item> \<open>Parcel\<close>: the message parcel and the payload classes, as the record \<open>parcel_ops\<close> with the laws \<open>parcel_ok\<close>.
  \<^item> \<open>Observer_Ipc\<close>: \<^verbatim>\<open>telephony_observer_proxy.cpp\<close> and \<^verbatim>\<open>telephony_observer.cpp\<close>, the two ends of a callback.
  \<^item> \<open>Stub\<close>: \<^verbatim>\<open>services/src/telephony_state_registry_stub.cpp\<close>, from a request to the service.
  \<^item> \<open>Client\<close>: \<^verbatim>\<open>telephony_observer_client.cpp\<close> and \<^verbatim>\<open>telephony_state_manager.cpp\<close>. The interface
    \<open>remote_registry\<close> is what a binding relies on; it is interpreted on the client in front of the service.
  \<^item> \<open>Listener_Js\<close>, \<open>Dispatch_Js\<close>, \<open>Entry_Js\<close>: the JavaScript binding (\<^verbatim>\<open>frameworks/js/napi\<close>): the listener table
    with its deletion flags, the way from an observer callback to the JavaScript call, and the entry points
    \<^verbatim>\<open>on\<close> and \<^verbatim>\<open>off\<close> with the references they own. The interface \<open>js_remote\<close> extends \<open>remote_registry\<close>.
  \<^item> \<open>Context_Js\<close>: \<^verbatim>\<open>update_contexts.h\<close>, and the JavaScript dispatch again, with contexts and works on an explicit
    store: what is allocated, assigned, cast and deleted, under every order in which the event loops run.
  \<^item> \<open>Module_Js\<close>: the initialisation of the JavaScript module and the finalizer of an environment.
  \<^item> \<open>Serving\<close>: the JavaScript application, its client and the service as one system, in which updates
    and requests of other applications come in between. The interface \<open>serving_registry\<close> says what a registry
    must keep for the listeners to be served; it is interpreted on the client in front of the service.
  \<^item> \<open>Listener_Cj\<close>: the Cangjie binding (\<^verbatim>\<open>frameworks/cj/src\<close>), as a refinement of the JavaScript table, and its
    dispatch, whose callbacks run without the lock. The interface \<open>table_refinement\<close> lifts the agreement of single
    requests to sequences of them.
  \<^item> \<open>Iterators\<close>: the loops that erase from a list while they walk over it, as the code has them, with an
    iterator.
  \<^item> \<open>Listener_Ani\<close>: the ArkTS binding (\<^verbatim>\<open>frameworks/ets/ani/observer\<close>), C++ and Rust.
  \<^item> this theory: the properties.

  \<^bold>\<open>State and effects.\<close> An operation takes the state and returns the result code, the new state and the list
  of effects (calls of observers, published events) in order. Raised errors and null dereferences are
  values. Slot numbers and results are \<^verbatim>\<open>int32_t\<close>, which the code only compares, stores and increments up
  to a slot count, and are integers here; masks are 32 bit words.

  \<^bold>\<open>What is shown.\<close>
  \<^item> C1, the whole way: an update accepted by the service becomes one call of the function of every listener
    it concerns, after any history of the application, the service and other applications.
  \<^item> C2 to C13, the service: each update stores, calls exactly the entitled observers with the right value,
    publishes and returns the right code on every branch; the vector of records is a finite map; which
    permissions are checked before a call in every interleaving; published numbers are protected;
    invariants of all reachable states; queries return the last write; the threads implement the
    model with atomic sections; notifications may be older than the cache.
  \<^item> C33, also the service: the number of \<^verbatim>\<open>OnCCallStateUpdated\<close> reaches callers that may not read the call log.
  \<^item> C14 to C18, the processes: what the proxy marshals the observer reads back; lists are bounded; a request
    to the stub becomes at most one operation, with the caller's own identity, and exactly the one it names; no
    history of requests breaks the registry.
  \<^item> C19 to C21, all threads of the service and of any number of applications: when there is a deadlock, that
    every operation returns otherwise, and which data races there are.
  \<^item> C22: the client after the death of the service.
  \<^item> C23 to C32, JavaScript: the table and the registry stay consistent; no callback after \<^verbatim>\<open>off\<close>; who is called
    with what; the mutex and the scopes; where the memory of the dispatch is safe, where its behaviour is undefined
    and what it leaks; the removal loops return; the references.
  \<^item> C34 to C37, Cangjie, and C38 to C40, ArkTS: the tables refine the JavaScript one; a notification runs
    the callbacks it concerns, with which values; a Cangjie callback may come after its removal.

  \<^bold>\<open>Hypotheses\<close> on code outside the repository: \<open>masks_ok\<close> (each mask is a bit of its own), \<open>codes_ok\<close> (success
  differs from the other codes), \<open>parcel_ok\<close> (a parcel returns what was written, in order, and the type tags
  differ), \<open>ani_masks_ok\<close> (the values written out in Rust are the masks), \<open>ani_codes_ok\<close> (the error conversion
  keeps success apart). Each is shown to hold for concrete parameters (\<open>demo_K\<close>, \<open>list_parcel_ops\<close>, \<open>demo_A\<close>),
  which the witnesses use.

  \<^bold>\<open>Loops\<close> are total: over vectors by recursion on the list, over slots with a measure; the removal
  with an iterator is a partial function that is shown to return on every list; the list readers
  count down the size the request names, cut to the limits of the source (100 on the observer's side, the
  maximum of the payload class on the service's side).

  \<^bold>\<open>Locks.\<close> \<^verbatim>\<open>std::shared_mutex\<close> prefers writers, as in libc++; a synchronous IPC call is part of the caller's
  thread; calls of observers in other processes are asynchronous, while an observer in the service's own process runs in
  the thread of the service, under its lock, and may be any callback (the parameter \<open>C\<close> of C19 to C21). The functions of the extension library and of Node-API are taken to
  use none of the locks; what a JavaScript or Cangjie callback does is any sequence of calls of its binding.

  \<^bold>\<open>Not modelled\<close>: logging; handing the JavaScript module's initialiser to the engine and the service to the ability
  manager; the memory of the C structures beyond null strings; failing allocation in the
  JavaScript dispatch (\<^verbatim>\<open>std::make_unique\<close> does not return null); fairness of the event loops (works run in any
  order, C27 and C28; C1 speaks of the work when it runs); the lock of the ArkTS table, which is Rust and
  owns its data, while what its callbacks run under it is outside the repository; the type declarations of the API; build files and tests.
\<close>

section \<open>Specifications that span components\<close>

text \<open>A request to the registry of subscriptions, on the service and on a finite map.\<close>

definition registry_request where
  "registry_request K = case_sum
     (\<lambda>(k, E, isUpdate, x). register_key K E isUpdate k x) (\<lambda>(k, E). unregister_key K E k)"

definition map_request where
  "map_request K = case_sum
     (\<lambda>(k, E, isUpdate, x) m.
        if may_register K E (fst k) (fst (snd k)) \<and> m k = None then m(k \<mapsto> new_record k x) else m)
     (\<lambda>(k, E) m. if may_unregister K E (fst (snd k)) then m(k := None) else m)"

text \<open>A phone number in the parameters of a published event.\<close>

definition has_number :: "CommonEvent \<Rightarrow> bool" where
  "has_number e \<longleftrightarrow> ''number'' \<in> fst ` set (want_params (ev_want e))"

section \<open>Concrete inputs for the witnesses\<close>

definition demo_q :: registration where
  "demo_q = \<lparr>rq_observer = Some 5, rq_key = (0, 32, 7, 1), rq_bundleName = ''app'', rq_isUpdate = True,
     rq_uid = 100, rq_appIdentifier = ''id''\<rparr>"

definition demo_out :: "(nat, nat, nat) outcome" where
  "demo_out = run_register demo_K demo_E demo_q (construct_service demo_K)"

definition demo_event :: "(nat, nat, nat) event" where
  "demo_event = Registered demo_E demo_q (fst demo_out) (snd (snd demo_out))"

definition demo_sys :: "(nat, nat, nat) sys" where
  "demo_sys = (start_system demo_K)\<lparr>svc := fst (snd demo_out)\<rparr>"

lemma demo_step: "step demo_K (start_system demo_K) demo_event demo_sys"
  unfolding demo_event_def demo_sys_def
  by (rule step.register) (simp add: demo_out_def start_system_def)

lemma demo_run: "run demo_K [demo_event] demo_sys"
  using run.run_step [OF run.run_start demo_step] by simp

definition demo_l :: EventListener where
  "demo_l = \<lparr>l_env = Some 1, l_eventType = Some M_SIM_STATE, l_slotId = 0, l_callbackRef = Some 9,
     l_isDeleting = Some 2\<rparr>"

definition demo_lc :: EventListener where
  "demo_lc = \<lparr>l_env = Some 1, l_eventType = Some M_CALL_STATE, l_slotId = 0, l_callbackRef = Some 9,
     l_isDeleting = Some 2\<rparr>"

definition demo_L :: "(int, int, nat) payload" where
  "demo_L = \<lparr>REG_SERVICE_STATE = (\<lambda>_. 0), REG_STATUS = (\<lambda>_. 0), NATIVE_NETWORK = (\<lambda>_. 0),
     NETWORK_TYPE = (\<lambda>_. 0), RADIO_TECH = (\<lambda>_. 0), RAT_TYPE = (\<lambda>_. 0), CELL_KIND = (\<lambda>_. 0),
     sig_NetworkType = id, sig_SignalLevel = id, sig_SignalIntensity = id,
     net_LongOperatorName = (\<lambda>_. []), net_ShortOperatorName = (\<lambda>_. []), net_PlmnNumeric = (\<lambda>_. []),
     net_IsRoaming = (\<lambda>_. False), net_RegStatus = int, net_IsEmergency = (\<lambda>_. False), net_CfgTech = int,
     net_NrState = int, cell_NetworkType = id, cell_IsCamped = (\<lambda>_. False), cell_TimeStamp = id,
     cell_SignalLevel = id, cell_SignalIntensity = id, cell_field = (\<lambda>_. JInt),
     ToUtf8 = map (\<lambda>w. char_of (unat w))\<rparr>"

lemma demo_digit: "char_of (49 :: nat) = CHR ''1''"
  by code_simp

definition demo_cj :: CjListener where
  "demo_cj = \<lparr>cj_eventType = Some M_SIM_STATE, cj_slotId = 0, cj_funcId = 77, cj_callbackRef = True,
     cj_isDeleting = Some 2\<rparr>"

definition demo_cj2 :: CjListener where
  "demo_cj2 = \<lparr>cj_eventType = Some M_SIM_STATE, cj_slotId = 0, cj_funcId = 78, cj_callbackRef = True,
     cj_isDeleting = Some 3\<rparr>"

definition demo_W :: client_env where
  "demo_W = \<lparr>SystemAbilityManager = True, CheckSystemAbility = Some 4, IsProxyObject = (\<lambda>_. True),
     AddDeathRecipient = (\<lambda>_. True), NewRecipient = 8, IfaceCastNotify = (\<lambda>_. Some 6), AsObject = (\<lambda>_. Some 4)\<rparr>"

fun demo_code :: "notify_code \<Rightarrow> uint32" where
  "demo_code C_CELL_INFO = 1"
| "demo_code C_SIM_STATE = 2"
| "demo_code C_SIGNAL_INFO = 3"
| "demo_code C_NET_WORK_STATE = 4"
| "demo_code C_CALL_STATE = 5"
| "demo_code C_CALL_STATE_FOR_ID = 6"
| "demo_code C_CELLULAR_DATA_STATE = 7"
| "demo_code C_CELLULAR_DATA_FLOW = 8"
| "demo_code C_ADD_OBSERVER = 9"
| "demo_code C_REMOVE_OBSERVER = 10"
| "demo_code C_CFU_INDICATOR = 11"
| "demo_code C_VOICE_MAIL_MSG_INDICATOR = 12"
| "demo_code C_ICC_ACCOUNT_CHANGE = 13"
| "demo_code C_SIM_ACTIVR_STATE = 14"
| "demo_code C_VOIP_CALL_STATE = 15"

definition demo_V :: stub_env where
  "demo_V = \<lparr>NOTIFY_CODE = demo_code, VOIP_CALL_TYPE_MIN = 0, VOIP_CALL_TYPE_MAX = 1,
     VOIP_CALL_STATE_MIN = 0, VOIP_CALL_STATE_MAX = 8, HICOLLIE_ENABLE = True, INVALID_ID = -1,
     XCollieSetTimer = (\<lambda>_. 3), CallingUid = 100, CallingTokenID = 7, CallingPid = 1,
     GetBundleNameByUid = (\<lambda>_. ''app''), HapTokenUserID = (\<lambda>_. 100), GetAppIdentifier = (\<lambda>_ _. ''id''),
     BaseOnRemoteRequest = (\<lambda>_. 305)\<rparr>"

lemma demo_codes_inj: "inj (NOTIFY_CODE demo_V)"
proof (rule injI)
  show "x = y" if "NOTIFY_CODE demo_V x = NOTIFY_CODE demo_V y" for x y
    using that by (cases x; cases y) (simp_all add: demo_V_def)
qed

definition demo_sim :: "(nat, nat, nat) sys" where
  "demo_sim = demo_sys\<lparr>svc := update_write demo_E (USim 0 1 2 0) (svc demo_sys),
     pend := pend demo_sys @ [(demo_E, USim 0 1 2 0)]\<rparr>"

text \<open>A world in which no token may read the call log, and the run of a call state update in it.\<close>

definition demo_E2 :: "(nat, nat, nat) world" where
  "demo_E2 = demo_E\<lparr>VerifyAccessToken := (\<lambda>t p. if p = READ_CALL_LOG then -1 else 0)\<rparr>"

definition demo_ccall_q :: registration where
  "demo_ccall_q = \<lparr>rq_observer = Some 5, rq_key = (0, 2048, 7, 1), rq_bundleName = ''app'', rq_isUpdate = False,
     rq_uid = 100, rq_appIdentifier = ''id''\<rparr>"

definition demo_ccall_out :: "(nat, nat, nat) outcome" where
  "demo_ccall_out = run_register demo_K demo_E2 demo_ccall_q (construct_service demo_K)"

definition demo_ccall_reg :: "(nat, nat, nat) event" where
  "demo_ccall_reg = Registered demo_E2 demo_ccall_q (fst demo_ccall_out) (snd (snd demo_ccall_out))"

definition demo_ccall_pend :: "(nat, nat, nat) sys" where
  "demo_ccall_pend = \<lparr>svc = update_write demo_E2 (UCallSlot 0 4 [49]) (fst (snd demo_ccall_out)),
     pend = [(demo_E2, UCallSlot 0 4 [49])]\<rparr>"

definition demo_ccall_event :: "(nat, nat, nat) event" where
  "demo_ccall_event = (let (res, es) = update_notify demo_K demo_E2 (UCallSlot 0 4 [49]) (svc demo_ccall_pend)
     in Notified demo_E2 (UCallSlot 0 4 [49]) res es)"

definition demo_ccall :: "(nat, nat, nat) sys" where
  "demo_ccall = demo_ccall_pend\<lparr>pend := []\<rparr>"

definition demo_pending :: "(nat, nat, nat) sys" where
  "demo_pending = demo_sys\<lparr>svc := update_write demo_E (UCallSlot 0 3 [49]) (svc demo_sys),
     pend := pend demo_sys @ [(demo_E, UCallSlot 0 3 [49])]\<rparr>"

lemma demo_sim_run: "run demo_K [demo_event, Wrote demo_E (USim 0 1 2 0)] demo_sim"
proof -
  have "slotSize_of (svc demo_sys) = initial_slot_size demo_K"
    using run_sys_ok [OF demo_run] by (simp add: sys_ok_def)
  then have "slot_verified (svc demo_sys) (USim 0 1 2 0)"
    by (simp add: slot_verified_def VerifySlotId_def initial_slot_size_def demo_K_def)
  then have "step demo_K demo_sys (Wrote demo_E (USim 0 1 2 0)) demo_sim"
    unfolding demo_sim_def by (rule step.begin_update) (simp add: update_allowed_def demo_E_def)
  from run.run_step [OF demo_run this] show ?thesis by simp
qed

lemma demo_pending_run: "run demo_K [demo_event, Wrote demo_E (UCallSlot 0 3 [49])] demo_pending"
proof -
  have "slotSize_of (svc demo_sys) = initial_slot_size demo_K"
    using run_sys_ok [OF demo_run] by (simp add: sys_ok_def)
  then have "slot_verified (svc demo_sys) (UCallSlot 0 3 [49])"
    by (simp add: slot_verified_def VerifySlotId_def initial_slot_size_def demo_K_def)
  then have "step demo_K demo_sys (Wrote demo_E (UCallSlot 0 3 [49])) demo_pending"
    unfolding demo_pending_def by (rule step.begin_update) (simp add: update_allowed_def demo_E_def)
  from run.run_step [OF demo_run this] show ?thesis by simp
qed

lemma registered_construct [simp]: "registered (construct_service K) k = None"
  by (simp add: registered_eq)

lemma sim_construct:
  "cardType_of (construct_service K) = Map.empty" "simReason_of (construct_service K) = Map.empty"
  by (simp_all add: construct_service_def blank_service_def Let_def)

lemma demo_checks: "CheckCallerIsSystemApp demo_K demo_E 32" "CheckPermission_mask demo_K demo_E 32"
  by (simp_all add: demo_simps CheckCallerIsSystemApp_def CheckPermission_mask_def)

lemma demo_may_register: "may_register demo_K demo_E 0 32"
  by (simp add: may_register_def demo_checks)
    (simp add: demo_simps IsMultiSimsCapabilitySupported_def slot_in_range_def)

lemma demo_may_register_call: "may_register demo_K demo_E 0 4"
  by (simp add: may_register_def CheckCallerIsSystemApp_def CheckPermission_mask_def IsMultiSimsCapabilitySupported_def
      slot_in_range_def demo_simps)

lemma demo_masks: "OBSERVER_MASK demo_K = demo_mask"
  by (simp add: demo_K_def)

lemma demo_notified: "Notify 5 (OnSimStateUpdated 0 0 0 0) \<in> set (event_effects demo_event)"
  by (simp add: demo_event_def demo_out_def run_register_def demo_q_def RegisterStateChange_eq demo_checks
      demo_may_register UpdateData_calls snapshot_calls_def entitled_calls_def snapshot_of_def
      wants_mask_def demo_masks Let_def sim_construct)

lemma demo_event_eq: "demo_event = Registered demo_E demo_q 0 [Notify 5 (OnSimStateUpdated 0 0 0 0)]"
  by (simp add: demo_event_def demo_out_def run_register_def demo_q_def RegisterStateChange_eq demo_checks
      demo_may_register UpdateData_calls snapshot_calls_def entitled_calls_def snapshot_of_def
      wants_mask_def demo_masks Let_def sim_construct) (simp add: demo_K_def)

lemma demo_ccall_may: "may_register demo_K demo_E2 0 2048"
  by (simp add: may_register_def CheckCallerIsSystemApp_def CheckPermission_mask_def IsMultiSimsCapabilitySupported_def
      slot_in_range_def demo_E2_def demo_simps)

lemma demo_ccall_record:
  "stateRecords_of (fst (snd demo_ccall_out)) = [new_record (0, 2048, 7, 1) (Some 5, ''app'', 100, ''id'')]"
  using records_run_register [of demo_K demo_E2 demo_ccall_q "construct_service demo_K" "fst demo_ccall_out"
      "fst (snd demo_ccall_out)" "snd (snd demo_ccall_out)"]
  by (simp add: demo_ccall_may demo_ccall_out_def demo_ccall_q_def)

lemma demo_ccall_run: "run demo_K [demo_ccall_reg, Wrote demo_E2 (UCallSlot 0 4 [49])] demo_ccall_pend"
proof -
  let ?x = "(start_system demo_K)\<lparr>svc := fst (snd demo_ccall_out)\<rparr>"
  have "step demo_K (start_system demo_K) demo_ccall_reg ?x"
    unfolding demo_ccall_reg_def by (rule step.register) (simp add: demo_ccall_out_def start_system_def)
  from run.run_step [OF run.run_start this] have r: "run demo_K [demo_ccall_reg] ?x" by simp
  have "slotSize_of (svc ?x) = initial_slot_size demo_K" using run_sys_ok [OF r] by (simp add: sys_ok_def)
  then have "slot_verified (svc ?x) (UCallSlot 0 4 [49])"
    by (simp add: slot_verified_def VerifySlotId_def initial_slot_size_def demo_K_def)
  from run.run_step [OF r step.begin_update [OF this, of demo_E2]] show ?thesis
    by (simp add: update_allowed_def demo_E2_def demo_E_def demo_ccall_pend_def start_system_def)
qed

lemma demo_ccall_step: "step demo_K demo_ccall_pend demo_ccall_event demo_ccall"
  using step.finish_update [of demo_ccall_pend "[]" demo_E2 "UCallSlot 0 4 [49]" "[]" demo_K]
  by (simp add: demo_ccall_event_def demo_ccall_def demo_ccall_pend_def split: prod.split)

lemma demo_ccall_notified: "Notify 5 (OnCCallStateUpdated 0 4 [49]) \<in> set (event_effects demo_ccall_event)"
  by (simp add: demo_ccall_event_def update_notify_eq Let_def deliveries_iff demo_ccall_pend_def demo_ccall_record
      want_call_def want_if_def wants_mask_def write_defs CanManageCallForDevices_def)
    (simp add: demo_E2_def demo_simps)

lemma demo_record: "stateRecords_of (svc demo_sys) = [new_record (0, 32, 7, 1) (Some 5, ''app'', 100, ''id'')]"
  using records_run_register [of demo_K demo_E demo_q "construct_service demo_K" "fst demo_out"
      "fst (snd demo_out)" "snd (snd demo_out)"]
  by (simp add: demo_may_register demo_sys_def demo_out_def demo_q_def)

lemma demo_can_read: "IsCanReadCallHistory demo_K demo_E r \<longleftrightarrow> tokenId_of r = 7"
  by (simp add: IsCanReadCallHistory_def demo_simps)

lemma demo_want_call:
  assumes "slotId_of r = 0" and "mask_of r = 4" and "tokenId_of r = 7"
  shows "update_want demo_K demo_E (update_write demo_E (UCallSlot 0 4 n) s) (UCallSlot 0 4 n) r =
    Some (OnCallStateUpdated 0 4 n)"
  using assms by (simp add: want_call_def wants_mask_def demo_masks demo_can_read UpdateCallStateForSlotId_write_def)

definition demo_D :: dump_env where
  "demo_D = \<lparr>HasSimCard = (\<lambda>_. False), SimStateName = (\<lambda>_. []), CardTypeName = (\<lambda>_. []), LockReasonName = (\<lambda>_. []),
     CallStateName = (\<lambda>_. []), CellularDataConnectionStateName = (\<lambda>_. []), CellularDataFlowName = (\<lambda>_. []),
     CellularDataConnectionNetworkTypeName = (\<lambda>_. [])\<rparr>"

definition demo_service :: "(int, int, nat) service" where
  "demo_service = construct_service demo_K"

definition demo_rec :: TelephonyStateRegistryRecord where
  "demo_rec = new_record (0, 32, 7, 1) (Some 5, ''app'', 100, ''id'')"

text \<open>A process with one listener, after one notification, and after the work for it has run.\<close>

definition demo_store :: "(int, int, nat) store" where
  "demo_store = snd (the (ProcessEvent_heap strict_napi (NapiTelephonyObserver (OnSimStateUpdated 0 1 2 3))
     (new_handler\<lparr>listenerList_of := [demo_l]\<rparr>) new_store))"

lemma demo_process:
  "process_run demo_K strict_napi demo_L (\<lambda>ob k m b x. (0, x)) (\<lambda>k m x. (0, x)) () []
     (new_handler\<lparr>listenerList_of := [demo_l]\<rparr>, (), demo_store, [0])"
proof -
  have table: "snd (js_do demo_K strict_napi (\<lambda>ob k m b x. (0, x)) (\<lambda>k m x. (0, x)) (On 5 demo_l) (new_handler, ())) =
      (new_handler\<lparr>listenerList_of := [demo_l]\<rparr>, ())"
    by (simp add: RegisterEventListener_def CheckEventListenerRegister_def new_handler_def demo_K_def)
  obtain ws and s' :: "(int, int, nat) store" where
    ws: "ProcessEvent_heap strict_napi (NapiTelephonyObserver (OnSimStateUpdated 0 1 2 3)) (new_handler\<lparr>listenerList_of := [demo_l]\<rparr>) new_store = Some (ws, s')"
    using process_event_ok [OF store_ok_new] by blast
  then have "ws = [0]" "s' = demo_store"
    by (auto simp: demo_store_def ProcessEvent_heap_def alloc_object_def alloc_work_def new_store_def Let_def
        strict_napi_def InitLoop_def IsNeedHandleCallbackUpdate_def demo_l_def new_handler_def split: option.splits)
  moreover have "process_run demo_K strict_napi demo_L (\<lambda>ob k m b x. (0, x)) (\<lambda>k m x. (0, x)) () []
      (new_handler\<lparr>listenerList_of := [demo_l]\<rparr>, (), new_store, [])"
    using process_run.request [OF process_run.start, of demo_K strict_napi demo_L "\<lambda>ob k m b x. (0, x)"
        "\<lambda>k m x. (0, x)" "()" "On 5 demo_l"] by (simp add: table del: js_do.simps)
  ultimately show ?thesis using process_run.notify ws by fastforce
qed



lemma demo_process_done:
  "process_run demo_K strict_napi demo_L (\<lambda>ob k m b x. (0, x)) (\<lambda>k m x. (0, x)) ()
     [fst (the (WorkUpdated_heap strict_napi demo_L (new_handler\<lparr>listenerList_of := [demo_l]\<rparr>) 0 demo_store))]
     (new_handler\<lparr>listenerList_of := [demo_l]\<rparr>, (),
      snd (the (WorkUpdated_heap strict_napi demo_L (new_handler\<lparr>listenerList_of := [demo_l]\<rparr>) 0 demo_store)), [])"
proof -
  obtain p where ok: "store_ok demo_store [0] p 0" using process_run_value [OF demo_process] by auto
  obtain es s' where "WorkUpdated_heap strict_napi demo_L (new_handler\<lparr>listenerList_of := [demo_l]\<rparr>) 0 demo_store =
      Some (es, s')"
    using store_ok_run [OF ok, of 0 strict_napi demo_L "new_handler\<lparr>listenerList_of := [demo_l]\<rparr>"] by auto
  with process_run.run_work [OF demo_process, of 0] show ?thesis by simp
qed

section \<open>Updates and notification\<close>

text \<open>
  C2: every one of the thirteen update operations of the service does exactly this: with a slot
  out of range or without the permission it returns the error and changes nothing; otherwise it
  stores the value in the cache, calls, in the order of registration, the observer of every record
  that is entitled to this update with this value and no other observer, publishes the events of
  the update after the calls, and returns success exactly when some observer was called.
\<close>

theorem update_exact:
  "run_update K E u s =
     (if \<not> slot_verified s u then (ERR K TELEPHONY_STATE_REGISTRY_SLODID_ERROR, s, [])
      else if \<not> update_allowed E u then (ERR K TELEPHONY_STATE_REGISTRY_PERMISSION_DENIED, s, [])
      else let s' = update_write E u s; calls = deliveries (update_want K E s' u) (stateRecords_of s)
           in (if calls = [] then ERR K TELEPHONY_STATE_REGISTRY_DATA_NOT_EXIST else ERR K TELEPHONY_SUCCESS,
               s', calls @ update_events E u))"
  by (rule run_update_eq)

text \<open>
  C3: the registry of subscriptions refines a finite map. Over any history of registrations and
  removals, each with the caller and the permissions of its time, looking a subscription up in
  the vector of records is the same as looking it up in the map: an accepted registration of a
  new key (slot, mask, token, process) adds its record, a repeated one keeps the first, an
  accepted removal deletes it, and everything else changes nothing.
\<close>

theorem registry_refines_map:
  assumes "registry_ok K s"
  shows "registered (fold (registry_request K) ops s) = fold (map_request K) ops (registered s) \<and>
    registry_ok K (fold (registry_request K) ops s)"
proof -
  have add: "(case_sum (\<lambda>(k, x). case x of (E, isUpdate, x) \<Rightarrow> register_key K E isUpdate k x)
      (\<lambda>(k, E). unregister_key K E k)) = registry_request K"
    by (simp add: registry_request_def)
  have map: "(case_sum
      (\<lambda>(k, x) m. if (case x of (E, isUpdate, x) \<Rightarrow> may_register K E (fst k) (fst (snd k))) \<and> m k = None
         then m(k \<mapsto> (case x of (E, isUpdate, x) \<Rightarrow> new_record k x)) else m)
      (\<lambda>(k, E) m. if may_unregister K E (fst (snd k)) then m(k := None) else m)) = map_request K"
    by (auto simp: map_request_def fun_eq_iff split: sum.split)
  show ?thesis using reg.lookup_history [OF assms, of ops] unfolding add map by blast
qed

theorem registry_refines_map_witness:
  "registered (registry_request demo_K (Inl ((0, 32, 7, 1), demo_E :: (nat, nat, nat) world, False, (Some 5, ''app'', 100, ''id'')))
     (construct_service demo_K)) (0, 32, 7, 1) \<noteq> None"
  using registry_refines_map [OF construct_registry_ok [THEN conjunct1],
      of demo_K "[Inl ((0, 32, 7, 1), demo_E :: (nat, nat, nat) world, False, (Some 5, ''app'', 100, ''id''))]"]
  by (simp add: demo_may_register map_request_def)

text \<open>
  C4: what the service checks before it calls. Whenever any critical section of any interleaving calls an
  observer, the registry holds a record of that observer which asked for this kind of state and
  this slot, and which an earlier registration with the permissions and the system application check
  of its mask put there. At the time of the call, the token of the record has \<^verbatim>\<open>READ_CALL_LOG\<close> when an
  \<^verbatim>\<open>OnCallStateUpdated\<close> carries a number, and \<^verbatim>\<open>MANAGE_CALL_FOR_DEVICES\<close> when the call is an
  \<^verbatim>\<open>OnCCallStateUpdated\<close> or an \<^verbatim>\<open>OnVoIPStateUpdated\<close>. The number of an \<^verbatim>\<open>OnCCallStateUpdated\<close> does not take
  \<^verbatim>\<open>READ_CALL_LOG\<close>, which \<^verbatim>\<open>docs/agents/boundaries.md\<close> (line 153) asks of every callback with a number (C33).
\<close>

theorem calls_are_entitled:
  assumes "run K tr x" and "step K x ev y" and "Notify ob c \<in> set (event_effects ev)"
  shows "\<exists>r \<in> set (stateRecords_of (svc y)). telephonyObserver_of r = Some ob \<and>
    wants_mask K (kind_of_call c) r \<and> slot_matches r c \<and> granted K (tr @ [ev]) r \<and>
    (let may = \<lambda>p. VerifyAccessToken (event_world ev) (tokenId_of r) p \<noteq> PERMISSION_DENIED K
     in case c of
          OnCallStateUpdated k st number \<Rightarrow> number = Str8ToStr16 (event_world ev) '''' \<or> may READ_CALL_LOG
        | OnCCallStateUpdated k st number \<Rightarrow> may MANAGE_CALL_FOR_DEVICES
        | OnVoIPStateUpdated info \<Rightarrow> may MANAGE_CALL_FOR_DEVICES
        | _ \<Rightarrow> True)"
proof -
  obtain r where r: "r \<in> set (stateRecords_of (svc y))" "telephonyObserver_of r = Some ob"
      "entitled K (event_world ev) r c"
    using step_entitled [OF assms(2,3)] by blast
  moreover have "granted K (tr @ [ev]) r"
    using run_granted [OF run.run_step [OF assms(1,2)]] r(1) by blast
  ultimately show ?thesis
    by (cases c) (auto simp: entitled_def IsCanReadCallHistory_def CanManageCallForDevices_def split: if_splits)
qed

theorem calls_are_entitled_witness:
  "\<exists>r \<in> set (stateRecords_of (svc demo_ccall)). telephonyObserver_of r = Some 5 \<and>
    granted demo_K ([demo_ccall_reg, Wrote demo_E2 (UCallSlot 0 4 [49])] @ [demo_ccall_event]) r \<and>
    VerifyAccessToken (event_world demo_ccall_event) (tokenId_of r) MANAGE_CALL_FOR_DEVICES \<noteq> PERMISSION_DENIED demo_K"
  using calls_are_entitled [OF demo_ccall_run demo_ccall_step demo_ccall_notified] by (auto simp: Let_def)

text \<open>
  C33: the phone number of a call reaches an observer whose token may not read the call log: there is a
  reachable run in which no token has \<^verbatim>\<open>READ_CALL_LOG\<close> at the time of the call and the service calls a
  registered observer with \<^verbatim>\<open>OnCCallStateUpdated\<close> and the number of the update. \<^verbatim>\<open>docs/agents/boundaries.md\<close>
  (line 153) says that a number is visible only with that permission.
\<close>

theorem ccall_number_unprotected:
  "\<exists>tr (x :: (nat, nat, nat) sys) ev y r. run demo_K tr x \<and> step demo_K x ev y \<and>
     r \<in> set (stateRecords_of (svc y)) \<and> telephonyObserver_of r = Some 5 \<and>
     \<not> (\<exists>t. VerifyAccessToken (event_world ev) t READ_CALL_LOG \<noteq> PERMISSION_DENIED demo_K) \<and>
     Notify 5 (OnCCallStateUpdated 0 4 [49]) \<in> set (event_effects ev)"
proof -
  let ?r = "new_record (0, 2048, 7, 1) (Some 5, ''app'', 100, ''id'')"
  have "\<not> (\<exists>t. VerifyAccessToken (event_world demo_ccall_event) t READ_CALL_LOG \<noteq> PERMISSION_DENIED demo_K)"
    by (simp add: demo_ccall_event_def demo_E2_def demo_K_def split: prod.split)
  moreover have "?r \<in> set (stateRecords_of (svc demo_ccall))" "telephonyObserver_of ?r = Some 5"
    by (simp_all add: demo_ccall_def demo_ccall_pend_def write_defs demo_ccall_record)
  ultimately show ?thesis using demo_ccall_run demo_ccall_step demo_ccall_notified by blast
qed

text \<open>
  C5: in every state that any interleaving of requests reaches from a new service, there is one
  record per subscription and only for slots in range, the number of slots is the initial one,
  the call state of every slot is cached, and every update waiting for its notification section
  was checked and has its phone number in the cache.
\<close>

theorem reachable_ok:
  assumes "run K tr x"
  shows "registry_ok K (svc x) \<and> slotSize_of (svc x) = initial_slot_size K \<and>
    insert (-1) {0..<initial_slot_size K} \<subseteq> dom (callState_of (svc x)) \<and>
    (\<forall>(E, u) \<in> set (pend x). slot_verified (svc x) u \<and> update_allowed E u \<and> number_cached (svc x) u)"
proof -
  note ok = run_sys_ok [OF assms, unfolded sys_ok_def]
  from ok have slots: "slotSize_of (svc x) = initial_slot_size K" by blast
  from ok show ?thesis unfolding slots by blast
qed

theorem reachable_ok_witness: "registry_ok demo_K (svc demo_sys)"
  using reachable_ok [OF demo_run] by blast

text \<open>
  C6: the SIM cache answers with the last value written, exactly. In every reachable state, the SIM state a
  query returns for a slot is the one of the last update of that slot in the run; for a slot without an
  update it is 0 when a registration of the run has sent the slot's SIM state as an immediate notification, and
  otherwise the error code.
\<close>

theorem sim_query_last_write:
  assumes "run K tr x"
  shows "GetSimState K (svc x) k =
    (case fold sim_history tr Map.empty k of Some v \<Rightarrow> v | None \<Rightarrow> ERR K TELEPHONY_ERROR)"
  by (simp add: query_defs run_sim_history [OF assms] split: option.split)

text \<open>A slot that was notified about answers 0, one that was written the value, the other one the error code.\<close>

theorem sim_query_last_write_witness:
  "GetSimState demo_K (svc demo_sys) 0 = 0 \<and> GetSimState demo_K (svc demo_sys) 1 = -1 \<and>
   GetSimState demo_K (svc demo_sim) 0 = 2"
  using sim_query_last_write [OF demo_run, of 0] sim_query_last_write [OF demo_run, of 1]
    sim_query_last_write [OF demo_sim_run, of 0]
  by (simp add: demo_event_eq) (simp add: demo_K_def)

text \<open>
  C7: the immediate notification of a registration calls the observer of the record once per kind
  of state in its mask, in this order, with the values cached for its slot (0, false, empty or null
  where nothing is cached), except that \<^verbatim>\<open>OnCCallStateUpdated\<close> reports the unknown call state as idle. The
  number is empty in \<^verbatim>\<open>OnCallStateUpdated\<close> when the record's token lacks \<^verbatim>\<open>READ_CALL_LOG\<close>; \<^verbatim>\<open>OnCCallStateUpdated\<close>,
  always with the number, is sent when the token has \<^verbatim>\<open>MANAGE_CALL_FOR_DEVICES\<close>, whether or not it has
  \<^verbatim>\<open>READ_CALL_LOG\<close> (see C33).
\<close>

theorem immediate_notification:
  "snd (UpdateData K E r s) =
     (case telephonyObserver_of r of None \<Rightarrow> [] | Some ob \<Rightarrow>
        let k = slotId_of r; cached = \<lambda>m. (case m k of None \<Rightarrow> 0 | Some v \<Rightarrow> v);
            may = \<lambda>p. VerifyAccessToken E (tokenId_of r) p \<noteq> PERMISSION_DENIED K;
            call = cached (callState_of s); number = (case callIncomingNumber_of s k of None \<Rightarrow> [] | Some n \<Rightarrow> n)
        in map (Notify ob) (concat (map (\<lambda>(m, b, c). if mask_of r AND OBSERVER_MASK K m \<noteq> 0 \<and> b then [c] else [])
          [(M_CALL_STATE, True, OnCallStateUpdated k call (if may READ_CALL_LOG then number else Str8ToStr16 E '''')),
           (M_SIGNAL_STRENGTHS, True, OnSignalInfoUpdated k (case signalInfos_of s k of None \<Rightarrow> [] | Some v \<Rightarrow> v)),
           (M_NETWORK_STATE, True, OnNetworkStateUpdated k (case searchNetworkState_of s k of None \<Rightarrow> None | Some v \<Rightarrow> v)),
           (M_CELL_INFO, True, OnCellInfoUpdated k (case cellInfos_of s k of None \<Rightarrow> [] | Some v \<Rightarrow> v)),
           (M_SIM_STATE, True, OnSimStateUpdated k (cached (cardType_of s)) (cached (simState_of s))
              (cached (simReason_of s))),
           (M_DATA_CONNECTION_STATE, True, OnCellularDataConnectStateUpdated k
              (cached (cellularDataConnectionState_of s)) (cached (cellularDataConnectionNetworkType_of s))),
           (M_DATA_FLOW, True, OnCellularDataFlowUpdated k (cached (cellularDataFlow_of s))),
           (M_CFU_INDICATOR, True, OnCfuIndicatorUpdated k (cfuResult_of s k = Some True)),
           (M_VOICE_MAIL_MSG_INDICATOR, True, OnVoiceMailMsgIndicatorUpdated k (voiceMailMsgResult_of s k = Some True)),
           (M_ICC_ACCOUNT, True, OnIccAccountUpdated),
           (M_CALL_STATE_EX, True, OnCallStateUpdatedEx k call),
           (M_CCALL_STATE, may MANAGE_CALL_FOR_DEVICES, OnCCallStateUpdated k
              (if call = CallStatus_value CALL_STATUS_UNKNOWN then CallStatus_value CALL_STATUS_IDLE else call) number),
           (M_SIM_ACTIVE_STATE, True, OnSimActiveStateUpdated k (simActiveResult_of s k = Some True))])))"
proof -
  have bool: "(case x of None \<Rightarrow> False | Some v \<Rightarrow> v) = (x = Some True)" for x by (auto split: option.split)
  have may: "IsCanReadCallHistory K E r = (VerifyAccessToken E (tokenId_of r) READ_CALL_LOG \<noteq> PERMISSION_DENIED K)"
    "CanManageCallForDevices K E r = (VerifyAccessToken E (tokenId_of r) MANAGE_CALL_FOR_DEVICES \<noteq> PERMISSION_DENIED K)"
    by (simp_all add: IsCanReadCallHistory_def CanManageCallForDevices_def)
  show ?thesis
    by (simp only: UpdateData_calls snapshot_calls_def entitled_calls_def snapshot_of_def wants_mask_def
      may Let_def snapshot.simps bool)
qed

text \<open>
  C8: what a registration returns and does on every branch. Without the system application check
  or the permissions of the mask it fails; with a slot this caller may not observe it reports
  success and registers nothing; otherwise it reports success, appends a record unless the
  subscription exists, and notifies the record that is then registered when asked to.
\<close>

theorem register_outcome:
  "RegisterStateChange K E ob slotId msk bundleName isUpdate pid uid tokenId app s =
     (if \<not> CheckCallerIsSystemApp K E msk then (ERR K TELEPHONY_ERR_ILLEGAL_USE_OF_SYSTEM_API, s, [])
      else if \<not> CheckPermission_mask K E msk
      then (ERR K TELEPHONY_STATE_REGISTRY_PERMISSION_DENIED, s, [])
      else if \<not> may_register K E slotId msk then (ERR K TELEPHONY_SUCCESS, s, [])
      else let k = (slotId, msk, tokenId, pid);
               r = new_record k (ob, bundleName, uid, app);
               s1 = (if registered s k = None then s\<lparr>stateRecords_of := stateRecords_of s @ [r]\<rparr> else s);
               r1 = (case registered s k of None \<Rightarrow> r | Some r0 \<Rightarrow> r0)
           in (ERR K TELEPHONY_SUCCESS, if isUpdate then UpdateData K E r1 s1 else (s1, [])))"
  by (rule RegisterStateChange_eq)

text \<open>
  C9: a removal by a caller with the permissions deletes exactly the record of its subscription,
  keeps the order of the others, and reports whether there was one; without the permissions it
  changes nothing.
\<close>

theorem unregister_outcome:
  assumes "registry_ok K s"
  shows "UnregisterStateChange K E slotId msk tokenId pid s =
     (if \<not> CheckCallerIsSystemApp K E msk then (ERR K TELEPHONY_ERR_ILLEGAL_USE_OF_SYSTEM_API, s, [])
      else if \<not> CheckPermission_mask K E msk
      then (ERR K TELEPHONY_STATE_REGISTRY_PERMISSION_DENIED, s, [])
      else let k = (slotId, msk, tokenId, pid)
           in (if registered s k = None then ERR K TELEPHONY_STATE_UNREGISTRY_DATA_NOT_EXIST
               else ERR K TELEPHONY_SUCCESS,
               s\<lparr>stateRecords_of := filter (\<lambda>r. key_of r \<noteq> k) (stateRecords_of s)\<rparr>, []))"
  by (rule UnregisterStateChange_eq [OF assms])

theorem unregister_outcome_witness:
  "fst (UnregisterStateChange demo_K demo_E 0 32 7 1 (construct_service demo_K)) =
     ERR demo_K TELEPHONY_STATE_UNREGISTRY_DATA_NOT_EXIST"
  by (simp add: unregister_outcome [OF construct_registry_ok [THEN conjunct1]] demo_checks Let_def)

text \<open>
  C10: a phone number is published only in an event whose receivers need both the telephony state
  and the call log permission, by any update.
\<close>

theorem published_number_protected:
  assumes "Publish e \<in> set (snd (snd (run_update K E u s)))" and "has_number e"
  shows "ev_permissions e = [GET_TELEPHONY_STATE, READ_CALL_LOG]"
proof -
  from assms(1) have "Publish e \<in> set (update_events E u)"
    by (auto simp: run_update_eq deliveries_no_publish Let_def split: if_splits)
  with assms(2) show ?thesis
    by (cases u) (auto simp: event_defs has_number_def split: if_splits)
qed

theorem published_number_protected_witness:
  "ev_permissions (case SendCallStateChangedAsUserMultiplePermission demo_E (-1) 3 [49] ! 0 of
     Publish e \<Rightarrow> e) = [GET_TELEPHONY_STATE, READ_CALL_LOG]"
  by (rule published_number_protected [of _ demo_K demo_E "UCall 3 [49]" "construct_service demo_K"])
    (simp_all add: run_update_eq slot_verified_def update_allowed_def has_number_def demo_E_def Let_def
      SendCallStateChangedAsUserMultiplePermission_def)

text \<open>
  C11: the locks make the critical sections atomic. The threads of the service assign one field, visit
  one record and call one observer at a time, in any interleaving the shared lock permits. The
  events this produces (writes, notifications with the calls they made, registrations, removals, refusals) are
  exactly those of the histories in which each section is one step, and whenever no thread is inside an
  exclusive section the state is the one that history reaches. What a thread has returned and called is the
  event of its operation in that history. Every property of \<open>run\<close> is so a property
  of the threads. This needs that the notification of a call update, which reads the number with an operator that
  inserts missing keys, changes nothing under the shared lock.
\<close>

theorem sections_atomic:
  "(fine_run (service_threads K) (construct_service K) tr (ts, s) \<longrightarrow>
      (\<exists>x. run K tr x \<and> ((\<forall>t \<in> set ts. phase_holds (snd t) \<noteq> Some Unique) \<longrightarrow> svc x = s)) \<and>
      (\<forall>t \<in> set ts. has_returned t \<longrightarrow> result_events t \<inter> set tr \<noteq> {})) \<and>
   (run K tr y \<longrightarrow>
      (\<exists>ts. fine_run (service_threads K) (construct_service K) tr (ts, svc y) \<and>
         (\<forall>t \<in> set ts. phase_holds (snd t) = None) \<and> mset (pend y) = awaiting ts))"
  using fine_run_runs runs_fine_run threads_return by blast

theorem sections_atomic_witness:
  "\<exists>ts. fine_run (service_threads demo_K) (construct_service demo_K) [demo_event, Wrote demo_E (UCallSlot 0 3 [49])]
     (ts, svc demo_pending)"
  using sections_atomic [of demo_K "[demo_event, Wrote demo_E (UCallSlot 0 3 [49])]" "[]" "svc demo_pending" demo_pending]
    demo_pending_run by blast

text \<open>
  C12: the cache and the notifications are separate critical sections, so notifications can arrive
  out of date: there is a run in which an observer is called with a SIM state although a later
  SIM state is already cached.
\<close>

theorem stale_notification:
  "\<exists>tr (x :: (nat, nat, nat) sys) ev y. run demo_K tr x \<and> step demo_K x ev y \<and>
     Notify 5 (OnSimStateUpdated 0 1 2 0) \<in> set (event_effects ev) \<and> GetSimState demo_K (svc y) 0 = 3"
proof -
  let ?u = "USim 0 1 2 0" and ?v = "USim 0 1 3 0"
  let ?x1 = "demo_sys\<lparr>svc := update_write demo_E ?u (svc demo_sys), pend := pend demo_sys @ [(demo_E, ?u)]\<rparr>"
  let ?x2 = "?x1\<lparr>svc := update_write demo_E ?v (svc ?x1), pend := pend ?x1 @ [(demo_E, ?v)]\<rparr>"
  let ?n = "update_notify demo_K demo_E ?u (svc ?x2)"
  have slots: "slotSize_of (svc demo_sys) = initial_slot_size demo_K"
    using run_sys_ok [OF demo_run] by (simp add: sys_ok_def)
  have ok: "slot_verified s ?u" "slot_verified s ?v" if "slotSize_of s = initial_slot_size demo_K"
    for s :: "(nat, nat, nat) service"
    using that by (simp_all add: slot_verified_def VerifySlotId_def initial_slot_size_def demo_K_def)
  have perm: "update_allowed demo_E (?u :: (nat, nat, nat) update)"
    "update_allowed demo_E (?v :: (nat, nat, nat) update)"
    by (simp_all add: update_allowed_def demo_E_def)
  have r1: "run demo_K [demo_event, Wrote demo_E ?u] ?x1"
    using run.run_step [OF demo_run step.begin_update [OF ok(1) [OF slots] perm(1)]] by simp
  have r2: "run demo_K [demo_event, Wrote demo_E ?u, Wrote demo_E ?v] ?x2"
    using run.run_step [OF r1 step.begin_update [OF ok(2) perm(2)]] slots by (simp add: write_defs)
  have st: "step demo_K ?x2 (Notified demo_E ?u (fst ?n) (snd ?n)) (?x2\<lparr>pend := [(demo_E, ?v)]\<rparr>)"
    using step.finish_update [of ?x2 "[]" demo_E ?u "[(demo_E, ?v)]" demo_K "fst ?n" "snd ?n"]
    by (simp add: demo_sys_def start_system_def)
  have called: "Notify 5 (OnSimStateUpdated 0 1 2 0) \<in> set (event_effects (Notified demo_E ?u (fst ?n) (snd ?n)))"
    by (simp add: update_notify_eq Let_def deliveries_iff demo_record want_slot_def want_if_def
        wants_mask_def write_defs) (simp add: demo_simps)
  have cached: "GetSimState demo_K (svc (?x2\<lparr>pend := [(demo_E, ?v)]\<rparr>)) 0 = 3"
    by (simp add: query_defs write_defs)
  show ?thesis by (intro exI conjI) (rule r2, rule st, rule called, rule cached)
qed

text \<open>
  C13: a new service is stopped, has no records, and answers the unknown call state for every slot
  and for the slot of the calls without one; starting it sets it running, and the task it starts
  publishes one disconnected call state per slot, in order, when the event service is there.
\<close>

theorem start_up:
  "state_of (construct_service K) = STATE_STOPPED \<and> stateRecords_of (construct_service K) = [] \<and>
   (\<forall>k. GetCallState K (construct_service K) k =
      (if k = -1 \<or> (0 \<le> k \<and> k < initial_slot_size K) \<or> (k = 0 \<and> initial_slot_size K = 0)
       then CallStatus_value CALL_STATUS_UNKNOWN else ERR K TELEPHONY_ERROR)) \<and>
   state_of (fst (OnStart K t0 t1 lib e (construct_service K))) = STATE_RUNNING \<and>
   snd (snd (OnStart K t0 t1 lib e (construct_service K))) = Some (initial_slot_size K) \<and>
   state_registry_task alive sam ces n =
     (if alive \<and> sam \<and> ces
      then concat (map (\<lambda>k. SendCallStateChanged k (CallStatus_value CALL_STATUS_DISCONNECTED)) [0..n - 1])
      else [])"
  by (simp add: query_defs callState_construct OnStart_def state_registry_task_def
      IsCommonEventServiceAbilityExist_def send_disconnected_eq Let_def)

text \<open>
  After any sequence of cache writes, the queries for the card type, the lock reason, the call
  state, the data connection state and type and the data flow return the value of the last write
  of the slot, and what they returned before for a slot without one.
\<close>

lemma queries_after_writes:
  "GetCardType K (fold (\<lambda>(k, t, st, rs). UpdateSimState_write k t st rs) ws s) j =
     (case map_of (rev ws) j of None \<Rightarrow> GetCardType K s j | Some (t, st, rs) \<Rightarrow> t) \<and>
   GetLockReason K (fold (\<lambda>(k, t, st, rs). UpdateSimState_write k t st rs) ws s) j =
     (case map_of (rev ws) j of None \<Rightarrow> GetLockReason K s j | Some (t, st, rs) \<Rightarrow> rs) \<and>
   GetCallState K (fold (\<lambda>(k, st, n). UpdateCallStateForSlotId_write k st n) cs s) j =
     (case map_of (rev cs) j of None \<Rightarrow> GetCallState K s j | Some x \<Rightarrow> fst x) \<and>
   GetCellularDataConnectionState K (fold (\<lambda>(k, st, t). UpdateCellularDataConnectState_write k st t) ds s) j =
     (case map_of (rev ds) j of None \<Rightarrow> GetCellularDataConnectionState K s j | Some x \<Rightarrow> fst x) \<and>
   GetCellularDataConnectionNetworkType K
       (fold (\<lambda>(k, st, t). UpdateCellularDataConnectState_write k st t) ds s) j =
     (case map_of (rev ds) j of None \<Rightarrow> GetCellularDataConnectionNetworkType K s j | Some x \<Rightarrow> snd x) \<and>
   GetCellularDataFlow K (fold (\<lambda>(k, v). UpdateCellularDataFlow_write k v) fs s) j =
     (case map_of (rev fs) j of None \<Rightarrow> GetCellularDataFlow K s j | Some v \<Rightarrow> v)"
  by (intro conjI; fact cardTypeC.get_put_fold lockReasonC.get_put_fold callStateC.get_put_fold
      dataStateC.get_put_fold dataTypeC.get_put_fold dataFlowC.get_put_fold)

section \<open>Between the processes\<close>

text \<open>
  C14: round trip of a notification. Whatever the proxy of an observer marshals, the observer's
  stub unmarshals to the same call with the same arguments, for every kind of call whose values
  are 32 bit integers, whose network state is not null, and whose lists have no null element, at most
  the agreed number of elements and only types both sides know.
\<close>

theorem observer_round_trip:
  assumes "parcel_ok P A" and "int32_args c" and "readable P c"
  shows "\<exists>q. proxy_call K P True ret c = Delivered q \<and>
    Observer_OnRemoteRequest K P dflt (req_code q) (req_data q) = (NO_ERROR P, Some c)"
  by (rule observer_round_trip_lemma [OF assms])

theorem observer_round_trip_witness:
  "\<exists>q. proxy_call demo_K list_parcel_ops True 0 (OnCallStateUpdated 0 3 [49]) = Delivered q \<and>
    Observer_OnRemoteRequest demo_K list_parcel_ops 0 (req_code q) (req_data q) =
      (NO_ERROR list_parcel_ops, Some (OnCallStateUpdated 0 3 [49]))"
  by (rule observer_round_trip [OF parcel_ok_demo]) (simp_all add: is_int32_def)

text \<open>
  C15: whatever size a request claims, the observer builds lists of at most 100 elements, none of them
  null.
\<close>

theorem observer_lists_bounded:
  "length (fst (ConvertSignalInfoList P p)) \<le> 100 \<and> None \<notin> set (fst (ConvertSignalInfoList P p)) \<and>
   length (fst (ConvertCellInfoList P p)) \<le> 100 \<and> None \<notin> set (fst (ConvertCellInfoList P p))"
proof -
  have sig: "n \<le> 100 \<Longrightarrow> length (fst (ConvertSignalInfoList_loop P n q [])) \<le> 100" for n q
    using loop_bound_signals [of P n q "[]"] by simp
  have cell: "n \<le> 100 \<Longrightarrow> length (fst (ConvertCellInfoList_loop P n q [])) \<le> 100" for n q
    using loop_bound_cells [of P n q "[]"] by simp
  show ?thesis
    by (simp add: ConvertSignalInfoList_def ConvertCellInfoList_def SIGNAL_NUM_MAX_def CELL_NUM_MAX_def
        case_prod_beta Let_def loop_nonnull_signals loop_nonnull_cells sig cell nat_le_iff)
qed

text \<open>
  C16: the service's stub adds nothing. A request with any code and any contents either changes
  nothing, or is exactly one update, with lists bounded and without null elements, a network state that
  is not null and VoIP enumerations in range (other enumerations are taken as they come), or one
  registration of an existing observer or one removal, in both cases for the token, process, user, bundle
  name and application identifier of the caller and not for what the request names.
\<close>

theorem stub_faithful:
  assumes "codes_ok K"
  shows "serves K E P V s (fst (Stub_OnRemoteRequest K E P V code data s))"
  by (rule stub_serves [OF assms])

theorem stub_faithful_witness:
  "serves demo_K demo_E list_parcel_ops demo_V (construct_service demo_K)
     (fst (Stub_OnRemoteRequest demo_K demo_E list_parcel_ops demo_V 9
        [IToken [2], IInt 0, IInt 32, IBool False, IRemote 5] (construct_service demo_K)))"
  by (rule stub_faithful [OF codes_ok_demo])

text \<open>
  C18: each request does what it says. A request that carries the code of an update and its fields in the order of
  the protocol runs this update with these values, and replies with its result (the signal and cell
  updates reply nothing); VoIP values out of range are refused with an error and no update. A request with a
  remote observer registers it for the slot and mask it names and for the caller; a removal removes the
  caller's subscription.
\<close>

theorem stub_exact:
  assumes "parcel_ok P A" and "inj (NOTIFY_CODE V)"
  shows "(A data = IToken (REGISTRY_DESCRIPTOR P) # update_wire P u \<longrightarrow> sendable P u \<longrightarrow>
      fst (Stub_OnRemoteRequest K E P V (NOTIFY_CODE V (update_code u)) data s) =
        (if voip_in_range V u
         then let (ret, s', es) = run_update K E u s
              in (NO_ERROR P, s', if update_code u \<in> {C_SIGNAL_INFO, C_CELL_INFO} then [] else [ret], es)
         else (ERR K TELEPHONY_ERR_ARGUMENT_INVALID, s, [ERR K TELEPHONY_ERR_ARGUMENT_INVALID], []))) \<and>
    (A data = [IToken (REGISTRY_DESCRIPTOR P), IInt k, IInt m, IBool b, IRemote rem] \<longrightarrow> IfaceCast P rem = Some ob \<longrightarrow>
      fst (Stub_OnRemoteRequest K E P V (NOTIFY_CODE V C_ADD_OBSERVER) data s) =
        (let (ret, s', es) = RegisterStateChange K E (Some ob) k (to_uint32 m) (GetBundleNameByUid V (CallingUid V)) b
               (CallingPid V) (CallingUid V) (sint (CallingTokenID V))
               (GetAppIdentifier V (GetBundleNameByUid V (CallingUid V)) (HapTokenUserID V (sint (CallingTokenID V)))) s
         in (NO_ERROR P, s', [ret], es))) \<and>
    (A data = [IToken (REGISTRY_DESCRIPTOR P), IInt k, IInt m] \<longrightarrow>
      fst (Stub_OnRemoteRequest K E P V (NOTIFY_CODE V C_REMOVE_OBSERVER) data s) =
        (let (ret, s', es) = UnregisterStateChange K E k (to_uint32 m) (sint (CallingTokenID V)) (CallingPid V) s
         in (NO_ERROR P, s', [ret], es)))"
  using stub_update [OF assms] stub_register [OF assms] stub_unregister [OF assms]
  by (simp add: case_prod_beta Let_def run_register_def run_unregister_def caller_registration_def caller_key_def)

text \<open>An observer is registered, and a SIM update calls it.\<close>

theorem stub_exact_witness:
  "let s = fst (snd (fst (Stub_OnRemoteRequest demo_K demo_E list_parcel_ops demo_V 9
        [IToken [2], IInt 0, IInt 32, IBool False, IRemote 5] (construct_service demo_K))))
   in registered s (0, 32, 7, 1) \<noteq> None \<and>
      fst (Stub_OnRemoteRequest demo_K demo_E list_parcel_ops demo_V 2 [IToken [2], IInt 0, IInt 1, IInt 2, IInt 3] s) =
        (let (ret, s', es) = run_update demo_K demo_E (USim 0 1 2 3) s in (0, s', [ret], es))"
proof -
  let ?s = "construct_service demo_K :: (int, int, nat) service"
  have inj: "inj (NOTIFY_CODE demo_V)" by (rule demo_codes_inj)
  have fields: "REGISTRY_DESCRIPTOR list_parcel_ops = [2]" "NO_ERROR list_parcel_ops = 0" "IfaceCast list_parcel_ops = Some"
    by (simp_all add: list_parcel_ops_def)
  have code: "NOTIFY_CODE demo_V = demo_code" by (simp add: demo_V_def)
  note exact = stub_exact [OF parcel_ok_demo inj]
  have reg: "fst (snd (fst (Stub_OnRemoteRequest demo_K demo_E list_parcel_ops demo_V 9
      [IToken [2], IInt 0, IInt 32, IBool False, IRemote 5] ?s))) =
      register_key demo_K demo_E False (0, 32, 7, 1) (Some 5, ''app'', 100, ''id'') ?s"
    using exact [of "[IToken [2], IInt 0, IInt 32, IBool False, IRemote 5]" _ demo_K demo_E ?s 0 32 False 5 5]
    by (simp add: fields code case_prod_beta register_key_def to_uint32_def) (simp add: demo_V_def)
  have sim: "fst (Stub_OnRemoteRequest demo_K demo_E list_parcel_ops demo_V 2 [IToken [2], IInt 0, IInt 1, IInt 2, IInt 3] s) =
      (let (ret, s', es) = run_update demo_K demo_E (USim 0 1 2 3) s in (0, s', [ret], es))" for s :: "(int, int, nat) service"
    using exact [of "[IToken [2], IInt 0, IInt 1, IInt 2, IInt 3]" "USim 0 1 2 3" demo_K demo_E s]
    by (simp add: fields code)
  show ?thesis
    unfolding Let_def reg
    using sim by (simp add: registered_register construct_registry_ok demo_may_register case_prod_beta Let_def)
qed

text \<open>
  C17: no history of requests, from any callers, breaks the registry: starting from a new service,
  there is always one record per subscription, only for slots in range, and every record has an
  observer.
\<close>

theorem requests_keep_registry:
  assumes "codes_ok K"
  shows "registry_ok K (serve_all K P calls (construct_service K)) \<and>
    observers_ok (serve_all K P calls (construct_service K))"
  by (rule serve_all_keeps [OF assms construct_registry_ok])

theorem requests_keep_registry_witness:
  "observers_ok (serve_all demo_K list_parcel_ops
     [(demo_E, demo_V, 9, [IToken [2], IInt 0, IInt 32, IBool False, IRemote 5])] (construct_service demo_K))"
  using requests_keep_registry [OF codes_ok_demo] by blast

text \<open>
  A request with another interface token, or with an unknown code, reaches no handler: the
  service is unchanged, nothing is written to the reply and no timer is set.
\<close>

lemma stub_refuses_foreign:
  fixes P :: "('p, 'sig, 'cell, 'net) parcel_ops"
  assumes "fst (ReadInterfaceToken P data) \<noteq> REGISTRY_DESCRIPTOR P \<or> code \<notin> range (NOTIFY_CODE V)"
  shows "\<exists>err. Stub_OnRemoteRequest K E P V code data s = ((err, s, [], []), []) \<and>
    err \<in> {ERR K TELEPHONY_ERR_DESCRIPTOR_MISMATCH, BaseOnRemoteRequest V code}"
proof -
  have "(stub_memberFuncMap V code :: ('p, 'sig, 'cell, 'net) Stub.handler option) = None"
    if "code \<notin> range (NOTIFY_CODE V)"
    using that by (auto simp: stub_memberFuncMap_def)
  with assms show ?thesis
    by (cases "fst (ReadInterfaceToken P data) = REGISTRY_DESCRIPTOR P")
      (simp_all add: Stub_OnRemoteRequest_def case_prod_beta Let_def)
qed

section \<open>Deadlocks and races\<close>

text \<open>
  C19: the deadlocks. Take any number of threads of the service and of applications that run any operations of
  the service, the client and the JavaScript and Cangjie bindings, callbacks included, and dumps; and let \<open>C\<close> be
  what observers that live in the service's own process do when they are called, which happens in the calling thread
  and under the service's lock. They can reach a state in which nobody can go on exactly in two cases: the dump is given a
  descriptor and one of the slots it visits has a card (then it locks again what it holds, and waits for a
  writer that waits for it); or some callback in the service's process takes the service's lock (then the thread waits for
  itself). \<^verbatim>\<open>docs/agents/boundaries.md\<close> names both.
\<close>

theorem deadlocks:
  assumes "masks_ok K" and "C \<subseteq> callbacks K L"
  shows "(\<exists>ts. lock_run (operations K L C \<union> {Dump_program K D fd}) ts \<and> deadlock ts) \<longleftrightarrow>
     (0 \<le> fd \<and> (\<exists>i. 0 \<le> i \<and> i < SIM_SLOT_COUNT K \<and> HasSimCard D (if i \<ge> SIM_SLOT_2 K then i + 1 else i))) \<or>
     (\<exists>q \<in> C. \<exists>m. Acquire Registry m \<in> set q)"
  unfolding all_deadlocks [OF assms] loud_dump_iff reenters_def by (rule refl)

text \<open>A callback that queries the SIM state deadlocks; with remote observers and no dump nothing does.\<close>

theorem deadlocks_witness:
  "(\<exists>ts. lock_run (operations demo_K demo_L {query_program F_simState} \<union> {Dump_program demo_K demo_D (-1)}) ts \<and> deadlock ts) \<and>
   \<not> (\<exists>ts. lock_run (operations demo_K demo_L {} \<union> {Dump_program demo_K demo_D (-1)}) ts \<and> deadlock ts)"
proof -
  have "query_program F_simState @ [] \<in> callbacks demo_K demo_L"
    by (intro cb_query cb_none) (simp add: query_fields_def)
  then have "{query_program F_simState} \<subseteq> callbacks demo_K demo_L" by simp
  from deadlocks [OF masks_ok_demo this, of demo_D "-1"] deadlocks [OF masks_ok_demo, of "{}" demo_L demo_D "-1"]
  show ?thesis by (simp add: query_program_def locked_def)
qed

text \<open>
  C20: every operation returns. In every state such threads reach, with dumps that take the lock once and in-process
  observers whose callbacks do not take the service's lock, some thread can go on until all have returned, and they
  do so within a number of steps that the state bounds. So no request waits forever then, although a binding keeps its mutex
  during the call of the service, and a callback may use the binding that called it.
\<close>

theorem operations_return:
  assumes "C \<subseteq> {q \<in> callbacks K L. \<not> (\<exists>m. Acquire Registry m \<in> set q)}"
    and "lock_run (operations K L C \<union> {Dump_program K D fd | D fd. quiet_dump K D fd}) ts"
    and "(lock_step ^^ n) ts ts'"
  shows "n \<le> lock_work ts \<and> (finished ts' \<or> (\<exists>ts''. lock_step ts' ts''))"
proof -
  have "C \<subseteq> quiet_callbacks K L" using assms(1) by (auto simp: quiet_callbacks_def reenters_def)
  then show ?thesis using assms(2,3) by (rule all_returns)
qed

text \<open>A stop of the service, and an update that calls an observer of its own process which connects a client.\<close>

theorem operations_return_witness:
  "\<exists>ts''. lock_step [new_thread OnStop_program, new_thread (update_program demo_K demo_E demo_service [demo_rec]
     (\<lambda>r. GetProxy_program 0 demo_W new_client) (USim 0 1 2 3))] ts''"
proof -
  let ?cb = "GetProxy_program 0 demo_W new_client"
  let ?up = "update_program demo_K demo_E demo_service [demo_rec] (\<lambda>r. ?cb) (USim 0 1 2 3)"
  have "?cb @ [] \<in> callbacks demo_K demo_L" by (intro cb_client cb_none)
  then have C: "{?cb} \<subseteq> {q \<in> callbacks demo_K demo_L. \<not> (\<exists>m. Acquire Registry m \<in> set q)}"
    by (auto simp: GetProxy_program_def locked_def)
  have "OnStop_program \<in> operations demo_K demo_L {?cb}" "?up \<in> operations demo_K demo_L {?cb}"
    by (rule op_stop, rule op_update) simp
  then have "lock_run (operations demo_K demo_L {?cb} \<union> {Dump_program demo_K D fd | D fd. quiet_dump demo_K D fd})
      [new_thread OnStop_program, new_thread ?up]"
    by (intro lock_run_two) blast+
  from operations_return [OF C this, of 0] show ?thesis
    by (auto simp: finished_def new_thread_def OnStop_program_def locked_def)
qed

text \<open>
  C21: the data races. Over all operations, dumps, the public getters and whatever observers in the service's process do
  included, two threads can access a field at the same time, one of them writing, exactly for these: the
  start time, end time and running state of the service, which its getters read without a lock while \<^verbatim>\<open>OnStart\<close> or
  \<^verbatim>\<open>OnStop\<close> writes them (\<^verbatim>\<open>OnStart\<close> writes the start time before it takes the lock); and the deletion flags of
  Cangjie listeners, which the dispatch reads after it has released the mutex under which a removal sets
  them. The caches, the records, the extension wrapper, the proxies of the clients and the tables of
  listeners are never accessed so.
\<close>

theorem data_races:
  assumes "C \<subseteq> callbacks K L"
  shows "(\<exists>ts. lock_run (operations K L C \<union> dumps K) ts \<and> data_race f ts) \<longleftrightarrow>
     f \<in> {F_bindStartTime, F_bindEndTime, F_state} \<or> (\<exists>p i. f = C_isDeleting p i)"
  by (rule all_races [OF assms])

theorem data_races_witness:
  "(\<exists>ts. lock_run (operations demo_K demo_L {query_program F_simState} \<union> dumps demo_K) ts \<and> data_race F_state ts) \<and>
   \<not> (\<exists>ts. lock_run (operations demo_K demo_L {query_program F_simState} \<union> dumps demo_K) ts \<and> data_race F_simState ts)"
proof -
  have "query_program F_simState @ [] \<in> callbacks demo_K demo_L"
    by (intro cb_query cb_none) (simp add: query_fields_def)
  then have "{query_program F_simState} \<subseteq> callbacks demo_K demo_L" by simp
  from data_races [OF this, of F_state] data_races [OF this, of F_simState] show ?thesis by simp
qed

section \<open>The client\<close>

text \<open>
  C22: when the process of the registry dies, the client forgets its proxy, and the next request
  connects as a new client would; the death of another object changes nothing.
\<close>

theorem client_reconnects:
  assumes "proxy_of c = Some p" and "AsObject W p = Some obj"
  shows "fst (GetProxy W' (fst (OnRemoteDied W (Some obj) c))) = fst (GetProxy W' new_client) \<and>
    (\<forall>remote. remote \<noteq> Some obj \<longrightarrow> OnRemoteDied W remote c = (c, []))"
proof -
  have "proxy_of (fst (OnRemoteDied W (Some obj) c)) = None" by (rule died_then_reconnect [OF assms])
  then have "fst (GetProxy W' (fst (OnRemoteDied W (Some obj) c))) = fst (GetProxy W' new_client)"
    by (simp add: GetProxy_def new_client_def Let_def split: option.split)
  moreover have "OnRemoteDied W remote c = (c, [])" if "remote \<noteq> Some obj" for remote
    using that assms by (intro other_died) auto
  ultimately show ?thesis by blast
qed

theorem client_reconnects_witness:
  "fst (GetProxy demo_W (fst (OnRemoteDied demo_W (Some 4) \<lparr>proxy_of = Some 6, deathRecipient_of = None\<rparr>))) =
     fst (GetProxy demo_W new_client)"
  using client_reconnects [of "\<lparr>proxy_of = Some 6, deathRecipient_of = None\<rparr>" 6 demo_W 4 demo_W]
  by (simp add: demo_W_def)

section \<open>Listeners of a JavaScript application\<close>

text \<open>
  C23: the listener table and the registry stay consistent. Over any sequence of \<^verbatim>\<open>on\<close> and \<^verbatim>\<open>off\<close>
  through the client to the service in which every \<^verbatim>\<open>off\<close> reports success, the registry holds a
  subscription of this application only for a slot and a type that some listener of the table has:
  the last listener that leaves takes the subscription with it.
\<close>

theorem js_table_consistent:
  assumes "service_inv K x" and "covered K (service_active V) h x"
    and "good_run K N (AddStateObserver K W (service_reg K E V))
           (RemoveStateObserver K W (service_unreg K E V)) ops (h, x)"
  shows "case js_run K N (AddStateObserver K W (service_reg K E V))
      (RemoveStateObserver K W (service_unreg K E V)) ops (h, x) of
    (h', x') \<Rightarrow> covered K (service_active V) h' x'"
  using js.run_covered [OF assms] by (simp add: case_prod_beta)

theorem js_table_consistent_witness:
  "case js_run demo_K strict_napi (AddStateObserver demo_K demo_W (service_reg demo_K demo_E demo_V))
      (RemoveStateObserver demo_K demo_W (service_unreg demo_K demo_E demo_V)) [On 5 demo_l]
      (new_handler, new_client, construct_service demo_K :: (nat, nat, nat) service) of
    (h', x') \<Rightarrow> covered demo_K (service_active demo_V) h' x'"
  by (rule js_table_consistent)
    (simp_all add: service_inv_def codes_ok_demo construct_registry_ok [THEN conjunct1] covered_def
      service_active_def good_step_def)

text \<open>
  C24: no callback after \<^verbatim>\<open>off\<close>. When \<^verbatim>\<open>off\<close>, with or without a callback, or the end of the environment
  selects a listener of the table, then work that was queued for it before, however late it runs
  and whatever happened in between, releases the mutex and calls no JavaScript.
\<close>

theorem js_silent_after_off:
  assumes "l \<in> set (listenerList_of h)" and "op_select N op l" and "l_isDeleting l = Some f"
  shows "WorkUpdated N L (fst (js_run K N add rem later (snd (js_do K N add rem op (h, x))))) (l, obj) =
    [UnlockMutex]"
  by (rule WorkUpdated_deleting) (simp add: assms(3) js_run_mono [OF js_do_marks [OF assms]])

theorem js_silent_after_off_witness:
  "WorkUpdated strict_napi demo_L (fst (js_run demo_K strict_napi (\<lambda>ob k m b x. (0, x)) (\<lambda>k m x. (0, x)) []
     (snd (js_do demo_K strict_napi (\<lambda>ob k m b x. (0, x)) (\<lambda>k m x. (0, x)) (Off (Some 1) (Some M_SIM_STATE))
        (new_handler\<lparr>listenerList_of := [demo_l]\<rparr>, ()))))) (demo_l, None) = [UnlockMutex]"
  by (rule js_silent_after_off [where f = 2]) (simp_all add: demo_l_def off_select_def)

text \<open>
  C25: an observer call is queued exactly for the listeners that hear it, that is the ones of its
  kind and slot, and for data events the ones of the default slot when the call is about the slot
  in use, in the order of the table and up to the first environment that cannot take it.
\<close>

theorem js_queue:
  "ProcessEvent N (NapiTelephonyObserver c) h =
     map (\<lambda>l. (l, payload_of c)) (takeWhile (\<lambda>l. InitLoop N (l_env l) \<and> QueueWork N l = 0)
       (filter (\<lambda>l. hears N l c) (listenerList_of h)))"
  by (rule ProcessEvent_eq)

text \<open>
  C26: what the work function does for a listener that is not being deleted, for every call. The mutex
  it starts with is released exactly once and is not held while JavaScript runs, every scope that was
  opened is closed, and the listener's function is called once with the documented value of the call
  unless a scope or the reference is missing. The exceptions are calls with a null object inside: none
  calls a function, a null network state leaves the scope open, a null list element is dereferenced.
\<close>

theorem js_work_contract:
  assumes "l_isDeleting l = Some f" and "\<not> deleting h f" and "l_eventType l = Some (kind_of_call c)"
  shows "let es = WorkUpdated N L h (l, payload_of c) in
    case js_image L c of
      Some v \<Rightarrow> holds_lock True es = Some False \<and> open_scopes 0 es = Some 0 \<and>
        calls_of es =
          (if OpenScopeOk N \<and> OpenInnerScopeOk N \<and> l_callbackRef l \<noteq> None
           then (case GetReferenceValue N (l_env l) (l_callbackRef l) of None \<Rightarrow> [] | Some fn \<Rightarrow> [(fn, v)])
           else [])
    | None \<Rightarrow> calls_of es = [] \<and>
        (if \<not> OpenScopeOk N then holds_lock True es = Some False \<and> open_scopes 0 es = Some 0
         else if kind_of_call c = M_NETWORK_STATE
         then holds_lock True es = Some False \<and> open_scopes 0 es = Some 1
         else NullCrash \<in> set es)"
proof (cases "js_image L c")
  case None
  then show ?thesis by (simp add: WorkUpdated_null [OF assms] calls_of_def Let_def)
next
  case (Some v)
  then show ?thesis by (simp add: WorkUpdated_live [OF assms] work_frame_contract calls_of_frame Let_def)
qed

theorem js_work_contract_witness:
  "calls_of (WorkUpdated strict_napi demo_L new_handler (demo_l, payload_of (OnSimStateUpdated 0 1 2 3))) =
     [(9, JObj [(''type'', JInt 1), (''state'', JInt 2), (''reason'', JInt 3)])]"
  using js_work_contract [of demo_l 2 new_handler "OnSimStateUpdated 0 1 2 3" strict_napi demo_L]
  by (simp add: demo_l_def new_handler_def strict_napi_def Let_def)

text \<open>
  C27: the dispatch with contexts and works on the heap implements the dispatch with values. Over any
  interleaving of notifications, of event loops running pending works and of requests of the
  application, the pieces of work do the same things in the same order, with the same table and the
  same number of works pending; and nothing the dispatch with values can do is lost.
\<close>

theorem js_dispatch_refines:
  "(\<exists>s q. process_run K N L add rem x0 tr (h, x, s, q) \<and> length q = n) \<longleftrightarrow>
   (\<exists>p. value_run K N L add rem x0 tr (h, x, p) \<and> length p = n)"
proof -
  have "store_ok s q p k \<Longrightarrow> length q = length p" for s q p k
    by (auto simp: store_ok_def list_all2_lengthD)
  then show ?thesis using process_run_value value_run_process by metis
qed



text \<open>
  C29: the works are leaked. The number of \<^verbatim>\<open>uv_work_t\<close> objects that are allocated is the number of works
  pending and of all works that were ever run: running a work does not delete it. And a context whose
  listener is being deleted is deleted through a pointer to its base structure, which has no virtual
  destructor, unless it is a plain listener.
\<close>

theorem js_work_leak:
  assumes "process_run K N L add rem x0 tr (h, x, s, q)"
  shows "card (dom (works s)) = length q + length tr \<and>
    (\<forall>w a ob. works s w = Some a \<longrightarrow> objects s a = Some ob \<longrightarrow>
       (case l_isDeleting (as_listener ob) of None \<Rightarrow> True | Some f \<Rightarrow> deleting h f) \<longrightarrow>
       (\<exists>s'. WorkUpdated_heap N L h w s = Some ([UnlockMutex], s') \<and>
          sliced s' = sliced s @ (case ob of O_EventListener l \<Rightarrow> [] | _ \<Rightarrow> [a])))"
  using process_run_value [OF assms] work_slices by (auto simp: store_ok_def)

theorem js_work_leak_witness:
  "card (dom (works (snd (the (WorkUpdated_heap strict_napi demo_L (new_handler\<lparr>listenerList_of := [demo_l]\<rparr>) 0
     demo_store))))) = 1"
  using js_work_leak [OF demo_process_done] by simp

text \<open>
  C30: the loops that erase listeners while they walk over the list return, whatever the list, and give
  what the structural loops give: both overloads of the JavaScript table and the one of the Cangjie
  table.
\<close>

theorem removal_terminates:
  "RemoveEventListenerRegister_ref_it N env t ref h = Some (RemoveEventListenerRegister_ref N env t ref h) \<and>
   RemoveEventListenerRegister_it env t h = Some (RemoveEventListenerRegister env t h) \<and>
   RemoveEventListenerRegister_cj_it t funcId g = Some (RemoveEventListenerRegister_cj t funcId g)"
  by (intro conjI) (rule removal_returns)+

text \<open>
  C31: no reference of a callback is lost or left dangling by \<^verbatim>\<open>on\<close>: on a device with a SIM slot, the
  reference made for the call ends up in a new listener of the table, when the registration
  succeeds and nothing is thrown, or it is deleted and the table is as before.
\<close>

theorem js_on_reference:
  assumes "codes_ok K" and "SIM_SLOT_COUNT K \<noteq> 0" and "\<not> c_resolved ctx" and "c_callbackRef ctx = Some ref"
    and "NativeOn K N G add ob f (Some e) ctx (h, x) = (ctx', h', x')"
  shows "if c_resolved ctx'
    then h' = h\<lparr>listenerList_of := listenerList_of h @ [entry_listener (Some e) ctx f]\<rparr> \<and>
         OnCallback K (Some e) ctx' = []
    else h' = h \<and> DeleteReference ref \<in> set (OnCallback K (Some e) ctx')"
  by (rule NativeOn_reference [OF assms])

theorem js_on_reference_witness:
  "DeleteReference 9 \<in> set (OnCallback demo_K (Some 1) (fst (NativeOn demo_K strict_napi False
      (\<lambda>ob k m b x. (0, x)) 5 2 (Some 1) ((new_context demo_K)\<lparr>c_callbackRef := Some 9\<rparr>) (new_handler, ()))))"
proof -
  let ?ctx = "(new_context demo_K)\<lparr>c_callbackRef := Some 9\<rparr>"
  let ?n = "NativeOn demo_K strict_napi False (\<lambda>ob k m b x. (0, x)) 5 2 (Some 1) ?ctx (new_handler, ())"
  have eq: "?n = (fst ?n, fst (snd ?n), snd (snd ?n))" by (simp only: prod.collapse)
  have ctx: "SIM_SLOT_COUNT demo_K \<noteq> 0" "\<not> c_resolved ?ctx" "c_callbackRef ?ctx = Some 9"
    by (simp_all add: new_context_def demo_K_def)
  have "\<not> c_resolved (fst ?n)"
    by (simp add: NativeOn_def Manager_RegisterEventListener_def new_context_def IsValidSlotIdEx_def demo_K_def)
  with js_on_reference [OF codes_ok_demo ctx eq] show ?thesis by (simp only: if_False)
qed

text \<open>
  C32: \<^verbatim>\<open>off\<close> deletes exactly the references it made obsolete: those of the listeners it removes from the
  table and the one made for its own argument.
\<close>

theorem js_off_references:
  assumes "NativeOff K N True rem (Some e) ctx (h, x) = (ctx', h', x')" and "c_removeListenerList ctx = []"
  shows "DeleteReference ref \<in> set (OffCallback K (Some e) ctx') \<longleftrightarrow>
    c_callbackRef ctx = Some ref \<or>
    (\<exists>l \<in> set (listenerList_of h). l_callbackRef l = Some ref \<and> l \<notin> set (listenerList_of h') \<and>
       entry_select N (Some e) ctx l)"
proof -
  note off = NativeOff_table [OF TrueI assms(1)]
  have "l_env l = Some e" if "entry_select N (Some e) ctx l" for l
    using that by (simp add: entry_select_def off_select_def)
  then show ?thesis
    by (auto simp: OffCallback_deletes off assms(2) erase_listeners_def)
qed

theorem js_off_references_witness:
  "DeleteReference 9 \<in> set (OffCallback demo_K (Some 1) (fst (NativeOff demo_K strict_napi True
     (\<lambda>k m x. (0, x)) (Some 1) ((new_context demo_K)\<lparr>c_eventType := Some M_SIM_STATE\<rparr>)
     (new_handler\<lparr>listenerList_of := [demo_l]\<rparr>, ()))))"
proof -
  let ?ctx = "(new_context demo_K)\<lparr>c_eventType := Some M_SIM_STATE\<rparr>"
    and ?h = "new_handler\<lparr>listenerList_of := [demo_l]\<rparr>"
  let ?n = "NativeOff demo_K strict_napi True (\<lambda>k m x. (0, x)) (Some 1) ?ctx (?h, ())"
  have eq: "?n = (fst ?n, fst (snd ?n), snd (snd ?n))" by (simp only: prod.collapse)
  have sel: "entry_select strict_napi (Some 1) ?ctx demo_l"
    by (simp add: entry_select_def off_select_def new_context_def demo_l_def)
  from NativeOff_table(1) [OF TrueI eq] have "fst (snd ?n) = erase_listeners (entry_select strict_napi (Some 1) ?ctx) ?h" .
  with sel have "demo_l \<notin> set (listenerList_of (fst (snd ?n)))" by (simp add: erase_listeners_def)
  with js_off_references [OF eq, of 9] sel show ?thesis by (simp add: new_context_def demo_l_def)
qed

section \<open>Listeners of a Cangjie application\<close>

text \<open>
  C34: the Cangjie table implements the JavaScript one. Over any sequence of requests, to register a
  listener, to remove one function or all of them, the Cangjie table seen as a JavaScript table holds
  the same listeners and flags, the registry was asked for the same, and every request returns the
  same, except that the current state is requested with call states only.
\<close>

theorem cj_refines_js:
  assumes "masks_ok K"
  shows "run_all (js_do K strict_napi (calls_now K add) rem) (map cj_js_op ops) (js_handler h, x) =
    (let (rs, h', x') = run_all (cj_do K add rem) ops (h, x) in (rs, js_handler h', x'))"
  by (rule cj.run_refines [OF assms])

theorem cj_refines_js_witness:
  "fst (run_all (js_do demo_K strict_napi (calls_now demo_K (\<lambda>ob k m b x. (0, x))) (\<lambda>k m x. (0, x)))
     (map cj_js_op [CjOn 5 demo_cj, CjOn 5 demo_cj, CjOff (Some M_SIM_STATE) (-1)])
     (js_handler \<lparr>cj_listenerList = [], cj_deleting = (\<lambda>_. False)\<rparr>, ())) = [0, 9, 0]"
  unfolding cj_refines_js [OF masks_ok_demo]
  by (simp add: RegisterEventListener_cj_def CheckEventListenerRegister_cj_def UnregisterEventListener_cj_def
      RemoveEventListenerRegister_cj_def CheckRemoveStateObserver_cj_def CheckEventTypeExist_cj_def set_insert_def
      Let_def demo_cj_def demo_K_def)

text \<open>
  C35: a callback of the Cangjie binding runs without a lock; it may register and remove listeners itself, and
  other threads may at any time. Whatever they do, each callback called belongs to a listener of the
  table at the start of the dispatch whose flag said, when it was read just before, that it is not being
  deleted; between that read and the call only other threads have run.
\<close>

theorem cj_calls_live:
  assumes "(l, v, s, t) \<in> set (snd (ProcessEvent_cj L alloc flags cb oth table ev s0))"
  shows "l \<in> set (cj_listenerList (table s0)) \<and> (\<exists>f. cj_isDeleting l = Some f \<and> \<not> flags s f) \<and> (\<exists>n. t = oth n s)"
proof -
  have "set (snapshot_cj ev h) \<subseteq> set (cj_listenerList h)" for h
    by (cases ev) (auto simp: snapshot_cj_def split: option.splits if_splits)
  moreover note work_loop_live [OF assms [unfolded ProcessEvent_cj_def]]
  ultimately show ?thesis by blast
qed

text \<open>Two listeners; the callback of the first removes the second, which is then not called.\<close>

theorem cj_calls_live_witness:
  "map (\<lambda>(l, v, s). (l, v)) (snd (ProcessEvent_cj demo_L True cj_deleting
     (\<lambda>n v h. fst (snd (UnregisterEventListener_cj demo_K (\<lambda>k m x. (0, x)) (Some M_SIM_STATE) 78 (h, ()))))
     (\<lambda>n h. h) id (EVENT_ON_SIM_STATE_UPDATE, Some (SimStateUpdateInfo 0 1 2 3))
     \<lparr>cj_listenerList = [demo_cj, demo_cj2], cj_deleting = (\<lambda>_. False)\<rparr>)) = [(demo_cj, CSimStateData 1 2 3)] \<and>
   demo_cj \<in> set (cj_listenerList \<lparr>cj_listenerList = [demo_cj, demo_cj2], cj_deleting = (\<lambda>_. False)\<rparr>)"
  (is "map _ (snd ?log) = _ \<and> _ \<in> set (cj_listenerList ?h)")
proof -
  have log: "map (\<lambda>(l, v, s). (l, v)) (snd ?log) = [(demo_cj, CSimStateData 1 2 3)]"
    by (simp add: ProcessEvent_cj_def snapshot_cj_def WorkUpdated_cj_def work_cj_defs demo_cj_def demo_cj2_def
        UnregisterEventListener_cj_def RemoveEventListenerRegister_cj_def SetEventListenerDeleting_def Let_def case_prod_beta)
  then obtain s t where "(demo_cj, CSimStateData 1 2 3, s, t) \<in> set (snd ?log)" by (auto simp: map_eq_Cons_conv)
  from cj_calls_live [OF this] log show ?thesis by simp
qed

text \<open>
  C37: a Cangjie callback may be called after its listener was removed. There is a dispatch in which, between the read of
  the flag and the call, another thread's \<^verbatim>\<open>UnregisterEventListener\<close> runs to its end and reports success, the
  listener is out of the table and marked as being deleted, and its callback is called all the same.
\<close>

theorem cj_call_after_removal:
  "\<exists>(oth :: nat \<Rightarrow> cj_handler \<Rightarrow> cj_handler) h0 s t.
     (\<forall>h. oth 0 h = h) \<and> cj_listenerList h0 = [demo_cj] \<and>
     UnregisterEventListener_cj demo_K (\<lambda>k m x. (0, x)) (Some M_SIM_STATE) (-1) (s, ()) = (0, t, ()) \<and> t = oth 1 s \<and>
     cj_listenerList t = [] \<and> cj_isDeleting demo_cj = Some 2 \<and> cj_deleting t 2 \<and>
     snd (ProcessEvent_cj demo_L True cj_deleting (\<lambda>n v h. h) oth id
       (EVENT_ON_SIM_STATE_UPDATE, Some (SimStateUpdateInfo 0 1 2 3)) h0) = [(demo_cj, CSimStateData 1 2 3, s, t)]"
proof (intro exI conjI)
  let ?un = "\<lambda>h. UnregisterEventListener_cj demo_K (\<lambda>k m x. (0, x)) (Some M_SIM_STATE) (-1) (h, ())"
  let ?oth = "\<lambda>(n :: nat) h. if n = 1 then fst (snd (?un h)) else h"
  let ?h = "\<lparr>cj_listenerList = [demo_cj], cj_deleting = (\<lambda>_. False)\<rparr>"
  let ?t = "\<lparr>cj_listenerList = [], cj_deleting = (\<lambda>_. False)(2 := True)\<rparr>"
  have un: "?un ?h = (0, ?t, ())"
    by (simp add: UnregisterEventListener_cj_def RemoveEventListenerRegister_cj_def CheckRemoveStateObserver_cj_def
        CheckEventTypeExist_cj_def SetEventListenerDeleting_def set_insert_def Let_def demo_cj_def demo_K_def)
  show "\<forall>h. ?oth 0 h = h" "cj_listenerList ?h = [demo_cj]" "?un ?h = (0, ?t, ())" "?t = ?oth 1 ?h"
    "cj_listenerList ?t = []" "cj_isDeleting demo_cj = Some 2" "cj_deleting ?t 2"
    using un by (simp_all add: demo_cj_def)
  show "snd (ProcessEvent_cj demo_L True cj_deleting (\<lambda>n v h. h) ?oth id
       (EVENT_ON_SIM_STATE_UPDATE, Some (SimStateUpdateInfo 0 1 2 3)) ?h) = [(demo_cj, CSimStateData 1 2 3, ?h, ?t)]"
    using un by (simp add: ProcessEvent_cj_def snapshot_cj_def WorkUpdated_cj_def work_cj_defs demo_cj_def Let_def)
qed



section \<open>Listeners of an ArkTS application\<close>

text \<open>
  C38: the ArkTS table implements the JavaScript one. Over any sequence of requests whose slots are
  in range and whose removals report success, with additions that may fail, the table holds the same
  listeners as the JavaScript table after the same requests, and the registry was asked for the same
  in the same order, except that the current state is requested with the kinds of call state only.
\<close>

theorem ani_refines_js:
  assumes "ani_masks_ok K" and "ani_codes_ok K A" and "ani_good K A add rem ops (inner, x)"
  shows "js_run K strict_napi (call_states_now K add) rem (map ani_js_op ops) (ani_handler inner, x) =
    (let (inner', x') = ani_run K A add rem ops (inner, x) in (ani_handler inner', x'))"
  by (rule ani_run_js [OF assms])

theorem ani_refines_js_witness:
  "js_run demo_K strict_napi (call_states_now demo_K (\<lambda>ob k m b x. (0, x + 1))) (\<lambda>k m x. (0, x + 1))
     (map ani_js_op [AniOn AE_SimState None 9 5, AniOff AE_SimState (Some 9)]) (ani_handler [], 0 :: nat) =
   (ani_handler [], 2)"
proof -
  have run: "on_change demo_K demo_A (\<lambda>ob k m b x. (0, x + 1)) 5 AE_SimState None 9 ([], 0 :: nat) =
      (Inr (), [\<lparr>event_type = Some M_SIM_STATE, slot_id = 0, callback_ref = SimStateChange 9\<rparr>], 1)"
    "off_change demo_K demo_A (\<lambda>k m x. (0, x + 1)) AE_SimState (Some 9)
      ([\<lparr>event_type = Some M_SIM_STATE, slot_id = 0, callback_ref = SimStateChange 9\<rparr>], 1 :: nat) = (Inr (), [], 2)"
    by (simp_all add: on_change_def off_change_def register_ani_def unregister_ani_def IsValidSlotIdEx_ani_def
        check_event_listener_register_def EventListenerRegister_def EventListenerUnRegister_def ConvertArktsError_def
        ConvertArktsErrorEx_def is_error_def TELEPHONY_SUCCESS_ani_def set_insert_def demo_A_def demo_K_def)
  then have "ani_good demo_K demo_A (\<lambda>ob k m b x. (0, x + 1)) (\<lambda>k m x. (0, x + 1))
      [AniOn AE_SimState None 9 5, AniOff AE_SimState (Some 9)] ([], 0 :: nat)"
    by (simp add: IsValidSlotIdEx_ani_def demo_K_def)
  from ani_refines_js [OF ani_masks_ok_demo ani_codes_ok_demo this] run show ?thesis
    by (simp add: ani_run_def)
qed

text \<open>
  C39: a notification arrives in an ArkTS application. A call of an observer that can be marshalled (no null
  element or state, lists within the bound) is delivered to the application's process, and, after any sequence of requests to the
  table and whatever the registry answered, it runs the callbacks of the listeners of its kind and slot,
  each once and in the order of the table, all with the value of the call; a callback of another variant
  is never reached. Exactly a call with a null element in its list or a null network state, should the process get one, ends
  in a null dereference.
\<close>

theorem ani_notification_arrives:
  assumes "parcel_ok P A"
  shows "(int32_args c \<longrightarrow> readable P c \<longrightarrow> (\<exists>q v. proxy_call K P True ret c = Delivered q \<and>
      Observer_OnRemoteRequest K P dflt (req_code q) (req_data q) = (NO_ERROR P, Some c) \<and> ani_image L c = Some v \<and>
      AniTelephonyObserver L c (fst (ani_run K B add rem ops ([], x))) =
        Some (map (\<lambda>l. (callback (callback_ref l), v)) (filter (ani_hears c) (fst (ani_run K B add rem ops ([], x))))))) \<and>
    (AniTelephonyObserver L c (fst (ani_run K B add rem ops ([], x))) = None \<longleftrightarrow>
       (case c of OnSignalInfoUpdated k vec \<Rightarrow> None \<in> set vec | OnCellInfoUpdated k vec \<Rightarrow> None \<in> set vec
        | OnNetworkStateUpdated k ns \<Rightarrow> ns = None | _ \<Rightarrow> False))"
proof -
  have "\<forall>l \<in> set (fst (ani_run K B add rem ops ([], x))). flavor_ok l" by (rule flavors_ok_run) simp
  note eq = AniTelephonyObserver_eq [OF this, of L c]
  have null: "ani_image L c = None \<longleftrightarrow> (case c of OnSignalInfoUpdated k vec \<Rightarrow> None \<in> set vec
      | OnCellInfoUpdated k vec \<Rightarrow> None \<in> set vec | OnNetworkStateUpdated k ns \<Rightarrow> ns = None | _ \<Rightarrow> False)"
    by (cases c) (auto simp: all_some_def)
  have "ani_image L c \<noteq> None" if "readable P c"
    using that unfolding null
    by (cases c) (auto simp: signals_ok_def cells_ok_def list_all_iff split: option.splits)
  then show ?thesis using eq null observer_round_trip_lemma [OF assms] by (auto simp del: ani_image.simps)
qed

text \<open>An application with a listener of SIM states: its callback is called with the state.\<close>

theorem ani_notification_arrives_witness:
  "AniTelephonyObserver demo_L (OnSimStateUpdated 0 1 2 3) (fst (ani_run demo_K demo_A
      (\<lambda>ob k m b x. (0, x)) (\<lambda>k m x. (0, x)) [AniOn AE_SimState None 9 5] ([], ()))) =
     Some [(9, A_SimStateData (CardType_from 1) (SimState_from 2) (LockReason_from 3))]"
proof -
  have table: "fst (ani_run demo_K demo_A (\<lambda>ob k m b x. (0, x)) (\<lambda>k m x. (0, x)) [AniOn AE_SimState None 9 5] ([], ())) =
      [\<lparr>event_type = Some M_SIM_STATE, slot_id = 0, callback_ref = SimStateChange 9\<rparr>]"
    by (simp add: ani_run_def on_change_def register_ani_def IsValidSlotIdEx_ani_def check_event_listener_register_def
        EventListenerRegister_def ConvertArktsError_def ConvertArktsErrorEx_def is_error_def TELEPHONY_SUCCESS_ani_def
        demo_A_def demo_K_def)
  have "int32_args (OnSimStateUpdated 0 1 2 3)" by (simp add: is_int32_def)
  with ani_notification_arrives [OF parcel_ok_demo, of "OnSimStateUpdated 0 1 2 3" demo_K 0 0 demo_L demo_A
      "\<lambda>ob k m b x. (0, x)" "\<lambda>k m x. (0, x)" "[AniOn AE_SimState None 9 5]" "()"]
  show ?thesis by (auto simp: table ani_hears_def)
qed

text \<open>
  C40: the ArkTS binding hands the call status of the service to the enumerations of the API without
  translating it: for every status but two, a listener of call states is told another state than a
  JavaScript listener of the same call.
\<close>

theorem ani_call_state_values:
  "(AniTelephonyObserver L (OnCallStateUpdated k (CallStatus_value s) number)
      [\<lparr>event_type = Some M_CALL_STATE, slot_id = k, callback_ref = CallStateChange n\<rparr>] =
    Some [(n, A_CallStateInfo (WrapCallState (CallStatus_value s)) (ToUtf8 L number))] \<longleftrightarrow>
    s \<in> {CALL_STATUS_UNKNOWN, CALL_STATUS_DIALING}) \<and>
   (AniTelephonyObserver L (OnCallStateUpdatedEx k (CallStatus_value s))
      [\<lparr>event_type = Some M_CALL_STATE_EX, slot_id = k, callback_ref = CallStateExChange n\<rparr>] =
    Some [(n, A_TelCallState (WrapCallStateEx (CallStatus_value s)))] \<longleftrightarrow>
    s \<in> {CALL_STATUS_UNKNOWN, CALL_STATUS_DIALING})"
  by (cases s) (simp_all add: execute_on_call_state_change_def execute_on_call_state_ex_change_def for_slot_def
      WrapCallState_def WrapCallStateEx_def CallState_from_def TelCallState_from_def)

section \<open>From the service to the listener\<close>

text \<open>
  C1: an update reaches the listener. Take any history of requests of a JavaScript application for
  subscriptions it is entitled to, interleaved with updates and with registrations of other
  applications, whatever the registry answered. Then every listener in the table has a record of the
  application in the registry, with one of its observers, and this record is served: every accepted
  update, of any kind and under any permissions of the callers, that yields a call for this record (the
  rule of C2: kind, slot, the permissions of the record's own token) makes the service call the record's observer with
  this call. When the listener hears the call (kind and slot, or the default data slot) and the call
  can be marshalled, it is delivered to the application's process and read back unchanged, it is queued
  for the listener, and the listener's function is called, once, with the JavaScript value of the call.
  The Node-API calls on the way are assumed to succeed.
\<close>

theorem update_reaches_listener:
  assumes run: "app_run K N (AddStateObserver K W (service_reg K E V)) (RemoveStateObserver K W (service_unreg K E V))
      (service_do K) evs (new_handler, c0, s0) = (h, c1, s)"
    and start: "codes_ok K" "masks_ok K" "registry_ok K s0" "observers_ok s0"
      "\<And>k m. registered s0 (app_key V k m) = None"
    and may: "\<forall>ev \<in> set evs. may_do K (may_register K E) (foreign V) obs ev"
    and fresh: "fresh_run K N (AddStateObserver K W (service_reg K E V))
      (RemoveStateObserver K W (service_unreg K E V)) (service_do K) evs (new_handler, c0, s0)"
    and l: "l \<in> set (listenerList_of h)"
    and wire: "parcel_ok P A"
    and js: "\<And>l. InitLoop N (l_env l) \<and> QueueWork N l = 0" "OpenScopeOk N" "OpenInnerScopeOk N"
      "l_callbackRef l \<noteq> None" "GetReferenceValue N (l_env l) (l_callbackRef l) = Some fn"
  shows "\<exists>r ob. registered s (app_key V (l_slotId l) (event_value K (l_eventType l))) = Some r \<and>
    telephonyObserver_of r = Some ob \<and> ob \<in> obs \<and>
    (\<forall>E' u c. slot_verified s u \<longrightarrow> update_allowed E' u \<longrightarrow>
       update_want K E' (update_write E' u s) u r = Some c \<longrightarrow>
       Notify ob c \<in> set (snd (snd (run_update K E' u s))) \<and>
       (hears N l c \<longrightarrow> int32_args c \<longrightarrow> readable P c \<longrightarrow>
          (\<exists>q v. proxy_call K P True ret c = Delivered q \<and>
             Observer_OnRemoteRequest K P dflt (req_code q) (req_data q) = (NO_ERROR P, Some c) \<and>
             (l, payload_of c) \<in> set (ProcessEvent N (NapiTelephonyObserver c) h) \<and>
             js_image L c = Some v \<and>
             calls_of (WorkUpdated N L h (l, payload_of c)) = [(fn, v)])))"
proof -
  have "flags_ok h"
    using flags_ok_app_run [OF _ fresh] by (simp add: run) (simp add: flags_ok_def new_handler_def)
  then obtain f where flag: "l_isDeleting l = Some f" "\<not> deleting h f" using l by (auto simp: flags_ok_def)
  have called: "\<exists>q v. proxy_call K P True ret c = Delivered q \<and>
      Observer_OnRemoteRequest K P dflt (req_code q) (req_data q) = (NO_ERROR P, Some c) \<and>
      (l, payload_of c) \<in> set (ProcessEvent N (NapiTelephonyObserver c) h) \<and>
      js_image L c = Some v \<and> calls_of (WorkUpdated N L h (l, payload_of c)) = [(fn, v)]"
    if hears: "hears N l c" and args: "int32_args c" "readable P c" for c
  proof -
    obtain v where v: "js_image L c = Some v" by (rule readable_image [OF args(2)])
    have "calls_of (WorkUpdated N L h (l, payload_of c)) = [(fn, v)]"
      using js(2-5) hears v flag by (simp add: WorkUpdated_live hears_def calls_of_frame)
    moreover have "(l, payload_of c) \<in> set (ProcessEvent N (NapiTelephonyObserver c) h)"
      using l hears js(1) by (auto simp: ProcessEvent_eq takeWhile_eq_all_conv [THEN iffD2])
    ultimately show ?thesis using observer_round_trip_lemma [OF wire args] v by blast
  qed
  obtain r ob where r: "registered s (app_key V (l_slotId l) (event_value K (l_eventType l))) = Some r"
      "telephonyObserver_of r = Some ob" "ob \<in> obs"
    by (rule listener_served [OF run start may l])
  show ?thesis using r update_calls_record [OF r(1,2)] called by blast
qed

text \<open>
  An application whose token may read the call log and one whose token may not, both subscribed to the
  call state; the update carries a number, and the first one's function is called with it.
\<close>

theorem update_reaches_listener_witness:
  "\<exists>s :: (int, int, nat) service. \<exists>r r'. registered s (0, 4, 7, 1) = Some r \<and> IsCanReadCallHistory demo_K demo_E r \<and>
    registered s (0, 4, 8, 2) = Some r' \<and> \<not> IsCanReadCallHistory demo_K demo_E r' \<and>
    Notify 5 (OnCallStateUpdated 0 4 [49]) \<in> set (snd (snd (run_update demo_K demo_E (UCallSlot 0 4 [49]) s))) \<and>
    calls_of (WorkUpdated strict_napi demo_L (new_handler\<lparr>listenerList_of := [demo_lc]\<rparr>)
      (demo_lc, payload_of (OnCallStateUpdated 0 4 [49]))) =
      [(9, JObj [(''state'', JInt 1), (''number'', JStr ''1'')])]"
proof -
  let ?add = "AddStateObserver demo_K demo_W (service_reg demo_K demo_E demo_V)"
  let ?rem = "RemoveStateObserver demo_K demo_W (service_unreg demo_K demo_E demo_V)"
  let ?other = "SE_Register demo_E False (0, 4, 8, 2) (Some 6, ''other'', 101, ''id2'')"
  let ?init = "construct_service demo_K :: (int, int, nat) service"
  let ?c = "OnCallStateUpdated 0 4 [49] :: (int, int, nat) observer_call"
  let ?x = "?add (Some 5) 0 4 True (new_client, register_key demo_K demo_E False (0, 4, 8, 2) (Some 6, ''other'', 101, ''id2'') ?init)"
  let ?s = "snd (snd ?x)" and ?h = "new_handler\<lparr>listenerList_of := [demo_lc]\<rparr>"
  have may: "may_register demo_K (demo_E :: (int, int, nat) world) 0 4" by (rule demo_may_register_call)
  have mask4: "event_value demo_K (Some M_CALL_STATE) = 4" by (simp add: event_value_def demo_masks)
  have reg: "registry_ok demo_K (register_key demo_K demo_E False (0, 4, 8, 2) (Some 6, ''other'', 101, ''id2'') ?init)"
    by (rule registry_ok_register) (simp add: construct_registry_ok)
  have "fst (GetProxy demo_W new_client) \<noteq> None" by (simp add: GetProxy_def demo_W_def new_client_def)
  moreover have "fst (service_reg demo_K demo_E demo_V (Some 5) 0 4 True s) = 0" for s :: "(int, int, nat) service"
    using service_reg_code [of demo_K demo_E demo_V "Some 5" 0 4 True s] may by (auto simp: demo_K_def)
  ultimately have ok: "fst ?x = 0" by (auto simp: AddStateObserver_eq)
  have state: "?s = register_key demo_K demo_E True (app_key demo_V 0 4) (Some 5, ''app'', 100, ''id'')
      (register_key demo_K demo_E False (0, 4, 8, 2) (Some 6, ''other'', 101, ''id2'') ?init)"
    by (simp add: AddStateObserver_eq service_reg_state GetProxy_def demo_W_def new_client_def demo_V_def)
  have regs: "registered ?s (0, 4, 8, 2) \<noteq> None"
    unfolding state using may by (simp add: registered_register reg construct_registry_ok)
  then obtain r' where r': "registered ?s (0, 4, 8, 2) = Some r'" by blast
  have size: "slotSize_of ?s = initial_slot_size demo_K"
    unfolding state by (simp add: register_key_def RegisterStateChange_eq Let_def frame_simps)
  have run: "app_run demo_K strict_napi ?add ?rem (service_do demo_K) [Inr ?other, Inl (On 5 demo_lc)]
      (new_handler, new_client, ?init) = (?h, fst (snd ?x), ?s)"
    using ok by (simp add: app_run_def app_step_def RegisterEventListener_def CheckEventListenerRegister_def
        new_handler_def demo_lc_def mask4 case_prod_beta Let_def) (simp add: demo_K_def)
  have verified: "slot_verified ?s (UCallSlot 0 4 [49])"
    using size by (simp add: slot_verified_def VerifySlotId_def initial_slot_size_def demo_K_def)
  have allowed: "update_allowed demo_E (UCallSlot 0 4 [49])" by (simp add: update_allowed_def demo_E_def)
  have key_fields: "slotId_of r = k \<and> mask_of r = m \<and> tokenId_of r = t" if "registered ?s (k, m, t, p) = Some r" for k m t p r
    using registered_SomeD [OF that] by (auto simp: key_of_def)
  have want: "update_want demo_K demo_E (update_write demo_E (UCallSlot 0 4 [49]) ?s) (UCallSlot 0 4 [49]) r = Some ?c"
    if "registered ?s (0, 4, 7, 1) = Some r" for r
    using key_fields [OF that] by (intro demo_want_call) simp_all
  have key: "app_key demo_V (l_slotId demo_lc) (event_value demo_K (l_eventType demo_lc)) = (0, 4, 7, 1)"
    by (simp add: demo_V_def demo_lc_def mask4)
  have prems: "registry_ok demo_K ?init" "observers_ok ?init" "\<And>k m. registered ?init (app_key demo_V k m) = None"
      "\<forall>ev \<in> set [Inr ?other, Inl (On 5 demo_lc)]. may_do demo_K (may_register demo_K demo_E) (foreign demo_V) {5} ev"
      "fresh_run demo_K strict_napi ?add ?rem (service_do demo_K) [Inr ?other, Inl (On 5 demo_lc)] (new_handler, new_client, ?init)"
    by (simp_all add: demo_may_register_call construct_registry_ok mask4 demo_lc_def demo_V_def fresh_flag_def new_handler_def app_step_def)
  have napi: "\<And>l. InitLoop strict_napi (l_env l) \<and> QueueWork strict_napi l = 0" "OpenScopeOk strict_napi"
      "OpenInnerScopeOk strict_napi" "l_callbackRef demo_lc \<noteq> None"
      "GetReferenceValue strict_napi (l_env demo_lc) (l_callbackRef demo_lc) = Some 9"
    by (simp_all add: strict_napi_def InitLoop_def demo_lc_def)
  have mem: "demo_lc \<in> set (listenerList_of ?h)" by simp
  from update_reaches_listener [OF run codes_ok_demo masks_ok_demo prems mem parcel_ok_demo napi, of 0 0 demo_L]
  obtain r ob where r: "registered ?s (0, 4, 7, 1) = Some r" "ob \<in> {5}"
      "Notify ob ?c \<in> set (snd (snd (run_update demo_K demo_E (UCallSlot 0 4 [49]) ?s)))"
      "hears strict_napi demo_lc ?c \<longrightarrow> int32_args ?c \<longrightarrow> readable list_parcel_ops ?c \<longrightarrow>
       (\<exists>v. js_image demo_L ?c = Some v \<and>
          calls_of (WorkUpdated strict_napi demo_L ?h (demo_lc, payload_of ?c)) = [(9, v)])"
    unfolding key using verified allowed want by blast
  then have "calls_of (WorkUpdated strict_napi demo_L ?h (demo_lc, payload_of ?c)) =
      [(9, JObj [(''state'', JInt 1), (''number'', JStr ''1'')])]"
    by (simp add: hears_def is_int32_def demo_lc_def demo_L_def WrapCallState_def demo_digit)
  with r r' key_fields show ?thesis by (fastforce simp: demo_can_read)
qed

end
